(* ===== verification/Prelude.thy ===== *)
theory Prelude
  imports Complex_Main "HOL-Library.Multiset" "HOL-Library.AList"
begin

text \<open>
  Shared vocabulary of the development: the types that stand for JavaScript values, the
  few operations of the JavaScript standard library the sources use
  (\<^verbatim>\<open>??\<close>, \<^verbatim>\<open>Array.prototype.sort\<close>, \<^verbatim>\<open>Array.prototype.slice\<close>,
  \<^verbatim>\<open>Math.round\<close>, array element swap), the contract of a comparison function as a
  locale, and the generic lemmas the component theories share.

  A finite JavaScript \<^verbatim>\<open>number\<close> is an exact rational: every finite double is one, and
  the sign of a difference of two doubles is the sign of the difference of the rationals.
  Instants (\<^verbatim>\<open>Date\<close>, \<^verbatim>\<open>Date.now()\<close>) are integers, in milliseconds.
\<close>

type_synonym number = rat
type_synonym time = int
type_synonym id = string

named_theorems model_defs \<open>definitions of operations, unfolded together when a branch is computed\<close>

section \<open>Operators of the language\<close>

text \<open>\<^verbatim>\<open>a ?? d\<close>, with \<open>None\<close> for both \<^verbatim>\<open>null\<close> and \<^verbatim>\<open>undefined\<close>.\<close>

definition nullish :: "'a option \<Rightarrow> 'a \<Rightarrow> 'a" where
  "nullish a d = (case a of None \<Rightarrow> d | Some x \<Rightarrow> x)"

lemma nullish_simps [simp]: "nullish None d = d" "nullish (Some x) d = x"
  by (simp_all add: nullish_def)

text \<open>\<^verbatim>\<open>Math.round\<close> rounds a tie upwards.\<close>

definition js_round :: "number \<Rightarrow> int" where
  "js_round x = \<lfloor>x + 1 / 2\<rfloor>"

text \<open>
  \<^verbatim>\<open>xs.slice(a, b)\<close>: a negative index counts from the end, indices are clamped to the
  length, and an empty range gives the empty array.
\<close>

definition js_index :: "int \<Rightarrow> nat \<Rightarrow> nat" where
  "js_index i n = nat (if i < 0 then max 0 (int n + i) else min i (int n))"

definition js_slice :: "'a list \<Rightarrow> int \<Rightarrow> int \<Rightarrow> 'a list" where
  "js_slice xs a b =
     (let s = js_index a (length xs); e = js_index b (length xs) in take (e - s) (drop s xs))"

lemma js_index_le [simp]: "js_index i n \<le> n"
  by (auto simp: js_index_def)

lemma length_js_slice:
  "length (js_slice xs a b) = js_index b (length xs) - js_index a (length xs)"
  by (simp add: js_slice_def Let_def diff_le_mono min_absorb2)

lemma js_slice_zero: "0 \<le> k \<Longrightarrow> js_slice xs 0 k = take (nat k) xs"
  by (cases "k \<le> int (length xs)") (simp_all add: js_slice_def js_index_def Let_def)

text \<open>\<^verbatim>\<open>[xs[i], xs[j]] = [xs[j], xs[i]]\<close>, for indices in range.\<close>

definition swap :: "'a list \<Rightarrow> nat \<Rightarrow> nat \<Rightarrow> 'a list" where
  "swap xs i j = xs[i := xs ! j, j := xs ! i]"

lemma length_swap [simp]: "length (swap xs i j) = length xs"
  by (simp add: swap_def)

lemma mset_swap' [simp]: "i < length xs \<Longrightarrow> j < length xs \<Longrightarrow> mset (swap xs i j) = mset xs"
  by (simp add: swap_def mset_swap)

lemma nth_swap:
  "i < length xs \<Longrightarrow> j < length xs \<Longrightarrow> k < length xs \<Longrightarrow>
   swap xs i j ! k = (if k = j then xs ! i else if k = i then xs ! j else xs ! k)"
  by (simp add: swap_def nth_list_update)

lemma mset_replace_root:
  assumes "1 < length xs"
  shows "mset xs = add_mset (xs ! 0) (mset ((butlast xs)[0 := last xs]))"
proof -
  obtain a ys where "xs = a # ys" "ys \<noteq> []" using assms by (cases xs) auto
  moreover then obtain zs c where "ys = zs @ [c]" by (cases ys rule: rev_cases) auto
  ultimately show ?thesis by simp
qed

text \<open>The decimal numeral of a natural number, as string conversion prints it.\<close>

definition digit_char :: "nat \<Rightarrow> char" where
  "digit_char d = ''0123456789'' ! (d mod 10)"

fun show_nat :: "nat \<Rightarrow> string" where
  "show_nat n = (if n < 10 then [digit_char n] else show_nat (n div 10) @ [digit_char (n mod 10)])"

declare show_nat.simps [simp del]

text \<open>\<^verbatim>\<open>String(i)\<close> for an integer.\<close>

definition show_int :: "int \<Rightarrow> string" where
  "show_int i = (if i < 0 then ''-'' @ show_nat (nat (- i)) else show_nat (nat i))"

section \<open>Comparison functions\<close>

text \<open>
  What \<^verbatim>\<open>Array.prototype.sort\<close> and the heap require of a comparison function: the
  relation "\<open>cmp a b \<le> 0\<close>" is a total preorder. Ties are allowed.
\<close>

locale comparison =
  fixes cmp :: "'a \<Rightarrow> 'a \<Rightarrow> number"
  assumes cmp_total: "cmp a b \<le> 0 \<or> cmp b a \<le> 0"
    and cmp_trans: "cmp a b \<le> 0 \<Longrightarrow> cmp b c \<le> 0 \<Longrightarrow> cmp a c \<le> 0"
    and cmp_strict: "cmp a b < 0 \<longleftrightarrow> \<not> cmp b a \<le> 0"
begin

lemma cmp_refl [simp]: "cmp a a \<le> 0"
  using cmp_total [of a a] by simp

lemma cmp_less_le: "cmp a b < 0 \<Longrightarrow> cmp a b \<le> 0"
  by simp

lemma cmp_not_less: "\<not> cmp a b < 0 \<Longrightarrow> cmp b a \<le> 0"
  using cmp_strict by blast

lemma cmp_less_trans: "cmp a b < 0 \<Longrightarrow> cmp b c \<le> 0 \<Longrightarrow> cmp a c < 0"
  using cmp_strict cmp_trans by blast

end

text \<open>
  \<^verbatim>\<open>Array.prototype.sort(cmp)\<close> is a stable sort (ECMAScript 2019). Insertion from the
  right computes it: an element goes before the first element that is not smaller.
\<close>

fun sort_insert :: "('a \<Rightarrow> 'a \<Rightarrow> number) \<Rightarrow> 'a \<Rightarrow> 'a list \<Rightarrow> 'a list" where
  "sort_insert cmp x [] = [x]"
| "sort_insert cmp x (y # ys) = (if cmp x y \<le> 0 then x # y # ys else y # sort_insert cmp x ys)"

definition js_sort :: "('a \<Rightarrow> 'a \<Rightarrow> number) \<Rightarrow> 'a list \<Rightarrow> 'a list" where
  "js_sort cmp xs = foldr (sort_insert cmp) xs []"

lemma mset_sort_insert [simp]: "mset (sort_insert cmp x ys) = add_mset x (mset ys)"
  by (induction ys) auto

lemma mset_js_sort [simp]: "mset (js_sort cmp xs) = mset xs"
  unfolding js_sort_def by (induction xs) auto

lemma set_js_sort [simp]: "set (js_sort cmp xs) = set xs"
  by (metis mset_js_sort set_mset_mset)

lemma length_js_sort [simp]: "length (js_sort cmp xs) = length xs"
  by (metis mset_js_sort size_mset)

lemma distinct_js_sort [simp]: "distinct (js_sort cmp xs) = distinct xs"
  by (metis mset_js_sort mset_eq_imp_distinct_iff)

context comparison
begin

lemma sorted_sort_insert:
  "sorted_wrt (\<lambda>a b. cmp a b \<le> 0) ys \<Longrightarrow> sorted_wrt (\<lambda>a b. cmp a b \<le> 0) (sort_insert cmp x ys)"
proof (induction ys)
  case Nil
  then show ?case by simp
next
  case (Cons y ys)
  have set: "set (sort_insert cmp x ys) = insert x (set ys)"
    by (metis mset_sort_insert set_mset_add_mset_insert set_mset_mset)
  show ?case
    using Cons cmp_trans [of x y] cmp_total [of x y] by (cases "cmp x y \<le> 0") (auto simp: set)
qed

lemma sorted_js_sort: "sorted_wrt (\<lambda>a b. cmp a b \<le> 0) (js_sort cmp xs)"
  unfolding js_sort_def by (induction xs) (auto intro: sorted_sort_insert)

lemma filter_sort_insert_eq:
  assumes P: "\<And>a b. P a \<Longrightarrow> P b \<Longrightarrow> cmp a b \<le> 0"
    and sorted: "sorted_wrt (\<lambda>a b. cmp a b \<le> 0) ys"
  shows "filter P (sort_insert cmp x ys) = (if P x then x # filter P ys else filter P ys)"
  using sorted
proof (induction ys)
  case Nil
  then show ?case by simp
next
  case (Cons y ys)
  show ?case
  proof (cases "cmp x y \<le> 0")
    case True
    then show ?thesis by simp
  next
    case False
    then have "\<not> (P x \<and> P y)" using P by blast
    with False Cons show ?thesis by auto
  qed
qed

text \<open>Stability: elements that compare equal keep their order.\<close>

lemma stable_js_sort:
  assumes P: "\<And>a b. P a \<Longrightarrow> P b \<Longrightarrow> cmp a b \<le> 0"
  shows "filter P (js_sort cmp xs) = filter P xs"
proof (induction xs)
  case Nil
  then show ?case by (simp add: js_sort_def)
next
  case (Cons x xs)
  have "js_sort cmp (x # xs) = sort_insert cmp x (js_sort cmp xs)"
    by (simp add: js_sort_def)
  then show ?case
    using Cons filter_sort_insert_eq [of P "js_sort cmp xs" x, OF P sorted_js_sort] by simp
qed

end

section \<open>Tables\<close>

text \<open>
  What the repositories share: a table is the list of its rows, a row is found by its
  primary key, and an UPDATE with a WHERE clause rewrites the rows that satisfy it.
\<close>

locale keyed_table =
  fixes key :: "'r \<Rightarrow> 'k"
    and look :: "'k \<Rightarrow> 'r list \<Rightarrow> 'r option"
    and upd_where :: "('r \<Rightarrow> bool) \<Rightarrow> ('r \<Rightarrow> 'r) \<Rightarrow> 'r list \<Rightarrow> 'r list"
  assumes look_Nil: "look k [] = None"
    and look_Cons: "look k (r # rows) = (if key r = k then Some r else look k rows)"
    and upd_where_map: "upd_where p f rows = map (\<lambda>r. if p r then f r else r) rows"
begin

lemma look_append: "look k (xs @ ys) = (case look k xs of None \<Rightarrow> look k ys | Some r \<Rightarrow> Some r)"
  by (induction xs) (auto simp: look_Nil look_Cons)

lemma look_Some: "look k rows = Some r \<Longrightarrow> r \<in> set rows \<and> key r = k"
  by (induction rows) (auto simp: look_Nil look_Cons split: if_splits)

lemma look_None: "look k rows = None \<longleftrightarrow> k \<notin> key ` set rows"
  by (induction rows) (auto simp: look_Nil look_Cons)

lemma look_mem: "distinct (map key rows) \<Longrightarrow> r \<in> set rows \<Longrightarrow> look (key r) rows = Some r"
  by (induction rows) (auto simp: look_Nil look_Cons)

lemma look_filter:
  "distinct (map key rows) \<Longrightarrow> look k (filter p rows) =
     (case look k rows of None \<Rightarrow> None | Some r \<Rightarrow> if p r then Some r else None)"
proof (induction rows)
  case (Cons r rows)
  then have "look (key r) rows = None" by (simp add: look_None)
  with Cons show ?case by (auto simp: look_Cons)
qed (simp add: look_Nil)

lemma look_map: "(\<And>r. key (f r) = key r) \<Longrightarrow> look k (map f rows) = map_option f (look k rows)"
  by (induction rows) (auto simp: look_Nil look_Cons)

lemma look_upd_where:
  assumes "\<And>r. key (f r) = key r"
  shows "look k (upd_where p f rows) = map_option (\<lambda>r. if p r then f r else r) (look k rows)"
  unfolding upd_where_map by (rule look_map) (simp add: assms)

lemma look_upd_key:
  assumes "\<And>r. key (f r) = key r"
  shows "look x (upd_where (\<lambda>r. key r = k) f rows) = (if x = k then map_option f (look x rows) else look x rows)"
  using assms by (cases "look x rows") (auto simp: look_upd_where dest: look_Some)

lemma keys_upd_where: "(\<And>r. key (f r) = key r) \<Longrightarrow> map key (upd_where p f rows) = map key rows"
  by (simp add: upd_where_map)

end

section \<open>Association lists\<close>

text \<open>
  A JavaScript \<^verbatim>\<open>Map\<close> and a database table are association lists in insertion order:
  \<^verbatim>\<open>set\<close> is \<open>AList.update\<close> (an existing key keeps its place, a new one goes to the
  end), \<^verbatim>\<open>get\<close> is \<open>map_of\<close>, \<^verbatim>\<open>delete\<close> is \<open>AList.delete\<close>.
\<close>

abbreviation keys :: "('k \<times> 'v) list \<Rightarrow> 'k list" where
  "keys m \<equiv> map fst m"

lemma map_of_update [simp]: "map_of (AList.update k v m) k' = (if k' = k then Some v else map_of m k')"
  by (simp add: update_conv')

lemma map_of_adelete [simp]: "map_of (AList.delete k m) k' = (if k' = k then None else map_of m k')"
  by (simp add: delete_conv')

lemma distinct_keys_update [simp]: "distinct (keys m) \<Longrightarrow> distinct (keys (AList.update k v m))"
  by (rule distinct_update)

lemma distinct_keys_delete [simp]: "distinct (keys m) \<Longrightarrow> distinct (keys (AList.delete k m))"
  by (rule distinct_delete)

lemma set_keys_update [simp]: "set (keys (AList.update k v m)) = insert k (set (keys m))"
  using dom_update [of k v m] by (simp add: dom_map_of_conv_image_fst)

end
