(* ===== verification/PriorityQueue.thy ===== *)
theory PriorityQueue
  imports Prelude "HOL-Library.Product_Lexorder"
begin

text \<open>
  \<^verbatim>\<open>src/scheduler/PriorityQueue.ts\<close>: the array-backed binary min-heap. The private
  field \<^verbatim>\<open>heap\<close> is the state; every method takes it and returns the new one. Index
  arithmetic, the order of the comparisons and the swaps are those of the source.
\<close>

section \<open>The data and the methods\<close>

record 'a PriorityItem =
  pi_score :: number
  pi_scheduledAt :: number
  pi_createdAt :: number
  pi_data :: 'a

type_synonym 'a heap = "'a PriorityItem list"

definition pq_size :: "'a heap \<Rightarrow> nat" where
  "pq_size h = length h"

definition isEmpty :: "'a heap \<Rightarrow> bool" where
  "isEmpty h \<longleftrightarrow> length h = 0"

definition compareFn :: "'a PriorityItem \<Rightarrow> 'a PriorityItem \<Rightarrow> number" where
  "compareFn a b =
     (if pi_score a \<noteq> pi_score b then pi_score a - pi_score b
      else if pi_scheduledAt a \<noteq> pi_scheduledAt b then pi_scheduledAt a - pi_scheduledAt b
      else pi_createdAt a - pi_createdAt b)"

function bubbleUp :: "'a heap \<Rightarrow> nat \<Rightarrow> 'a heap" where
  "bubbleUp h idx =
     (if idx > 0 then
        let parentIdx = (idx - 1) div 2 in
        if compareFn (h ! idx) (h ! parentIdx) < 0
        then bubbleUp (swap h idx parentIdx) parentIdx
        else h
      else h)"
  by pat_completeness auto
termination
  by (relation "measure (\<lambda>(h, idx). idx)") auto

definition smallestChild :: "'a heap \<Rightarrow> nat \<Rightarrow> nat" where
  "smallestChild h idx =
     (let n = length h; left = 2 * idx + 1; right = 2 * idx + 2;
          smallest = (if left < n \<and> compareFn (h ! left) (h ! idx) < 0 then left else idx)
      in if right < n \<and> compareFn (h ! right) (h ! smallest) < 0 then right else smallest)"

function sinkDown :: "'a heap \<Rightarrow> nat \<Rightarrow> 'a heap" where
  "sinkDown h idx =
     (let smallest = smallestChild h idx in
      if smallest \<noteq> idx then sinkDown (swap h idx smallest) smallest else h)"
  by pat_completeness auto
termination
  by (relation "measure (\<lambda>(h, idx). length h - idx)")
     (auto simp: smallestChild_def Let_def split: if_splits)

definition push :: "'a PriorityItem \<Rightarrow> 'a heap \<Rightarrow> 'a heap" where
  "push item h = (let h' = h @ [item] in bubbleUp h' (length h' - 1))"

definition pop :: "'a heap \<Rightarrow> 'a PriorityItem option \<times> 'a heap" where
  "pop h =
     (if isEmpty h then (None, h)
      else let top = h ! 0; lst = last h; h' = butlast h
           in if length h' > 0 then (Some top, sinkDown (h'[0 := lst]) 0)
              else (Some top, h'))"

definition peek :: "'a heap \<Rightarrow> 'a PriorityItem option" where
  "peek h = (if 0 < length h then Some (h ! 0) else None)"

definition toArray :: "'a heap \<Rightarrow> 'a PriorityItem list" where
  "toArray h = js_sort compareFn h"

definition pq_clear :: "'a heap \<Rightarrow> 'a heap" where
  "pq_clear h = []"

declare bubbleUp.simps [simp del] sinkDown.simps [simp del]

section \<open>The order\<close>

interpretation item_order: comparison compareFn
  by unfold_locales (auto simp: compareFn_def split: if_splits)

abbreviation le :: "'a PriorityItem \<Rightarrow> 'a PriorityItem \<Rightarrow> bool" where
  "le a b \<equiv> compareFn a b \<le> 0"

definition parent :: "nat \<Rightarrow> nat" where
  "parent i = (i - 1) div 2"

lemma parent_less: "0 < i \<Longrightarrow> parent i < i"
  by (auto simp: parent_def)

lemma parent_less_length: "0 < i \<Longrightarrow> i < n \<Longrightarrow> parent i < n"
  by (rule less_trans [OF parent_less])

lemma parent_eq_iff: "0 < j \<Longrightarrow> parent j = i \<longleftrightarrow> j = 2 * i + 1 \<or> j = 2 * i + 2"
  unfolding parent_def by (cases j) auto

lemma bubbleUp_step:
  "bubbleUp h i = (if 0 < i \<and> compareFn (h ! i) (h ! parent i) < 0
                   then bubbleUp (swap h i (parent i)) (parent i) else h)"
  by (simp add: bubbleUp.simps [of h i] parent_def Let_def)

lemma bubbleUp_induct [case_names step]:
  assumes "\<And>h i. (0 < i \<Longrightarrow> compareFn (h ! i) (h ! parent i) < 0 \<Longrightarrow>
             P (swap h i (parent i)) (parent i)) \<Longrightarrow> P h i"
  shows "P h i"
proof (induction h i rule: bubbleUp.induct)
  case (1 h i)
  show ?case by (rule assms) (use 1 in \<open>simp add: parent_def\<close>)
qed

section \<open>The heap invariant\<close>

definition is_heap :: "'a heap \<Rightarrow> bool" where
  "is_heap h \<longleftrightarrow> (\<forall>j < length h. 0 < j \<longrightarrow> le (h ! parent j) (h ! j))"

text \<open>
  While an element moves up from \<open>i\<close>, only the edge into \<open>i\<close> may be wrong, and the
  children of \<open>i\<close> are above the parent of \<open>i\<close> already. While one moves down from
  \<open>i\<close>, only the edges out of \<open>i\<close> may be wrong.
\<close>

definition heap_up :: "'a heap \<Rightarrow> nat \<Rightarrow> bool" where
  "heap_up h i \<longleftrightarrow>
     (\<forall>j < length h. 0 < j \<longrightarrow> j \<noteq> i \<longrightarrow> le (h ! parent j) (h ! j)) \<and>
     (\<forall>j < length h. 0 < j \<longrightarrow> parent j = i \<longrightarrow> 0 < i \<longrightarrow> le (h ! parent i) (h ! j))"

definition heap_down :: "'a heap \<Rightarrow> nat \<Rightarrow> bool" where
  "heap_down h i \<longleftrightarrow>
     (\<forall>j < length h. 0 < j \<longrightarrow> parent j \<noteq> i \<longrightarrow> le (h ! parent j) (h ! j)) \<and>
     (\<forall>j < length h. 0 < j \<longrightarrow> parent j = i \<longrightarrow> 0 < i \<longrightarrow> le (h ! parent i) (h ! j))"

lemma heap_up_swap:
  assumes up: "heap_up h i" and i: "0 < i" "i < length h"
    and less: "compareFn (h ! i) (h ! parent i) < 0"
  shows "heap_up (swap h i (parent i)) (parent i)"
proof -
  have p: "parent i < length h" "parent i \<noteq> i"
    using i parent_less [of i] by auto
  have less': "le (h ! i) (h ! parent i)" using less by simp
  have A: "\<And>j. j < length h \<Longrightarrow> 0 < j \<Longrightarrow> j \<noteq> i \<Longrightarrow> le (h ! parent j) (h ! j)"
    and B: "\<And>j. j < length h \<Longrightarrow> 0 < j \<Longrightarrow> parent j = i \<Longrightarrow> le (h ! parent i) (h ! j)"
    using up i by (auto simp: heap_up_def)
  show ?thesis
    unfolding heap_up_def
  proof (intro conjI allI impI)
    fix j assume j: "j < length (swap h i (parent i))" "0 < j" "j \<noteq> parent i"
    show "le (swap h i (parent i) ! parent j) (swap h i (parent i) ! j)"
    proof (cases "j = i")
      case True
      with i p less' show ?thesis by (simp add: nth_swap)
    next
      case False
      have pj: "parent j < length h" using j by (simp add: parent_less_length)
      show ?thesis
        using A [of j] B [of j] False i p pj j less'
        by (auto simp: nth_swap intro: item_order.cmp_trans)
    qed
  next
    fix j assume j: "j < length (swap h i (parent i))" "0 < j" "parent j = parent i" "0 < parent i"
    have pp: "parent (parent i) < length h" "parent (parent i) \<noteq> parent i"
        "parent (parent i) \<noteq> i"
      using i p j parent_less [of i] parent_less [of "parent i"] by auto
    have jj: "j < length h" "j \<noteq> parent i" using j parent_less [of j] by auto
    have "le (h ! parent (parent i)) (h ! parent i)" using A [of "parent i"] p j by auto
    moreover have "j \<noteq> i \<Longrightarrow> le (h ! parent i) (h ! j)" using A [of j] jj j by auto
    ultimately show "le (swap h i (parent i) ! parent (parent i)) (swap h i (parent i) ! j)"
      using pp jj i p by (auto simp: nth_swap intro: item_order.cmp_trans)
  qed
qed

lemma bubbleUp_heap: "i < length h \<Longrightarrow> heap_up h i \<Longrightarrow> is_heap (bubbleUp h i)"
proof (induction h i rule: bubbleUp_induct)
  case (step h i)
  show ?case
  proof (cases "0 < i \<and> compareFn (h ! i) (h ! parent i) < 0")
    case True
    then have "is_heap (bubbleUp (swap h i (parent i)) (parent i))"
      using step heap_up_swap [of h i] by (simp add: parent_less_length)
    with True show ?thesis by (simp add: bubbleUp_step [of h i])
  next
    case False
    have "\<And>j. j < length h \<Longrightarrow> 0 < j \<Longrightarrow> le (h ! parent j) (h ! j)"
      using False step.prems item_order.cmp_not_less by (auto simp: heap_up_def)
    then have "is_heap h" by (simp add: is_heap_def)
    with False show ?thesis by (auto simp: bubbleUp_step [of h i])
  qed
qed

lemma mset_bubbleUp: "i < length h \<Longrightarrow> mset (bubbleUp h i) = mset h"
proof (induction h i rule: bubbleUp_induct)
  case (step h i)
  then show ?case
    by (cases "0 < i \<and> compareFn (h ! i) (h ! parent i) < 0")
       (auto simp: bubbleUp_step [of h i] parent_less_length)
qed

lemma smallestChild_cases:
  obtains (none) "smallestChild h i = i"
      "\<And>j. j < length h \<Longrightarrow> 0 < j \<Longrightarrow> parent j = i \<Longrightarrow> le (h ! i) (h ! j)"
  | (child) "smallestChild h i < length h" "0 < smallestChild h i" "parent (smallestChild h i) = i"
      "smallestChild h i \<noteq> i" "le (h ! smallestChild h i) (h ! i)"
      "\<And>j. j < length h \<Longrightarrow> 0 < j \<Longrightarrow> parent j = i \<Longrightarrow> le (h ! smallestChild h i) (h ! j)"
proof -
  have children: "j = 2 * i + 1 \<or> j = 2 * i + 2" if "0 < j" "parent j = i" for j
    using that parent_eq_iff by blast
  let ?l = "2 * i + 1" and ?r = "2 * i + 2" and ?s = "smallestChild h i"
  note le_of_not_less = item_order.cmp_not_less
  consider (stay) "?s = i" "?l < length h \<longrightarrow> \<not> compareFn (h ! ?l) (h ! i) < 0"
        "?r < length h \<longrightarrow> \<not> compareFn (h ! ?r) (h ! i) < 0"
    | (left) "?s = ?l" "?l < length h" "compareFn (h ! ?l) (h ! i) < 0"
        "?r < length h \<longrightarrow> \<not> compareFn (h ! ?r) (h ! ?l) < 0"
    | (right) "?s = ?r" "?r < length h" "compareFn (h ! ?r) (h ! i) < 0"
        "compareFn (h ! ?r) (h ! ?l) \<le> 0"
  proof (cases "?l < length h \<and> compareFn (h ! ?l) (h ! i) < 0")
    case True
    then have s: "?s = (if ?r < length h \<and> compareFn (h ! ?r) (h ! ?l) < 0 then ?r else ?l)"
      by (simp add: smallestChild_def)
    have "compareFn (h ! ?r) (h ! i) < 0" if "compareFn (h ! ?r) (h ! ?l) < 0"
      by (rule item_order.cmp_less_trans [OF that]) (use True in simp)
    with True s left right show ?thesis by (auto split: if_splits)
  next
    case False
    then have s: "?s = (if ?r < length h \<and> compareFn (h ! ?r) (h ! i) < 0 then ?r else i)"
      by (auto simp: smallestChild_def)
    have "le (h ! ?r) (h ! ?l)" if "?r < length h" "compareFn (h ! ?r) (h ! i) < 0"
      by (rule item_order.cmp_trans [of _ "h ! i"])
         (use False that in \<open>auto intro: le_of_not_less\<close>)
    with False s stay right show ?thesis by (auto split: if_splits)
  qed
  then show thesis
  proof cases
    case stay
    then have "le (h ! i) (h ! j)" if "j < length h" "0 < j" "parent j = i" for j
      using children [OF that(2,3)] that(1) le_of_not_less by blast
    with stay(1) show ?thesis by (rule none)
  next
    case left
    then have "le (h ! ?s) (h ! j)" if "j < length h" "0 < j" "parent j = i" for j
      using children [OF that(2,3)] that(1) le_of_not_less [of "h ! ?r" "h ! ?l"] by auto
    moreover have "0 < ?l" "parent ?l = i" by (simp_all add: parent_def)
    ultimately show ?thesis using left by (intro child) auto
  next
    case right
    then have "le (h ! ?s) (h ! j)" if "j < length h" "0 < j" "parent j = i" for j
      using children [OF that(2,3)] by auto
    moreover have "0 < ?r" "parent ?r = i" by (simp_all add: parent_def)
    ultimately show ?thesis using right by (intro child) auto
  qed
qed

lemma heap_down_swap:
  assumes down: "heap_down h i" and i: "i < length h"
    and s: "s < length h" "0 < s" "parent s = i" "s \<noteq> i" "le (h ! s) (h ! i)"
    and min: "\<And>j. j < length h \<Longrightarrow> 0 < j \<Longrightarrow> parent j = i \<Longrightarrow> le (h ! s) (h ! j)"
  shows "heap_down (swap h i s) s"
proof -
  have A: "\<And>j. j < length h \<Longrightarrow> 0 < j \<Longrightarrow> parent j \<noteq> i \<Longrightarrow> le (h ! parent j) (h ! j)"
    and B: "\<And>j. j < length h \<Longrightarrow> 0 < j \<Longrightarrow> parent j = i \<Longrightarrow> 0 < i \<Longrightarrow> le (h ! parent i) (h ! j)"
    using down by (auto simp: heap_down_def)
  show ?thesis
    unfolding heap_down_def
  proof (intro conjI allI impI)
    fix j assume j: "j < length (swap h i s)" "0 < j" "parent j \<noteq> s"
    have pj: "parent j < length h" using j by (simp add: parent_less_length)
    have si: "i < s" using s parent_less [of s] by simp
    consider "j = s" | "j = i" | "j \<noteq> s" "j \<noteq> i" "parent j = i" | "j \<noteq> s" "j \<noteq> i" "parent j \<noteq> i"
      by blast
    then show "le (swap h i s ! parent j) (swap h i s ! j)"
    proof cases
      case 1
      with s i si show ?thesis by (simp add: nth_swap)
    next
      case 2
      then have "parent i \<noteq> i" "parent i \<noteq> s" using j si parent_less [of i] by auto
      with 2 s i si j pj B [of s] show ?thesis by (simp add: nth_swap)
    next
      case 3
      with s i si j pj min [of j] show ?thesis by (simp add: nth_swap)
    next
      case 4
      with s i si j pj A [of j] show ?thesis by (simp add: nth_swap)
    qed
  next
    fix j assume j: "j < length (swap h i s)" "0 < j" "parent j = s" "0 < s"
    then have "j \<noteq> s" "j \<noteq> i" "parent j \<noteq> i"
      using s parent_less [of s] parent_less [of j] by auto
    with s i j A [of j] show "le (swap h i s ! parent s) (swap h i s ! j)"
      by (simp add: nth_swap)
  qed
qed

lemma sinkDown_heap: "i < length h \<Longrightarrow> heap_down h i \<Longrightarrow> is_heap (sinkDown h i)"
proof (induction h i rule: sinkDown.induct)
  case (1 h i)
  show ?case
  proof (cases rule: smallestChild_cases [of h i])
    case none
    then have "is_heap h"
      using "1.prems" unfolding is_heap_def heap_down_def by metis
    with none show ?thesis by (simp add: sinkDown.simps [of h i])
  next
    case child
    have "heap_down (swap h i (smallestChild h i)) (smallestChild h i)"
      by (rule heap_down_swap) (use "1.prems" child in auto)
    then have "is_heap (sinkDown (swap h i (smallestChild h i)) (smallestChild h i))"
      using "1.IH" child by simp
    with child show ?thesis by (simp add: sinkDown.simps [of h i] Let_def)
  qed
qed

lemma mset_sinkDown: "i < length h \<Longrightarrow> mset (sinkDown h i) = mset h"
proof (induction h i rule: sinkDown.induct)
  case (1 h i)
  show ?case
    by (cases rule: smallestChild_cases [of h i])
       (use 1 in \<open>auto simp: sinkDown.simps [of h i] Let_def\<close>)
qed

lemma heap_root_min:
  assumes "is_heap h" and "j < length h"
  shows "le (h ! 0) (h ! j)"
  using assms(2)
proof (induction j rule: less_induct)
  case (less j)
  show ?case
  proof (cases "j = 0")
    case False
    then have "parent j < j" by (simp add: parent_less)
    with less have "le (h ! 0) (h ! parent j)" by auto
    moreover have "le (h ! parent j) (h ! j)"
      using assms(1) less.prems False by (simp add: is_heap_def)
    ultimately show ?thesis by (rule item_order.cmp_trans)
  qed simp
qed

lemma is_heap_push:
  assumes "is_heap h"
  shows "is_heap (push x h)"
proof -
  have "heap_up (h @ [x]) (length h)"
    unfolding heap_up_def
  proof (intro conjI allI impI)
    fix j assume "j < length (h @ [x])" "0 < j" "j \<noteq> length h"
    then have "j < length h" "parent j < length h" by (auto simp: parent_less_length)
    with assms \<open>0 < j\<close> show "le ((h @ [x]) ! parent j) ((h @ [x]) ! j)"
      by (simp add: is_heap_def nth_append)
  next
    fix j assume "j < length (h @ [x])" "0 < j" "parent j = length h"
    then show "le ((h @ [x]) ! parent (length h)) ((h @ [x]) ! j)"
      using parent_less [of j] by simp
  qed
  then show ?thesis
    unfolding push_def Let_def by (intro bubbleUp_heap) auto
qed

lemma mset_push [simp]: "mset (push x h) = add_mset x (mset h)"
  unfolding push_def Let_def by (subst mset_bubbleUp) auto

lemma heap_down_replace_root:
  assumes "is_heap h" and "1 < length h"
  shows "heap_down ((butlast h)[0 := x]) 0"
  unfolding heap_down_def
proof (intro conjI allI impI)
  fix j assume j: "j < length ((butlast h)[0 := x])" "0 < j" "parent j \<noteq> 0"
  then have "parent j < length h - 1" "0 < parent j" by (auto simp: parent_less_length)
  with j assms show "le ((butlast h)[0 := x] ! parent j) ((butlast h)[0 := x] ! j)"
    by (simp add: is_heap_def nth_butlast)
qed simp

lemma pop_empty: "pop [] = (None, [])"
  by (simp add: pop_def isEmpty_def)

lemma pop_nonempty:
  assumes heap: "is_heap h" and ne: "h \<noteq> []"
  shows "fst (pop h) = Some (h ! 0)" and "is_heap (snd (pop h))"
    and "mset h = add_mset (h ! 0) (mset (snd (pop h)))"
proof -
  show "fst (pop h) = Some (h ! 0)"
    using ne by (simp add: pop_def isEmpty_def Let_def)
  consider "length h = 1" | "1 < length h" using ne by (cases h) fastforce+
  then have "is_heap (snd (pop h)) \<and> mset h = add_mset (h ! 0) (mset (snd (pop h)))"
  proof cases
    case 1
    then obtain a where "h = [a]" by (cases h) auto
    then show ?thesis by (simp add: pop_def isEmpty_def is_heap_def)
  next
    case 2
    let ?h = "(butlast h)[0 := last h]"
    have "butlast h \<noteq> []" using 2 by (metis length_butlast list.size(3) not_less0 zero_less_diff)
    then have pop: "snd (pop h) = sinkDown ?h 0" and len: "0 < length ?h"
      using 2 ne by (auto simp: pop_def isEmpty_def Let_def)
    show ?thesis
      using pop len mset_replace_root [OF 2] sinkDown_heap [OF len heap_down_replace_root [OF heap 2]]
        mset_sinkDown [OF len] by simp
  qed
  then show "is_heap (snd (pop h))" "mset h = add_mset (h ! 0) (mset (snd (pop h)))" by simp_all
qed

section \<open>The contract of a priority queue\<close>

text \<open>
  What a client of the queue relies on: the contents are a multiset, \<open>push\<close> adds one
  element, \<open>pop\<close> removes one that no other element precedes. Two operations that a
  client builds from these are stated once for every implementation: filling a queue
  from a list and popping it until it is empty.
\<close>

fun fill :: "('e \<Rightarrow> 'q \<Rightarrow> 'q) \<Rightarrow> 'e list \<Rightarrow> 'q \<Rightarrow> 'q" where
  "fill ins [] q = q"
| "fill ins (x # xs) q = fill ins xs (ins x q)"

fun drain :: "('q \<Rightarrow> 'e option \<times> 'q) \<Rightarrow> nat \<Rightarrow> 'q \<Rightarrow> 'e list" where
  "drain del 0 q = []"
| "drain del (Suc n) q = (case del q of (None, _) \<Rightarrow> [] | (Some x, q') \<Rightarrow> x # drain del n q')"

locale min_queue = comparison cmp for cmp :: "'e \<Rightarrow> 'e \<Rightarrow> number" +
  fixes ins :: "'e \<Rightarrow> 'q \<Rightarrow> 'q" and del :: "'q \<Rightarrow> 'e option \<times> 'q"
    and invar :: "'q \<Rightarrow> bool" and contents :: "'q \<Rightarrow> 'e multiset"
  assumes invar_ins: "invar q \<Longrightarrow> invar (ins x q)"
    and contents_ins: "invar q \<Longrightarrow> contents (ins x q) = add_mset x (contents q)"
    and del_empty: "invar q \<Longrightarrow> contents q = {#} \<Longrightarrow> del q = (None, q)"
    and del_min: "invar q \<Longrightarrow> contents q \<noteq> {#} \<Longrightarrow>
      \<exists>x q'. del q = (Some x, q') \<and> invar q' \<and> contents q = add_mset x (contents q') \<and>
             (\<forall>y. y \<in># contents q \<longrightarrow> cmp x y \<le> 0)"
begin

lemma fill_contents:
  "invar q \<Longrightarrow> invar (fill ins xs q) \<and> contents (fill ins xs q) = mset xs + contents q"
  by (induction xs arbitrary: q) (auto simp: invar_ins contents_ins)

lemma drain_correct:
  "invar q \<Longrightarrow> n = size (contents q) \<Longrightarrow>
   sorted_wrt (\<lambda>a b. cmp a b \<le> 0) (drain del n q) \<and> mset (drain del n q) = contents q"
proof (induction n arbitrary: q)
  case 0
  then show ?case by simp
next
  case (Suc n)
  then have "contents q \<noteq> {#}" by auto
  from del_min [OF Suc.prems(1) this] obtain x q' where
    del: "del q = (Some x, q')" and inv: "invar q'" and c: "contents q = add_mset x (contents q')"
    and min: "\<And>y. y \<in># contents q \<Longrightarrow> cmp x y \<le> 0"
    by blast
  have IH: "sorted_wrt (\<lambda>a b. cmp a b \<le> 0) (drain del n q')" "mset (drain del n q') = contents q'"
    using Suc.IH [OF inv] Suc.prems(2) c by auto
  have "cmp x y \<le> 0" if "y \<in> set (drain del n q')" for y
  proof (rule min)
    from that have "y \<in># mset (drain del n q')" by simp
    then show "y \<in># contents q" by (simp add: IH(2) c)
  qed
  with IH del c show ?case by simp
qed

end

interpretation heap_queue: min_queue compareFn push pop is_heap mset
proof unfold_locales
  fix q :: "'a heap"
  show "is_heap q \<Longrightarrow> mset q = {#} \<Longrightarrow> pop q = (None, q)" by (simp add: pop_empty)
  assume heap: "is_heap q" and "mset q \<noteq> {#}"
  then have ne: "q \<noteq> []" by simp
  have "\<forall>y. y \<in># mset q \<longrightarrow> le (q ! 0) y"
    using heap_root_min [OF heap] by (auto simp: in_set_conv_nth)
  with pop_nonempty [OF heap ne]
  show "\<exists>x q'. pop q = (Some x, q') \<and> is_heap q' \<and> mset q = add_mset x (mset q') \<and>
          (\<forall>y. y \<in># mset q \<longrightarrow> le x y)"
    by (metis prod.collapse)
qed (simp_all add: is_heap_push)

section \<open>Sorted order of keys\<close>

definition item_key :: "'a PriorityItem \<Rightarrow> number \<times> number \<times> number" where
  "item_key a = (pi_score a, pi_scheduledAt a, pi_createdAt a)"

lemma le_key: "le a b \<longleftrightarrow> item_key a \<le> item_key b"
  by (auto simp: compareFn_def item_key_def less_eq_prod_simp)

lemma sorted_keys: "sorted_wrt le xs \<longleftrightarrow> sorted (map item_key xs)"
  by (simp add: sorted_wrt_map le_key)

lemma sorted_keys_unique:
  assumes "sorted_wrt le xs" "sorted_wrt le ys" "mset xs = mset ys"
  shows "map item_key xs = map item_key ys"
proof -
  have "mset (map item_key xs) = mset (map item_key ys)" using assms(3) by simp
  then show ?thesis
    using assms(1,2) by (metis sorted_keys sorted_sort_id sorted_list_of_multiset_mset)
qed

section \<open>Properties\<close>

text \<open>
  \<^verbatim>\<open>pop\<close> on a non-empty heap returns an item that no other item precedes in the
  order "score, then scheduledAt, then createdAt", removes exactly that item, and leaves
  a heap.
\<close>

theorem pop_returns_minimum:
  assumes "is_heap h" and "h \<noteq> []"
  shows "\<exists>x h'. pop h = (Some x, h') \<and> is_heap h' \<and> mset h = add_mset x (mset h') \<and>
     peek h = Some x \<and> pq_size h = pq_size h' + 1 \<and>
     (\<forall>y. y \<in> set h \<longrightarrow>
        pi_score x < pi_score y \<or>
        pi_score x = pi_score y \<and>
          (pi_scheduledAt x < pi_scheduledAt y \<or>
           pi_scheduledAt x = pi_scheduledAt y \<and> pi_createdAt x \<le> pi_createdAt y))"
proof -
  from heap_queue.del_min [OF assms(1)] assms(2) obtain x h' where
    pop: "pop h = (Some x, h')" "is_heap h'" "mset h = add_mset x (mset h')"
    and min: "\<And>y. y \<in> set h \<Longrightarrow> le x y"
    by auto
  have "peek h = Some x"
    using pop_nonempty(1) [OF assms] pop(1) assms(2) by (simp add: peek_def)
  moreover have "pq_size h = pq_size h' + 1"
    using arg_cong [OF pop(3), of size] by (simp add: pq_size_def)
  ultimately show ?thesis
    using pop min by (fastforce simp: le_key item_key_def less_eq_prod_simp)
qed

definition sample_item :: "number \<Rightarrow> number \<Rightarrow> number \<Rightarrow> string PriorityItem" where
  "sample_item s t c = \<lparr>pi_score = s, pi_scheduledAt = t, pi_createdAt = c, pi_data = ''job''\<rparr>"

lemma sample_heap: "is_heap [sample_item 1 0 0, sample_item 2 5 0, sample_item 2 5 1]"
  by (simp add: is_heap_def sample_item_def compareFn_def parent_def less_Suc_eq all_conj_distrib
      numeral_2_eq_2)

theorem pop_returns_minimum_witness:
  "\<exists>x h'. pop [sample_item 1 0 0, sample_item 2 5 0, sample_item 2 5 1] = (Some x, h') \<and> is_heap h'"
  using pop_returns_minimum [OF sample_heap] by auto

text \<open>
  \<^verbatim>\<open>push\<close> keeps the heap invariant and adds exactly the pushed item; the empty
  queue and \<^verbatim>\<open>clear\<close> give a heap.
\<close>

theorem push_keeps_heap:
  assumes "is_heap h"
  shows "is_heap (push x h) \<and> mset (push x h) = add_mset x (mset h) \<and>
     pq_size (push x h) = pq_size h + 1 \<and> \<not> isEmpty (push x h) \<and> is_heap (pq_clear h)"
proof -
  have "size (mset (push x h)) = size (add_mset x (mset h))" by (simp only: mset_push)
  then have len: "length (push x h) = length h + 1" by (simp only: size_mset size_add_mset Suc_eq_plus1)
  then show ?thesis
    using is_heap_push [OF assms] by (simp add: pq_size_def isEmpty_def pq_clear_def is_heap_def)
qed

theorem push_keeps_heap_witness:
  "is_heap (push (sample_item 0 0 0) [sample_item 1 0 0, sample_item 2 5 0, sample_item 2 5 1])"
  using push_keeps_heap [OF sample_heap] by blast

text \<open>
  C33. Pushing any items onto an empty queue and popping until it is empty gives a sorted
  permutation of them, and \<^verbatim>\<open>toArray\<close> lists the same keys in the same order.
\<close>

theorem push_pop_sorts:
  "let out = drain pop (length xs) (fill push xs []) in
   sorted_wrt (\<lambda>a b. compareFn a b \<le> 0) out \<and> mset out = mset xs \<and>
   map item_key (toArray (fill push xs [])) = map item_key out"
proof -
  have heap0: "is_heap []" by (simp add: is_heap_def)
  let ?q = "fill push xs []"
  have q: "is_heap ?q" "mset ?q = mset xs"
    using heap_queue.fill_contents [OF heap0, of xs] by simp_all
  have "length xs = size (mset ?q)" by (simp only: q size_mset)
  from heap_queue.drain_correct [OF q(1) this] q
  have out: "sorted_wrt le (drain pop (length xs) ?q)" "mset (drain pop (length xs) ?q) = mset xs"
    by auto
  moreover have "map item_key (toArray ?q) = map item_key (drain pop (length xs) ?q)"
    unfolding toArray_def
    by (rule sorted_keys_unique) (simp_all add: item_order.sorted_js_sort out q)
  ultimately show ?thesis by (simp add: Let_def)
qed

end
