(* ===== verification/Models.thy ===== *)
theory Models
  imports Prelude
begin

text \<open>
  \<^verbatim>\<open>src/models/\<close>: the domain types. A string-literal union is a datatype with the
  source's literals as constructors (those of \<^verbatim>\<open>ExecutionStatus\<close> prefixed, because
  they overlap with \<^verbatim>\<open>JobStatus\<close>); an interface is a record whose optional fields are
  options. A \<^verbatim>\<open>Date\<close> is an instant in milliseconds, an integer-valued \<^verbatim>\<open>number\<close> an
  \<open>int\<close>. Record fields carry a prefix, because two interfaces share most of their
  names.
\<close>

section \<open>JSON values\<close>

text \<open>
  Values of type \<^verbatim>\<open>unknown\<close> that come from a request body or a JSONB column. An object is
  an association list in property order.
\<close>

datatype json =
    JNull
  | JBool bool
  | JNum number
  | JStr string
  | JArr "json list"
  | JObj "(string \<times> json) list"

type_synonym obj = "(string \<times> json) list"

text \<open>Truthiness of a JSON value, and \<^verbatim>\<open>Object.entries\<close> of one.\<close>

fun truthy :: "json \<Rightarrow> bool" where
  "truthy JNull = False"
| "truthy (JBool b) = b"
| "truthy (JNum n) = (n \<noteq> 0)"
| "truthy (JStr s) = (s \<noteq> [])"
| "truthy (JArr xs) = True"
| "truthy (JObj es) = True"

fun js_entries :: "json \<Rightarrow> obj" where
  "js_entries (JObj es) = es"
| "js_entries (JArr xs) = zip (map show_nat [0..<length xs]) xs"
| "js_entries (JStr s) = zip (map show_nat [0..<length s]) (map (\<lambda>c. JStr [c]) s)"
| "js_entries _ = []"

section \<open>Job.ts\<close>

datatype JobStatus =
    PENDING | QUEUED | RUNNING | COMPLETED | FAILED | RETRYING | CANCELLED | TIMED_OUT | SKIPPED

datatype JobPriority = CRITICAL | HIGH | MEDIUM | LOW | BACKGROUND

datatype JobType =
    HTTP_REQUEST | SHELL_COMMAND | DATA_PIPELINE | EMAIL_NOTIFICATION | REPORT_GENERATION
  | FILE_PROCESSING | DATABASE_CLEANUP | WEBHOOK | CUSTOM

fun PRIORITY_WEIGHT :: "JobPriority \<Rightarrow> int" where
  "PRIORITY_WEIGHT CRITICAL = 100"
| "PRIORITY_WEIGHT HIGH = 75"
| "PRIORITY_WEIGHT MEDIUM = 50"
| "PRIORITY_WEIGHT LOW = 25"
| "PRIORITY_WEIGHT BACKGROUND = 5"

datatype RetryBackoff = FIXED | EXPONENTIAL | JITTER

record RetryConfig =
  rc_maxRetries :: int
  rc_retryDelay :: int
  rc_retryBackoff :: RetryBackoff
  rc_retryOn :: "string list"

record JobDependency =
  dep_jobId :: id
  dep_requireStatus :: "JobStatus list"

record Job =
  j_id :: id
  j_name :: string
  j_description :: "string option"
  j_type :: JobType
  j_payload :: obj
  j_status :: JobStatus
  j_priority :: JobPriority
  j_scheduledAt :: "time option"
  j_cronExpression :: "string option"
  j_timezone :: string
  j_nextRunAt :: "time option"
  j_lastRunAt :: "time option"
  j_workerId :: "id option"
  j_startedAt :: "time option"
  j_completedAt :: "time option"
  j_timeoutMs :: int
  j_retryConfig :: RetryConfig
  j_retryCount :: int
  j_maxRetries :: int
  j_dependencies :: "JobDependency list"
  j_dependencyCount :: int
  j_resolvedDependencyCount :: int
  j_result :: "obj option"
  j_errorMessage :: "string option"
  j_errorStack :: "string option"
  j_exitCode :: "int option"
  j_organizationId :: id
  j_createdBy :: id
  j_tags :: "string list"
  j_metadata :: obj
  j_createdAt :: time
  j_updatedAt :: time

text \<open>\<^verbatim>\<open>Partial<RetryConfig>\<close>.\<close>

record PartialRetryConfig =
  prc_maxRetries :: "int option"
  prc_retryDelay :: "int option"
  prc_retryBackoff :: "RetryBackoff option"
  prc_retryOn :: "string list option"

record CreateJobDto =
  c_name :: string
  c_description :: "string option"
  c_type :: JobType
  c_payload :: obj
  c_priority :: "JobPriority option"
  c_scheduledAt :: "time option"
  c_cronExpression :: "string option"
  c_timezone :: "string option"
  c_timeoutMs :: "int option"
  c_retryConfig :: "PartialRetryConfig option"
  c_dependencies :: "JobDependency list option"
  c_tags :: "string list option"
  c_metadata :: "obj option"
  c_organizationId :: id
  c_createdBy :: id

text \<open>
  \<^verbatim>\<open>UpdateJobDto\<close>: \<open>None\<close> is a field that is absent or \<^verbatim>\<open>undefined\<close>. The two are
  not told apart by the only consumer, \<^verbatim>\<open>toRow\<close> of the job repository.
\<close>

record UpdateJobDto =
  u_status :: "JobStatus option"
  u_workerId :: "id option"
  u_startedAt :: "time option"
  u_completedAt :: "time option"
  u_result :: "obj option"
  u_errorMessage :: "string option"
  u_errorStack :: "string option"
  u_exitCode :: "int option"
  u_retryCount :: "int option"
  u_nextRunAt :: "time option"
  u_lastRunAt :: "time option"
  u_resolvedDependencyCount :: "int option"

definition empty_update :: UpdateJobDto where
  "empty_update = \<lparr>u_status = None, u_workerId = None, u_startedAt = None, u_completedAt = None,
     u_result = None, u_errorMessage = None, u_errorStack = None, u_exitCode = None,
     u_retryCount = None, u_nextRunAt = None, u_lastRunAt = None,
     u_resolvedDependencyCount = None\<rparr>"

text \<open>The order of priorities: a higher weight is a higher priority.\<close>

instantiation JobPriority :: linorder
begin

definition less_eq_JobPriority :: "JobPriority \<Rightarrow> JobPriority \<Rightarrow> bool" where
  "p \<le> q \<longleftrightarrow> PRIORITY_WEIGHT p \<le> PRIORITY_WEIGHT q"

definition less_JobPriority :: "JobPriority \<Rightarrow> JobPriority \<Rightarrow> bool" where
  "p < q \<longleftrightarrow> PRIORITY_WEIGHT p < PRIORITY_WEIGHT q"

instance
proof
  fix p q r :: JobPriority
  show "p < q \<longleftrightarrow> p \<le> q \<and> \<not> q \<le> p" by (auto simp: less_eq_JobPriority_def less_JobPriority_def)
  show "p \<le> p" by (simp add: less_eq_JobPriority_def)
  show "p \<le> q \<Longrightarrow> q \<le> r \<Longrightarrow> p \<le> r" by (simp add: less_eq_JobPriority_def)
  show "p \<le> q \<Longrightarrow> q \<le> p \<Longrightarrow> p = q" by (cases p; cases q) (simp_all add: less_eq_JobPriority_def)
  show "p \<le> q \<or> q \<le> p" by (auto simp: less_eq_JobPriority_def)
qed

end

section \<open>Worker.ts\<close>

datatype WorkerStatus = ONLINE | BUSY | DRAINING | OFFLINE | LOST

record WorkerCapabilities =
  cap_jobTypes :: "JobType list"
  cap_maxConcurrency :: int
  cap_gpuEnabled :: bool
  cap_region :: "string option"
  cap_labels :: "(string \<times> string) list"

text \<open>
  \<^verbatim>\<open>WorkerStats\<close> is stored as one JSONB value and a heartbeat carries a
  \<^verbatim>\<open>Partial<WorkerStats>\<close>, so every field may be missing.
\<close>

record WorkerStats =
  ws_totalJobsProcessed :: "int option"
  ws_totalJobsSucceeded :: "int option"
  ws_totalJobsFailed :: "int option"
  ws_totalJobsTimedOut :: "int option"
  ws_averageJobDurationMs :: "number option"
  ws_uptimeMs :: "int option"
  ws_currentLoad :: "number option"

record WorkerNode =
  w_id :: id
  w_hostname :: string
  w_ipAddress :: string
  w_pid :: int
  w_version :: string
  w_status :: WorkerStatus
  w_capabilities :: WorkerCapabilities
  w_stats :: WorkerStats
  w_currentJobCount :: int
  w_maxConcurrency :: int
  w_lastHeartbeatAt :: time
  w_registeredAt :: time
  w_updatedAt :: time

record RegisterWorkerDto =
  rw_hostname :: string
  rw_ipAddress :: string
  rw_pid :: int
  rw_version :: string
  rw_capabilities :: WorkerCapabilities

record WorkerHeartbeatDto =
  hb_workerId :: id
  hb_status :: WorkerStatus
  hb_currentJobCount :: int
  hb_stats :: WorkerStats
  hb_timestamp :: time

section \<open>ExecutionLog.ts\<close>

datatype ExecutionStatus = EX_RUNNING | EX_COMPLETED | EX_FAILED | EX_TIMED_OUT | EX_CANCELLED

record ExecutionLog =
  e_id :: id
  e_jobId :: id
  e_workerId :: id
  e_attemptNumber :: int
  e_status :: ExecutionStatus
  e_startedAt :: time
  e_completedAt :: "time option"
  e_durationMs :: "int option"
  e_stdout :: "string option"
  e_stderr :: "string option"
  e_exitCode :: "int option"
  e_result :: "obj option"
  e_errorMessage :: "string option"
  e_errorStack :: "string option"
  e_errorCode :: "string option"
  e_peakMemoryMb :: "number option"
  e_cpuPercent :: "number option"
  e_createdAt :: time

record CreateExecutionLogDto =
  ce_jobId :: id
  ce_workerId :: id
  ce_attemptNumber :: int
  ce_status :: ExecutionStatus
  ce_startedAt :: time

record CompleteExecutionLogDto =
  ct_id :: id
  ct_status :: ExecutionStatus
  ct_completedAt :: time
  ct_durationMs :: int
  ct_stdout :: "string option"
  ct_stderr :: "string option"
  ct_exitCode :: "int option"
  ct_result :: "obj option"
  ct_errorMessage :: "string option"
  ct_errorStack :: "string option"
  ct_errorCode :: "string option"
  ct_peakMemoryMb :: "number option"
  ct_cpuPercent :: "number option"

section \<open>Sample values\<close>

text \<open>Concrete jobs on which the theorems are instantiated.\<close>

definition sample_job :: "id \<Rightarrow> JobDependency list \<Rightarrow> Job" where
  "sample_job i deps = \<lparr>j_id = i, j_name = ''test-job'', j_description = None, j_type = HTTP_REQUEST,
     j_payload = [], j_status = PENDING, j_priority = MEDIUM, j_scheduledAt = None,
     j_cronExpression = None, j_timezone = ''UTC'', j_nextRunAt = None, j_lastRunAt = None,
     j_workerId = None, j_startedAt = None, j_completedAt = None, j_timeoutMs = 30000,
     j_retryConfig = \<lparr>rc_maxRetries = 3, rc_retryDelay = 1000, rc_retryBackoff = EXPONENTIAL,
       rc_retryOn = []\<rparr>,
     j_retryCount = 0, j_maxRetries = 3, j_dependencies = deps,
     j_dependencyCount = int (length deps), j_resolvedDependencyCount = 0, j_result = None,
     j_errorMessage = None, j_errorStack = None, j_exitCode = None, j_organizationId = ''org1'',
     j_createdBy = ''user1'', j_tags = [], j_metadata = [], j_createdAt = 0, j_updatedAt = 0\<rparr>"

definition completed_dep :: "id \<Rightarrow> JobDependency" where
  "completed_dep i = \<lparr>dep_jobId = i, dep_requireStatus = [COMPLETED]\<rparr>"

end
