(* ===== verification/Helpers.thy ===== *)
theory Helpers
  imports Models
begin

text \<open>
  \<^verbatim>\<open>src/utils/helpers.ts\<close>: retry delays, string truncation, array chunking, the deep
  merge of plain objects, the text of a duration and the transport form of an error. \<^verbatim>\<open>Math.random()\<close> is an argument, a number in \<open>[0, 1)\<close>;
  arithmetic on numbers is exact.
\<close>

section \<open>Retry delays\<close>

definition exponentialDelay :: "number \<Rightarrow> int \<Rightarrow> number" where
  "exponentialDelay baseDelayMs attempt = baseDelayMs * 2 powi (attempt - 1)"

fun computeRetryDelay :: "number \<Rightarrow> int \<Rightarrow> RetryBackoff \<Rightarrow> number \<Rightarrow> number" where
  "computeRetryDelay baseDelayMs attempt FIXED rnd = baseDelayMs"
| "computeRetryDelay baseDelayMs attempt EXPONENTIAL rnd =
     min (exponentialDelay baseDelayMs attempt) 60000"
| "computeRetryDelay baseDelayMs attempt JITTER rnd =
     (let exponential = exponentialDelay baseDelayMs attempt;
          jitter = rnd * exponential * (2 / 10)
      in min (exponential + jitter) 60000)"

lemma exponentialDelay_Suc: "exponentialDelay b (a + 1) = 2 * exponentialDelay b a"
  using power_int_add [of "2::number" "a - 1" 1] by (simp add: exponentialDelay_def)

lemma exponentialDelay_nonneg: "0 \<le> b \<Longrightarrow> 0 \<le> exponentialDelay b a"
  by (simp add: exponentialDelay_def)

lemma exponentialDelay_mono: "0 \<le> b \<Longrightarrow> a \<le> a' \<Longrightarrow> exponentialDelay b a \<le> exponentialDelay b a'"
  unfolding exponentialDelay_def by (intro mult_left_mono power_int_increasing) auto

section \<open>formatDuration and sanitizeError\<close>

text \<open>
  \<^verbatim>\<open>x.toFixed(1)\<close> for a non-negative \<open>x\<close>: the tenths nearest to it, the larger of two equally near.
\<close>

definition toFixed1 :: "number \<Rightarrow> string" where
  "toFixed1 x = (let n = js_round (x * 10) in show_int (n div 10) @ ''.'' @ show_int (n mod 10))"

definition formatDuration :: "int \<Rightarrow> string" where
  "formatDuration ms =
     (if ms < 1000 then show_int ms @ ''ms''
      else if ms < 60000 then toFixed1 (of_int ms / 1000) @ ''s''
      else if ms < 3600000 then show_int (ms div 60000) @ ''m '' @ show_int (ms mod 60000 div 1000) @ ''s''
      else show_int (ms div 3600000) @ ''h '' @ show_int (ms mod 3600000 div 60000) @ ''m'')"

text \<open>A raised value: an \<^verbatim>\<open>Error\<close> or anything else, with its string conversion.\<close>

datatype raised = ErrorValue string "string option" "string option" | OtherValue string

record SanitizedError =
  sn_message :: string
  sn_code :: "string option"
  sn_stack :: "string option"

fun sanitizeError :: "string option \<Rightarrow> raised \<Rightarrow> SanitizedError" where
  "sanitizeError nodeEnv (ErrorValue msg code stack) =
     \<lparr>sn_message = msg, sn_code = code, sn_stack = (if nodeEnv \<noteq> Some ''production'' then stack else None)\<rparr>"
| "sanitizeError nodeEnv (OtherValue s) = \<lparr>sn_message = s, sn_code = None, sn_stack = None\<rparr>"

section \<open>truncate\<close>

definition truncate :: "string \<Rightarrow> int \<Rightarrow> string" where
  "truncate str maxLen =
     (if int (length str) \<le> maxLen then str else js_slice str 0 (maxLen - 3) @ ''...'')"

section \<open>chunkArray\<close>

text \<open>The \<^verbatim>\<open>for\<close> loop; \<open>None\<close> is a loop that does not end.\<close>

partial_function (option) chunk_loop ::
  "'a list \<Rightarrow> int \<Rightarrow> int \<Rightarrow> 'a list list \<Rightarrow> 'a list list option" where
  "chunk_loop array sz i chunks =
     (if i < int (length array)
      then chunk_loop array sz (i + sz) (chunks @ [js_slice array i (i + sz)])
      else Some chunks)"

definition chunkArray :: "'a list \<Rightarrow> int \<Rightarrow> 'a list list option" where
  "chunkArray array sz = chunk_loop array sz 0 []"

lemma chunk_loop_diverges:
  assumes "sz \<le> 0" and "i < int (length array)"
  shows "chunk_loop array sz i chunks = None"
proof (rule ccontr)
  assume "chunk_loop array sz i chunks \<noteq> None"
  then obtain r where ret: "chunk_loop array sz i chunks = Some r" by blast
  have "\<not> (sz \<le> 0 \<and> i < int (length array))"
    by (rule chunk_loop.raw_induct [where P = "\<lambda>array sz i chunks r.
          \<not> (sz \<le> 0 \<and> i < int (length array))", OF _ ret])
       (force split: if_splits)
  with assms show False by simp
qed

text \<open>The chunks from position \<open>i\<close> on, by list recursion.\<close>

function chunks_of :: "nat \<Rightarrow> 'a list \<Rightarrow> 'a list list" where
  "chunks_of n xs = (if n = 0 \<or> xs = [] then [] else take n xs # chunks_of n (drop n xs))"
  by pat_completeness auto
termination
  by (relation "measure (\<lambda>(n, xs). length xs)") auto

declare chunks_of.simps [simp del]

lemma js_slice_window:
  "0 \<le> i \<Longrightarrow> 0 \<le> n \<Longrightarrow> i \<le> int (length xs) \<Longrightarrow> js_slice xs i (i + n) = take (nat n) (drop (nat i) xs)"
  unfolding js_slice_def js_index_def Let_def
  by (auto simp: min_def nat_add_distrib not_le)

lemma chunk_loop_total:
  "0 < n \<Longrightarrow> i \<le> length array \<Longrightarrow>
   chunk_loop array (int n) (int i) chunks = Some (chunks @ chunks_of n (drop i array))"
proof (induction "length array - i" arbitrary: i chunks rule: less_induct)
  case less
  show ?case
  proof (cases "i < length array")
    case False
    then show ?thesis
      by (simp add: chunk_loop.simps chunks_of.simps [of n "[]"])
  next
    case True
    have slice: "js_slice array (int i) (int i + int n) = take n (drop i array)"
      using True by (subst js_slice_window) auto
    have unfold: "chunks_of n (drop i array) = take n (drop i array) # chunks_of n (drop (n + i) array)"
      using True less.prems by (subst chunks_of.simps) (simp add: add.commute)
    show ?thesis
    proof (cases "i + n \<le> length array")
      case le: True
      have "chunk_loop array (int n) (int (i + n)) (chunks @ [take n (drop i array)]) =
            Some ((chunks @ [take n (drop i array)]) @ chunks_of n (drop (i + n) array))"
        by (rule less.hyps) (use True le less.prems in auto)
      then show ?thesis
        using True slice unfold by (subst chunk_loop.simps) (simp add: add.commute)
    next
      case False
      then have "\<not> int i + int n < int (length array)" by linarith
      then show ?thesis
        using True slice unfold False
        by (subst chunk_loop.simps, subst chunk_loop.simps) (simp add: chunks_of.simps [of n "[]"])
    qed
  qed
qed

definition well_chunked :: "nat \<Rightarrow> 'a list list \<Rightarrow> bool" where
  "well_chunked n cs \<longleftrightarrow>
     (\<forall>c \<in> set cs. c \<noteq> [] \<and> length c \<le> n) \<and> (\<forall>c \<in> set (butlast cs). length c = n)"

lemma well_chunked_Cons:
  "c \<noteq> [] \<Longrightarrow> length c \<le> n \<Longrightarrow> (cs \<noteq> [] \<Longrightarrow> length c = n) \<Longrightarrow> well_chunked n cs \<Longrightarrow>
   well_chunked n (c # cs)"
  by (cases "cs = []") (simp_all add: well_chunked_def)

lemma chunks_of_props: "0 < n \<Longrightarrow> concat (chunks_of n xs) = xs \<and> well_chunked n (chunks_of n xs)"
proof (induction n xs rule: chunks_of.induct)
  case (1 n xs)
  show ?case
  proof (cases "xs = []")
    case True
    then show ?thesis by (simp add: chunks_of.simps [of n "[]"] well_chunked_def)
  next
    case False
    let ?rest = "chunks_of n (drop n xs)"
    have IH: "concat ?rest = drop n xs" "well_chunked n ?rest"
      using "1.IH" "1.prems" False by blast+
    have eq: "chunks_of n xs = take n xs # ?rest"
      using False "1.prems" by (simp add: chunks_of.simps [of n xs])
    have "drop n xs \<noteq> []" if "?rest \<noteq> []" using that chunks_of.simps [of n "[]"] by metis
    then have "well_chunked n (take n xs # ?rest)"
      using False "1.prems" IH(2) by (intro well_chunked_Cons) auto
    with IH(1) show ?thesis by (simp add: eq)
  qed
qed

section \<open>deepMerge\<close>

text \<open>
  \<open>mergeEntries target result entries\<close> is the loop over \<^verbatim>\<open>Object.keys(source)\<close>:
  \<^verbatim>\<open>tv\<close> is read from \<^verbatim>\<open>target\<close>, the write goes to \<^verbatim>\<open>result\<close>. Only two plain
  objects merge recursively; \<^verbatim>\<open>null\<close>, arrays and scalars replace.
\<close>

function mergeEntries :: "obj \<Rightarrow> obj \<Rightarrow> obj \<Rightarrow> obj" where
  "mergeEntries target result [] = result"
| "mergeEntries target result ((key, sv) # rest) =
     mergeEntries target
       (case (sv, map_of target key) of
          (JObj s, Some (JObj t)) \<Rightarrow> AList.update key (JObj (mergeEntries t t s)) result
        | _ \<Rightarrow> AList.update key sv result) rest"
  by pat_completeness auto
termination
  by (relation "measure (\<lambda>(t, r, s). size_list (size_prod (\<lambda>_. 0) size) s)") auto

definition deepMerge :: "obj \<Rightarrow> obj \<Rightarrow> obj" where
  "deepMerge target source = mergeEntries target target source"

definition mergedValue :: "json option \<Rightarrow> json \<Rightarrow> json" where
  "mergedValue tv sv =
     (case (sv, tv) of (JObj s, Some (JObj t)) \<Rightarrow> JObj (deepMerge t s) | _ \<Rightarrow> sv)"

lemma mergeEntries_Cons:
  "mergeEntries target result ((key, sv) # rest) =
   mergeEntries target (AList.update key (mergedValue (map_of target key) sv) result) rest"
  by (auto simp: mergedValue_def deepMerge_def split: json.splits option.splits)

lemma lookup_mergeEntries:
  "distinct (keys source) \<Longrightarrow>
   map_of (mergeEntries target result source) k =
     (case map_of source k of
        None \<Rightarrow> map_of result k
      | Some sv \<Rightarrow> Some (mergedValue (map_of target k) sv))"
proof (induction source arbitrary: result)
  case Nil
  then show ?case by simp
next
  case (Cons e rest)
  obtain key sv where e: "e = (key, sv)" by (cases e)
  have "map_of rest key = None" using Cons.prems e by (auto simp: map_of_eq_None_iff)
  with Cons e show ?case
    unfolding e mergeEntries_Cons by (simp split: option.splits)
qed

section \<open>Properties\<close>

text \<open>
  The delay before a retry: constant for FIXED; for EXPONENTIAL it doubles with
  every attempt and never exceeds 60 seconds; JITTER adds at most a fifth of the
  exponential delay, never subtracts, and is capped at 60 seconds too.
\<close>

theorem computeRetryDelay_bounds:
  assumes "0 \<le> b" and "0 \<le> rnd" and "rnd < 1"
  shows "computeRetryDelay b a FIXED rnd = b \<and>
    computeRetryDelay b 1 EXPONENTIAL rnd = min b 60000 \<and>
    computeRetryDelay b (a + 1) EXPONENTIAL rnd =
      min (2 * computeRetryDelay b a EXPONENTIAL rnd) 60000 \<and>
    computeRetryDelay b a EXPONENTIAL rnd \<le> computeRetryDelay b a JITTER rnd \<and>
    computeRetryDelay b a JITTER rnd \<le> min (6 / 5 * exponentialDelay b a) 60000"
proof (intro conjI)
  let ?e = "exponentialDelay b a"
  have e: "0 \<le> ?e" using assms(1) by (rule exponentialDelay_nonneg)
  then have j: "0 \<le> rnd * ?e" "rnd * ?e \<le> ?e"
    using assms(2,3) by (auto intro: mult_left_le_one_le)
  show "computeRetryDelay b a FIXED rnd = b" by simp
  show "computeRetryDelay b 1 EXPONENTIAL rnd = min b 60000" by (simp add: exponentialDelay_def)
  show "computeRetryDelay b (a + 1) EXPONENTIAL rnd =
        min (2 * computeRetryDelay b a EXPONENTIAL rnd) 60000"
    using e by (simp add: exponentialDelay_Suc min_def)
  show "computeRetryDelay b a EXPONENTIAL rnd \<le> computeRetryDelay b a JITTER rnd"
    using j by (simp add: Let_def min_def)
  show "computeRetryDelay b a JITTER rnd \<le> min (6 / 5 * ?e) 60000"
    using j by (simp add: Let_def min_def)
qed

theorem computeRetryDelay_bounds_witness:
  "computeRetryDelay 1000 (3 + 1) EXPONENTIAL (1 / 2) =
     min (2 * computeRetryDelay 1000 3 EXPONENTIAL (1 / 2)) 60000 \<and>
   computeRetryDelay 1000 3 JITTER (1 / 2) \<le> min (6 / 5 * exponentialDelay 1000 3) 60000"
  using computeRetryDelay_bounds [of 1000 "1 / 2" 3] by simp

text \<open>
  The retry delay never shrinks from one attempt to a later one, for the strategies
  FIXED and EXPONENTIAL.
\<close>

theorem computeRetryDelay_mono:
  assumes "0 \<le> b" and "a \<le> a'" and "st \<noteq> JITTER"
  shows "computeRetryDelay b a st rnd \<le> computeRetryDelay b a' st rnd'"
  using assms exponentialDelay_mono [of b a a'] by (cases st) auto

theorem computeRetryDelay_mono_witness:
  "computeRetryDelay 1000 1 EXPONENTIAL 0 \<le> computeRetryDelay 1000 9 EXPONENTIAL 0"
  by (rule computeRetryDelay_mono) simp_all

text \<open>
  C40. \<^verbatim>\<open>chunkArray\<close> with a positive size returns consecutive, non-empty chunks of at most
  that size, all but the last exactly that size, whose concatenation is the array; with
  a size of zero or less it never returns on a non-empty array.
\<close>

theorem chunkArray_correct:
  "(0 < n \<longrightarrow> (\<exists>cs. chunkArray xs n = Some cs \<and> concat cs = xs \<and>
      (\<forall>c \<in> set cs. c \<noteq> [] \<and> int (length c) \<le> n) \<and>
      (\<forall>c \<in> set (butlast cs). int (length c) = n))) \<and>
   (n \<le> 0 \<longrightarrow> xs \<noteq> [] \<longrightarrow> chunkArray xs n = None)"
proof (intro conjI impI)
  assume "0 < n"
  then obtain m where m: "n = int m" "0 < m" by (metis zero_less_imp_eq_int)
  have "chunkArray xs n = Some (chunks_of m xs)"
    using chunk_loop_total [OF m(2), of 0 xs "[]"] by (simp add: chunkArray_def m)
  with chunks_of_props [OF m(2), of xs, unfolded well_chunked_def] m
  show "\<exists>cs. chunkArray xs n = Some cs \<and> concat cs = xs \<and>
      (\<forall>c \<in> set cs. c \<noteq> [] \<and> int (length c) \<le> n) \<and>
      (\<forall>c \<in> set (butlast cs). int (length c) = n)" by auto
next
  assume "n \<le> 0" "xs \<noteq> []"
  then show "chunkArray xs n = None"
    unfolding chunkArray_def by (intro chunk_loop_diverges) auto
qed

theorem chunkArray_correct_witness:
  "(\<exists>cs. chunkArray [1, 2, 3, 4, 5 :: nat] 2 = Some cs \<and> concat cs = [1, 2, 3, 4, 5]) \<and>
   chunkArray [1 :: nat] 0 = None"
  using chunkArray_correct [of 2 "[1, 2, 3, 4, 5 :: nat]"] chunkArray_correct [of 0 "[1 :: nat]"]
  by auto

text \<open>
  The result of \<^verbatim>\<open>truncate\<close> respects the requested maximum length exactly when the
  string is short enough already or the maximum leaves room for the three dots.
\<close>

theorem truncate_length:
  "int (length (truncate str maxLen)) \<le> maxLen \<longleftrightarrow> int (length str) \<le> maxLen \<or> 3 \<le> maxLen"
proof (cases "int (length str) \<le> maxLen")
  case False
  have "length (truncate str maxLen) = js_index (maxLen - 3) (length str) + 3"
    using False by (simp add: truncate_def length_js_slice js_index_def)
  then show ?thesis using False by (auto simp: js_index_def)
qed (simp add: truncate_def)

text \<open>
  A key of the merged object: a key absent from the source keeps the target's value,
  a key of both whose two values are plain objects is merged recursively, and any other
  key takes the source's value; the merged object has no other keys.
\<close>

theorem deepMerge_lookup:
  assumes "distinct (keys source)"
  shows "map_of (deepMerge target source) k =
    (case map_of source k of
       None \<Rightarrow> map_of target k
     | Some sv \<Rightarrow>
         (case (sv, map_of target k) of
            (JObj s, Some (JObj t)) \<Rightarrow> Some (JObj (deepMerge t s))
          | _ \<Rightarrow> Some sv))"
  unfolding deepMerge_def [of target source] lookup_mergeEntries [OF assms]
  by (auto simp: mergedValue_def split: option.splits json.splits)

theorem deepMerge_lookup_witness:
  "map_of (deepMerge [(''nested'', JObj [(''x'', JNum 1), (''y'', JNum 2)])]
     [(''nested'', JObj [(''y'', JNum 99)])]) ''nested'' =
   Some (JObj (deepMerge [(''x'', JNum 1), (''y'', JNum 2)] [(''y'', JNum 99)]))"
  by (subst deepMerge_lookup) simp_all

end
