(* ===== verification/LoadBalancer.thy ===== *)
theory LoadBalancer
  imports Models
begin

text \<open>
  \<^verbatim>\<open>src/scheduler/LoadBalancer.ts\<close>: choice of a worker for a job. A load is the exact
  ratio of two counters; the columns they come from are 16-bit integers, for which the
  comparison of the rounded quotients is the comparison of the exact ones.
\<close>

section \<open>State and operations\<close>

datatype LoadBalancingStrategy = LEAST_LOADED | ROUND_ROBIN | AFFINITY | RANDOM

record LoadBalancer =
  rrIndex :: nat
  strategy :: LoadBalancingStrategy

definition new_LoadBalancer :: "LoadBalancingStrategy \<Rightarrow> LoadBalancer" where
  "new_LoadBalancer s = \<lparr>rrIndex = 0, strategy = s\<rparr>"

definition eligible :: "Job \<Rightarrow> WorkerNode \<Rightarrow> bool" where
  "eligible job w \<longleftrightarrow>
     (if w_status w \<notin> set [ONLINE, BUSY] then False
      else if w_currentJobCount w \<ge> w_maxConcurrency w then False
      else if j_type job \<notin> set (cap_jobTypes (w_capabilities w)) \<and>
              CUSTOM \<notin> set (cap_jobTypes (w_capabilities w)) then False
      else True)"

definition filterEligible :: "Job \<Rightarrow> WorkerNode list \<Rightarrow> WorkerNode list" where
  "filterEligible job workers = filter (eligible job) workers"

definition load :: "WorkerNode \<Rightarrow> number" where
  "load w = of_int (w_currentJobCount w) / of_int (max (w_maxConcurrency w) 1)"

text \<open>\<^verbatim>\<open>reduce\<close> without an initial value raises a TypeError on an empty array: \<open>None\<close>.\<close>

fun leastLoaded :: "WorkerNode list \<Rightarrow> WorkerNode option" where
  "leastLoaded [] = None"
| "leastLoaded (b # ws) = Some (fold (\<lambda>w best. if load w < load best then w else best) ws b)"

definition roundRobin :: "LoadBalancer \<Rightarrow> WorkerNode list \<Rightarrow> WorkerNode \<times> LoadBalancer" where
  "roundRobin lb workers =
     (let idx = rrIndex lb mod length workers
      in (workers ! idx, lb\<lparr>rrIndex := (rrIndex lb + 1) mod length workers\<rparr>))"

definition affinityMatch :: "Job \<Rightarrow> WorkerNode \<Rightarrow> bool" where
  "affinityMatch job w =
     ((case map_of (j_metadata job) ''region'' of
         None \<Rightarrow> True
       | Some preferredRegion \<Rightarrow>
           \<not> (truthy preferredRegion \<and>
              map_option JStr (cap_region (w_capabilities w)) \<noteq> Some preferredRegion)) \<and>
      (case map_of (j_metadata job) ''requiredLabels'' of
         None \<Rightarrow> True
       | Some requiredLabels \<Rightarrow>
           \<not> truthy requiredLabels \<or>
           list_all (\<lambda>(k, v). map_option JStr (map_of (cap_labels (w_capabilities w)) k) = Some v)
             (js_entries requiredLabels)))"

definition affinity :: "Job \<Rightarrow> WorkerNode list \<Rightarrow> WorkerNode option" where
  "affinity job workers =
     (let matching = filter (affinityMatch job) workers
      in if length matching > 0 then leastLoaded matching else leastLoaded workers)"

definition selectWorker ::
  "LoadBalancer \<Rightarrow> Job \<Rightarrow> WorkerNode list \<Rightarrow> number \<Rightarrow> WorkerNode option \<times> LoadBalancer" where
  "selectWorker lb job workers rnd =
     (let elig = filterEligible job workers in
      if length elig = 0 then (None, lb)
      else case strategy lb of
        LEAST_LOADED \<Rightarrow> (leastLoaded elig, lb)
      | ROUND_ROBIN \<Rightarrow> (let (w, lb') = roundRobin lb elig in (Some w, lb'))
      | AFFINITY \<Rightarrow> (affinity job elig, lb)
      | RANDOM \<Rightarrow> (Some (elig ! nat \<lfloor>rnd * of_nat (length elig)\<rfloor>), lb))"

record LoadStats =
  totalCapacity :: int
  usedCapacity :: int
  utilizationPercent :: number
  eligibleWorkers :: nat

definition lb_getStats :: "WorkerNode list \<Rightarrow> LoadStats" where
  "lb_getStats workers =
     (let onlineWorkers = filter (\<lambda>w. w_status w \<in> set [ONLINE, BUSY]) workers;
          total = sum_list (map w_maxConcurrency onlineWorkers);
          used = sum_list (map w_currentJobCount onlineWorkers)
      in \<lparr>totalCapacity = total, usedCapacity = used,
          utilizationPercent = (if total > 0 then of_int used / of_int total * 100 else 0),
          eligibleWorkers = length onlineWorkers\<rparr>)"

section \<open>The least loaded worker\<close>

lemma fold_min_load:
  "let r = fold (\<lambda>w best. if load w < load best then w else best) ws b in
   r \<in> set (b # ws) \<and> (\<forall>w \<in> set (b # ws). load r \<le> load w)"
proof (induction ws arbitrary: b)
  case (Cons w ws)
  show ?case
    using Cons.IH [of "if load w < load b then w else b"] by (auto simp: Let_def)
qed simp

lemma leastLoaded_min:
  assumes "ws \<noteq> []"
  shows "\<exists>r. leastLoaded ws = Some r \<and> r \<in> set ws \<and> (\<forall>w \<in> set ws. load r \<le> load w)"
  using assms fold_min_load by (cases ws) (auto simp: Let_def)

lemma affinity_choice:
  assumes "ws \<noteq> []"
  shows "\<exists>r. affinity job ws = Some r \<and> r \<in> set ws \<and>
    ((\<exists>w \<in> set ws. affinityMatch job w) \<longrightarrow> affinityMatch job r) \<and>
    (\<forall>w \<in> set ws. affinityMatch job w = affinityMatch job r \<longrightarrow> load r \<le> load w)"
proof (cases "filter (affinityMatch job) ws = []")
  case True
  then have none: "\<forall>w \<in> set ws. \<not> affinityMatch job w" by (simp add: filter_empty_conv)
  with True leastLoaded_min [OF assms] show ?thesis by (auto simp: affinity_def)
next
  case False
  with leastLoaded_min [OF False] show ?thesis by (auto simp: affinity_def Let_def)
qed

lemma random_index:
  assumes "0 \<le> rnd" "rnd < (1 :: number)" "0 < n"
  shows "nat \<lfloor>rnd * of_nat n\<rfloor> < n"
proof -
  have "rnd * of_nat n < of_nat n" using assms by simp
  then have "\<lfloor>rnd * of_nat n\<rfloor> < int n" by (simp add: floor_less_iff)
  moreover have "0 \<le> \<lfloor>rnd * of_nat n\<rfloor>" using assms by simp
  ultimately show ?thesis by linarith
qed

section \<open>Properties\<close>


definition sample_worker :: "id \<Rightarrow> int \<Rightarrow> WorkerNode" where
  "sample_worker i n = \<lparr>w_id = i, w_hostname = ''host1'', w_ipAddress = ''10.0.0.1'', w_pid = 1234,
     w_version = ''1.0.0'', w_status = ONLINE,
     w_capabilities = \<lparr>cap_jobTypes = [HTTP_REQUEST, CUSTOM], cap_maxConcurrency = 10,
       cap_gpuEnabled = False, cap_region = None, cap_labels = []\<rparr>,
     w_stats = \<lparr>ws_totalJobsProcessed = Some 0, ws_totalJobsSucceeded = Some 0,
       ws_totalJobsFailed = Some 0, ws_totalJobsTimedOut = Some 0,
       ws_averageJobDurationMs = Some 0, ws_uptimeMs = Some 0, ws_currentLoad = Some 0\<rparr>,
     w_currentJobCount = n, w_maxConcurrency = 10, w_lastHeartbeatAt = 0, w_registeredAt = 0,
     w_updatedAt = 0\<rparr>"

lemma eligible_sample: "n < 10 \<Longrightarrow> eligible job (sample_worker i n)"
  by (simp add: eligible_def sample_worker_def)


text \<open>
  With the strategy LEAST_LOADED the selected worker has the smallest ratio of running
  jobs to capacity among the eligible workers; with AFFINITY the selected worker matches
  the job's region and labels if any eligible worker does, and has the smallest load
  among those that match as well as it does.
\<close>

theorem selectWorker_optimal:
  assumes "eligible job v" and "v \<in> set ws"
  shows "\<exists>w a. fst (selectWorker \<lparr>rrIndex = i, strategy = LEAST_LOADED\<rparr> job ws rnd) = Some w \<and>
      load w \<le> load v \<and>
      fst (selectWorker \<lparr>rrIndex = i, strategy = AFFINITY\<rparr> job ws rnd) = Some a \<and>
      (affinityMatch job v \<longrightarrow> affinityMatch job a) \<and>
      (affinityMatch job v = affinityMatch job a \<longrightarrow> load a \<le> load v)"
proof -
  have v: "v \<in> set (filterEligible job ws)" and ne: "filterEligible job ws \<noteq> []"
    using assms by (auto simp: filterEligible_def filter_empty_conv)
  obtain w where w: "leastLoaded (filterEligible job ws) = Some w" "load w \<le> load v"
    using leastLoaded_min [OF ne] v by auto
  obtain a where a: "affinity job (filterEligible job ws) = Some a"
    "affinityMatch job v \<longrightarrow> affinityMatch job a"
    "affinityMatch job v = affinityMatch job a \<longrightarrow> load a \<le> load v"
    using affinity_choice [OF ne, of job] v by blast
  show ?thesis using w a ne by (simp add: selectWorker_def)
qed

theorem selectWorker_optimal_witness:
  "\<exists>w. fst (selectWorker \<lparr>rrIndex = 0, strategy = LEAST_LOADED\<rparr> (sample_job ''j1'' [])
     [sample_worker ''w1'' 8, sample_worker ''w2'' 2] 0) = Some w \<and> load w \<le> load (sample_worker ''w2'' 2)"
  using selectWorker_optimal [of "sample_job ''j1'' []" "sample_worker ''w2'' 2"
      "[sample_worker ''w1'' 8, sample_worker ''w2'' 2]" 0 0]
  by (auto simp: eligible_sample)

fun selections :: "nat \<Rightarrow> LoadBalancer \<Rightarrow> Job \<Rightarrow> WorkerNode list \<Rightarrow> WorkerNode option list" where
  "selections 0 lb job ws = []"
| "selections (Suc n) lb job ws =
     (let (w, lb') = selectWorker lb job ws 0 in w # selections n lb' job ws)"

lemma selections_round_robin:
  assumes ne: "filterEligible job ws \<noteq> []"
  shows "selections n \<lparr>rrIndex = i, strategy = ROUND_ROBIN\<rparr> job ws =
    map (\<lambda>k. Some (filterEligible job ws ! ((i + k) mod length (filterEligible job ws)))) [0..<n]"
proof (induction n arbitrary: i)
  case (Suc n)
  let ?e = "filterEligible job ws"
  have "selections (Suc n) \<lparr>rrIndex = i, strategy = ROUND_ROBIN\<rparr> job ws =
      Some (?e ! (i mod length ?e)) #
      selections n \<lparr>rrIndex = (i + 1) mod length ?e, strategy = ROUND_ROBIN\<rparr> job ws"
    using ne by (simp add: selectWorker_def roundRobin_def Let_def)
  also have "\<dots> = map (\<lambda>k. Some (?e ! ((i + k) mod length ?e))) (0 # map Suc [0..<n])"
    unfolding Suc.IH by (simp add: mod_simps)
  finally show ?case by (simp only: map_Suc_upt upt_conv_Cons zero_less_Suc)
qed simp

text \<open>
  ROUND_ROBIN is fair: on an unchanging list of eligible workers, as many calls as
  there are workers return the whole list once, rotated to the position of the first
  call.
\<close>

theorem round_robin_fair:
  assumes "filterEligible job ws \<noteq> []"
  shows "selections (length (filterEligible job ws)) \<lparr>rrIndex = i, strategy = ROUND_ROBIN\<rparr> job ws =
    map Some (rotate i (filterEligible job ws))"
  unfolding selections_round_robin [OF assms]
  by (intro nth_equalityI) (simp_all add: nth_rotate)

theorem round_robin_fair_witness:
  "selections 3 (new_LoadBalancer ROUND_ROBIN) (sample_job ''j1'' [])
     [sample_worker ''w1'' 0, sample_worker ''w2'' 0, sample_worker ''w3'' 0] =
   [Some (sample_worker ''w1'' 0), Some (sample_worker ''w2'' 0), Some (sample_worker ''w3'' 0)]"
  using round_robin_fair [of "sample_job ''j1'' []"
      "[sample_worker ''w1'' 0, sample_worker ''w2'' 0, sample_worker ''w3'' 0]" 0]
  by (simp add: filterEligible_def eligible_sample new_LoadBalancer_def numeral_3_eq_3)

end
