(* ===== verification/JobRepository.thy ===== *)
theory JobRepository
  imports Models "HOL-Library.Product_Lexorder"
begin

text \<open>
  \<^verbatim>\<open>src/db/repositories/JobRepository.ts\<close>: the \<^verbatim>\<open>jobs\<close> table and the statements the
  repository runs on it. The table is the list of its rows in physical order, which SQL
  leaves unspecified: every theorem is about an arbitrary list, so it holds for any
  order in which ties of an ORDER BY or the rows of a RETURNING clause may come. A row
  is a \<open>Job\<close>; the functions \<^verbatim>\<open>toRow\<close> and \<^verbatim>\<open>fromRow\<close> rename columns and map NULL to
  \<^verbatim>\<open>undefined\<close>, which is \<open>None\<close> here (the columns are the subject of \<open>JobRows\<close>). The clock and the generated identifier are
  arguments. The update trigger of \<^verbatim>\<open>002_create_jobs.sql\<close> sets \<^verbatim>\<open>updated_at\<close>.
\<close>

section \<open>Statements\<close>

type_synonym jobs = "Job list"

datatype db_error = UniqueViolation id | NegativeOffset | NegativeLimit

definition retryConfigOf :: "PartialRetryConfig option \<Rightarrow> RetryConfig" where
  "retryConfigOf rc =
     \<lparr>rc_maxRetries = nullish (Option.bind rc prc_maxRetries) 3,
      rc_retryDelay = nullish (Option.bind rc prc_retryDelay) 5000,
      rc_retryBackoff = nullish (Option.bind rc prc_retryBackoff) EXPONENTIAL,
      rc_retryOn = nullish (Option.bind rc prc_retryOn) []\<rparr>"

definition newRow :: "id \<Rightarrow> time \<Rightarrow> CreateJobDto \<Rightarrow> Job" where
  "newRow newId now dto =
     \<lparr>j_id = newId, j_name = c_name dto, j_description = c_description dto, j_type = c_type dto,
      j_payload = c_payload dto, j_status = PENDING, j_priority = nullish (c_priority dto) MEDIUM,
      j_scheduledAt = c_scheduledAt dto, j_cronExpression = c_cronExpression dto,
      j_timezone = nullish (c_timezone dto) ''UTC'', j_nextRunAt = None, j_lastRunAt = None,
      j_workerId = None, j_startedAt = None, j_completedAt = None,
      j_timeoutMs = nullish (c_timeoutMs dto) 300000,
      j_retryConfig = retryConfigOf (c_retryConfig dto),
      j_retryCount = 0,
      j_maxRetries = nullish (Option.bind (c_retryConfig dto) prc_maxRetries) 3,
      j_dependencies = nullish (c_dependencies dto) [],
      j_dependencyCount = int (length (nullish (c_dependencies dto) [])),
      j_resolvedDependencyCount = 0, j_result = None, j_errorMessage = None, j_errorStack = None,
      j_exitCode = None, j_organizationId = c_organizationId dto, j_createdBy = c_createdBy dto,
      j_tags = nullish (c_tags dto) [], j_metadata = nullish (c_metadata dto) [],
      j_createdAt = now, j_updatedAt = now\<rparr>"

definition findById :: "id \<Rightarrow> jobs \<Rightarrow> Job option" where
  "findById i db = List.find (\<lambda>j. j_id j = i) db"

text \<open>The insert violates the primary key when the identifier is already present.\<close>

definition create :: "id \<Rightarrow> time \<Rightarrow> CreateJobDto \<Rightarrow> jobs \<Rightarrow> db_error + Job \<times> jobs" where
  "create newId now dto db =
     (if findById newId db \<noteq> None then Inl (UniqueViolation newId)
      else let row = newRow newId now dto in Inr (row, db @ [row]))"

text \<open>
  \<^verbatim>\<open>toRow\<close> skips every field that is \<^verbatim>\<open>undefined\<close>, so an update writes only the
  fields that have a value and cannot clear one.
\<close>

definition orKeep :: "'a option \<Rightarrow> 'a option \<Rightarrow> 'a option" where
  "orKeep new old = (case new of None \<Rightarrow> old | Some v \<Rightarrow> Some v)"

lemma orKeep_simps [simp]: "orKeep None old = old" "orKeep (Some v) old = Some v"
  by (simp_all add: orKeep_def)

definition toRow :: "UpdateJobDto \<Rightarrow> Job \<Rightarrow> Job" where
  "toRow dto j =
     j\<lparr>j_status := nullish (u_status dto) (j_status j),
       j_workerId := orKeep (u_workerId dto) (j_workerId j),
       j_startedAt := orKeep (u_startedAt dto) (j_startedAt j),
       j_completedAt := orKeep (u_completedAt dto) (j_completedAt j),
       j_result := orKeep (u_result dto) (j_result j),
       j_errorMessage := orKeep (u_errorMessage dto) (j_errorMessage j),
       j_errorStack := orKeep (u_errorStack dto) (j_errorStack j),
       j_exitCode := orKeep (u_exitCode dto) (j_exitCode j),
       j_retryCount := nullish (u_retryCount dto) (j_retryCount j),
       j_nextRunAt := orKeep (u_nextRunAt dto) (j_nextRunAt j),
       j_lastRunAt := orKeep (u_lastRunAt dto) (j_lastRunAt j),
       j_resolvedDependencyCount :=
         nullish (u_resolvedDependencyCount dto) (j_resolvedDependencyCount j)\<rparr>"

definition applyUpdate :: "UpdateJobDto \<Rightarrow> time \<Rightarrow> Job \<Rightarrow> Job" where
  "applyUpdate dto now j = (toRow dto j)\<lparr>j_updatedAt := now\<rparr>"

text \<open>\<^verbatim>\<open>UPDATE ... WHERE p SET f\<close>, the rows left in place.\<close>

definition updateWhere :: "(Job \<Rightarrow> bool) \<Rightarrow> (Job \<Rightarrow> Job) \<Rightarrow> jobs \<Rightarrow> jobs" where
  "updateWhere p f db = map (\<lambda>j. if p j then f j else j) db"

definition update :: "id \<Rightarrow> UpdateJobDto \<Rightarrow> time \<Rightarrow> jobs \<Rightarrow> Job option \<times> jobs" where
  "update i dto now db =
     (let db' = updateWhere (\<lambda>j. j_id j = i) (applyUpdate dto now) db in (findById i db', db'))"

definition delete :: "id \<Rightarrow> jobs \<Rightarrow> bool \<times> jobs" where
  "delete i db =
     (let db' = filter (\<lambda>j. j_id j \<noteq> i) db in (length db' < length db, db'))"

subsection \<open>Claiming\<close>

fun priorityRank :: "JobPriority \<Rightarrow> int" where
  "priorityRank CRITICAL = 1"
| "priorityRank HIGH = 2"
| "priorityRank MEDIUM = 3"
| "priorityRank LOW = 4"
| "priorityRank BACKGROUND = 5"

fun ascNullsLast :: "time option \<Rightarrow> time option \<Rightarrow> number" where
  "ascNullsLast (Some a) (Some b) = of_int (a - b)"
| "ascNullsLast (Some a) None = -1"
| "ascNullsLast None (Some b) = 1"
| "ascNullsLast None None = 0"

definition claimOrder :: "Job \<Rightarrow> Job \<Rightarrow> number" where
  "claimOrder a b =
     (if priorityRank (j_priority a) \<noteq> priorityRank (j_priority b)
      then of_int (priorityRank (j_priority a) - priorityRank (j_priority b))
      else if j_scheduledAt a \<noteq> j_scheduledAt b
      then ascNullsLast (j_scheduledAt a) (j_scheduledAt b)
      else of_int (j_createdAt a - j_createdAt b))"

definition claimable :: "time \<Rightarrow> Job \<Rightarrow> bool" where
  "claimable now j \<longleftrightarrow>
     j_status j = PENDING \<and>
     (case j_scheduledAt j of None \<Rightarrow> True | Some t \<Rightarrow> t \<le> now) \<and>
     j_dependencyCount j = j_resolvedDependencyCount j"

text \<open>
  The inner SELECT: \<open>locked\<close> are the rows locked by concurrent transactions, which SKIP
  LOCKED passes over.
\<close>

definition selectClaim :: "nat \<Rightarrow> time \<Rightarrow> id set \<Rightarrow> jobs \<Rightarrow> id list" where
  "selectClaim limit now locked db =
     map j_id (take limit (js_sort claimOrder
       (filter (\<lambda>j. claimable now j \<and> j_id j \<notin> locked) db)))"

definition claimPendingJobs :: "nat \<Rightarrow> time \<Rightarrow> id set \<Rightarrow> jobs \<Rightarrow> Job list \<times> jobs" where
  "claimPendingJobs limit now locked db =
     (let ids = selectClaim limit now locked db;
          db' = updateWhere (\<lambda>j. j_id j \<in> set ids)
                  (\<lambda>j. j\<lparr>j_status := QUEUED, j_updatedAt := now\<rparr>) db
      in (filter (\<lambda>j. j_id j \<in> set ids) db', db'))"

definition findStalledJobs :: "int \<Rightarrow> time \<Rightarrow> jobs \<Rightarrow> Job list" where
  "findStalledJobs staleThresholdMs now db =
     filter (\<lambda>j. j_status j = RUNNING \<and>
       (case j_startedAt j of None \<Rightarrow> False | Some t \<Rightarrow> t \<le> now - staleThresholdMs)) db"

definition dependsOn :: "id \<Rightarrow> Job \<Rightarrow> bool" where
  "dependsOn i j \<longleftrightarrow> i \<in> set (map dep_jobId (j_dependencies j))"

definition resolveDependency :: "id \<Rightarrow> time \<Rightarrow> jobs \<Rightarrow> jobs" where
  "resolveDependency completedJobId now db =
     updateWhere (\<lambda>j. dependsOn completedJobId j \<and> j_status j = PENDING)
       (\<lambda>j. j\<lparr>j_resolvedDependencyCount := j_resolvedDependencyCount j + 1, j_updatedAt := now\<rparr>) db"

definition findDueCronJobs :: "time \<Rightarrow> id set \<Rightarrow> jobs \<Rightarrow> Job list" where
  "findDueCronJobs now locked db =
     filter (\<lambda>j. j_cronExpression j \<noteq> None \<and>
       (case j_nextRunAt j of None \<Rightarrow> False | Some t \<Rightarrow> t \<le> now) \<and>
       j_status j \<in> set [PENDING, COMPLETED, FAILED] \<and> j_id j \<notin> locked) db"

definition bulkUpdateStatus :: "id list \<Rightarrow> JobStatus \<Rightarrow> time \<Rightarrow> jobs \<Rightarrow> jobs" where
  "bulkUpdateStatus ids st now db =
     updateWhere (\<lambda>j. j_id j \<in> set ids) (\<lambda>j. j\<lparr>j_status := st, j_updatedAt := now\<rparr>) db"

subsection \<open>Listing\<close>

text \<open>
  \<^verbatim>\<open>ILIKE\<close>: \<open>%\<close> matches any sequence, \<open>_\<close> any character, a backslash takes the next
  pattern character literally; letters compare without case.
\<close>

definition lower :: "char \<Rightarrow> char" where
  "lower c = (if 65 \<le> (of_char c :: nat) \<and> (of_char c :: nat) \<le> 90 then char_of (of_char c + (32 :: nat)) else c)"

fun ilike :: "string \<Rightarrow> string \<Rightarrow> bool" where
  "ilike [] s = (s = [])"
| "ilike (p # ps) s =
     (if p = CHR ''%'' then ilike ps s \<or> (case s of [] \<Rightarrow> False | _ # t \<Rightarrow> ilike (p # ps) t)
      else case s of
        [] \<Rightarrow> False
      | c # t \<Rightarrow>
          if p = CHR ''_'' then ilike ps t
          else if p = CHR 0x5C then
            (case ps of [] \<Rightarrow> False | q # qs \<Rightarrow> lower q = lower c \<and> ilike qs t)
          else lower p = lower c \<and> ilike ps t)"

datatype sortColumn = createdAt | scheduledAt | priority | status

datatype sortOrder = ASC | DESC

record JobFilter =
  f_status :: "JobStatus list option"
  f_priority :: "JobPriority list option"
  f_type :: "JobType option"
  f_organizationId :: "id option"
  f_createdBy :: "id option"
  f_tags :: "string list option"
  f_scheduledBefore :: "time option"
  f_scheduledAfter :: "time option"
  f_createdBefore :: "time option"
  f_createdAfter :: "time option"
  f_search :: "string option"
  f_page :: "int option"
  f_limit :: "int option"
  f_sortBy :: "sortColumn option"
  f_sortOrder :: "sortOrder option"

definition optionally :: "'a option \<Rightarrow> ('a \<Rightarrow> bool) \<Rightarrow> bool" where
  "optionally x p = (case x of None \<Rightarrow> True | Some v \<Rightarrow> p v)"

definition matches :: "JobFilter \<Rightarrow> Job \<Rightarrow> bool" where
  "matches f j \<longleftrightarrow>
     optionally (f_status f) (\<lambda>ss. j_status j \<in> set ss) \<and>
     optionally (f_priority f) (\<lambda>ps. j_priority j \<in> set ps) \<and>
     optionally (f_type f) (\<lambda>t. j_type j = t) \<and>
     optionally (f_organizationId f) (\<lambda>i. i \<noteq> [] \<longrightarrow> j_organizationId j = i) \<and>
     optionally (f_createdBy f) (\<lambda>i. i \<noteq> [] \<longrightarrow> j_createdBy j = i) \<and>
     optionally (f_tags f) (\<lambda>ts. length ts \<noteq> 0 \<longrightarrow> set ts \<subseteq> set (j_tags j)) \<and>
     optionally (f_scheduledBefore f) (\<lambda>t. optionally (map_option (\<lambda>s. s \<le> t) (j_scheduledAt j)) id \<and> j_scheduledAt j \<noteq> None) \<and>
     optionally (f_scheduledAfter f) (\<lambda>t. optionally (map_option (\<lambda>s. s \<ge> t) (j_scheduledAt j)) id \<and> j_scheduledAt j \<noteq> None) \<and>
     optionally (f_createdBefore f) (\<lambda>t. j_createdAt j \<le> t) \<and>
     optionally (f_createdAfter f) (\<lambda>t. j_createdAt j \<ge> t) \<and>
     optionally (f_search f) (\<lambda>q. q \<noteq> [] \<longrightarrow> ilike (''%'' @ q @ ''%'') (j_name j))"

text \<open>
  Enumerated columns sort in the order of their declaration in
  \<^verbatim>\<open>002_create_jobs.sql\<close>; NULL sorts last ascending and first descending.
\<close>

fun statusOrdinal :: "JobStatus \<Rightarrow> int" where
  "statusOrdinal PENDING = 0"
| "statusOrdinal QUEUED = 1"
| "statusOrdinal RUNNING = 2"
| "statusOrdinal COMPLETED = 3"
| "statusOrdinal FAILED = 4"
| "statusOrdinal RETRYING = 5"
| "statusOrdinal CANCELLED = 6"
| "statusOrdinal TIMED_OUT = 7"
| "statusOrdinal SKIPPED = 8"

fun columnOrder :: "sortColumn \<Rightarrow> Job \<Rightarrow> Job \<Rightarrow> number" where
  "columnOrder createdAt a b = of_int (j_createdAt a - j_createdAt b)"
| "columnOrder scheduledAt a b = ascNullsLast (j_scheduledAt a) (j_scheduledAt b)"
| "columnOrder priority a b = of_int (priorityRank (j_priority a) - priorityRank (j_priority b))"
| "columnOrder status a b = of_int (statusOrdinal (j_status a) - statusOrdinal (j_status b))"

definition orderBy :: "sortColumn \<Rightarrow> sortOrder \<Rightarrow> Job \<Rightarrow> Job \<Rightarrow> number" where
  "orderBy c ord a b = (case ord of ASC \<Rightarrow> columnOrder c a b | DESC \<Rightarrow> columnOrder c b a)"

record PaginatedJobs =
  pg_data :: "Job list"
  pg_total :: nat
  pg_page :: int
  pg_limit :: int
  pg_totalPages :: "int option"

text \<open>
  A page below 1 gives a negative OFFSET and a negative limit a negative LIMIT, both of which
  the database rejects. \<^verbatim>\<open>totalPages\<close> is \<open>None\<close> where the division by a zero limit
  gives no finite number.
\<close>

definition findMany :: "JobFilter \<Rightarrow> jobs \<Rightarrow> db_error + PaginatedJobs" where
  "findMany f db =
     (let page = nullish (f_page f) 1;
          limit = nullish (f_limit f) 20;
          sortBy = nullish (f_sortBy f) createdAt;
          ord = nullish (f_sortOrder f) DESC;
          rows = filter (matches f) db;
          total = length rows;
          offset = (page - 1) * limit
      in if limit < 0 then Inl NegativeLimit
         else if offset < 0 then Inl NegativeOffset
         else Inr \<lparr>pg_data = take (nat limit) (drop (nat offset) (js_sort (orderBy sortBy ord) rows)),
           pg_total = total, pg_page = page, pg_limit = limit,
           pg_totalPages = (if limit = 0 then None else Some \<lceil>of_nat total / of_int limit :: number\<rceil>)\<rparr>)"

section \<open>The table as a store\<close>

definition table_ok :: "jobs \<Rightarrow> bool" where
  "table_ok db \<longleftrightarrow> distinct (map j_id db)"

lemma toRow_id [simp]: "j_id (toRow dto j) = j_id j"
  by (simp add: toRow_def)

lemma applyUpdate_id [simp]: "j_id (applyUpdate dto now j) = j_id j"
  by (simp add: applyUpdate_def)

interpretation job_rows: keyed_table j_id findById updateWhere
  by unfold_locales (simp_all add: findById_def updateWhere_def)

declare job_rows.look_Cons [simp] job_rows.look_Nil [simp] job_rows.keys_upd_where [simp]

lemmas findById_updateWhere = job_rows.look_upd_where
  and findById_Some = job_rows.look_Some
  and findById_None = job_rows.look_None
  and findById_append = job_rows.look_append
  and findById_map_id = job_rows.look_map

lemma findById_mem: "table_ok db \<Longrightarrow> j \<in> set db \<Longrightarrow> findById (j_id j) db = Some j"
  by (simp add: table_ok_def job_rows.look_mem)

lemma findById_filter:
  "table_ok db \<Longrightarrow> findById x (filter P db) = (case findById x db of None \<Rightarrow> None | Some j \<Rightarrow> if P j then Some j else None)"
  by (simp add: table_ok_def job_rows.look_filter)

text \<open>
  What the services rely on: reading back an update gives the updated row, other rows are
  not touched, and a row keeps its identifier.
\<close>

locale job_store =
  fixes find :: "id \<Rightarrow> 'db \<Rightarrow> Job option"
    and upd :: "id \<Rightarrow> UpdateJobDto \<Rightarrow> time \<Rightarrow> 'db \<Rightarrow> Job option \<times> 'db"
  assumes find_upd: "find x (snd (upd i dto now db)) =
      (if x = i then map_option (applyUpdate dto now) (find x db) else find x db)"
    and upd_result: "fst (upd i dto now db) = find i (snd (upd i dto now db))"
    and find_id: "find x db = Some j \<Longrightarrow> j_id j = x"
begin

lemma upd_missing: "find i db = None \<Longrightarrow> fst (upd i dto now db) = None"
  by (simp add: upd_result find_upd)

lemma upd_found: "find i db = Some j \<Longrightarrow> fst (upd i dto now db) = Some (applyUpdate dto now j)"
  by (simp add: upd_result find_upd)

lemma find_upd_same: "find i db = Some j \<Longrightarrow> find i (snd (upd i dto now db)) = Some (applyUpdate dto now j)"
  by (simp add: find_upd)

lemma find_upd_other: "x \<noteq> i \<Longrightarrow> find x (snd (upd i dto now db)) = find x db"
  by (simp add: find_upd)

text \<open>Updating a list of rows one after the other, as the recovery and the bulk operations do.\<close>

lemma find_upd_all:
  assumes "distinct (map fst us)"
  shows "find x (fold (\<lambda>(i, dto). \<lambda>db. snd (upd i dto now db)) us db) =
    (case map_of us x of None \<Rightarrow> find x db | Some dto \<Rightarrow> map_option (applyUpdate dto now) (find x db))"
  using assms
proof (induction us arbitrary: db)
  case (Cons u us)
  obtain i dto where u: "u = (i, dto)" by (cases u)
  with Cons.prems have "map_of us i = None" by (auto simp: map_of_eq_None_iff)
  with Cons u show ?case by (auto simp: find_upd split: option.splits)
qed simp

end

interpretation jobs_table: job_store findById update
proof
  fix x i dto now db j
  show "findById x (snd (update i dto now db)) =
    (if x = i then map_option (applyUpdate dto now) (findById x db) else findById x db)"
    by (simp add: update_def Let_def job_rows.look_upd_key)
  show "fst (update i dto now db) = findById i (snd (update i dto now db))"
    by (simp add: update_def Let_def)
  show "findById x db = Some j \<Longrightarrow> j_id j = x"
    by (simp add: findById_Some)
qed

lemma table_ok_update: "table_ok db \<Longrightarrow> table_ok (snd (update i dto now db))"
  by (simp add: table_ok_def update_def Let_def)

section \<open>Claiming: the order and its effect\<close>

definition claimKey :: "Job \<Rightarrow> int \<times> (bool \<times> int) \<times> int" where
  "claimKey j = (priorityRank (j_priority j),
     (case j_scheduledAt j of Some t \<Rightarrow> (False, t) | None \<Rightarrow> (True, 0)), j_createdAt j)"

lemma claimOrder_key: "claimOrder a b \<le> 0 \<longleftrightarrow> claimKey a \<le> claimKey b"
  "claimOrder a b < 0 \<longleftrightarrow> claimKey a < claimKey b"
  by (auto simp: claimOrder_def claimKey_def less_eq_prod_def less_prod_def split: option.splits)

interpretation claim_order: comparison claimOrder
  by unfold_locales (auto simp: claimOrder_key)

lemma table_ok_updateWhere: "(\<And>j. j_id (f j) = j_id j) \<Longrightarrow> table_ok (updateWhere p f db) = table_ok db"
  by (simp add: table_ok_def)

abbreviation candidates :: "time \<Rightarrow> id set \<Rightarrow> jobs \<Rightarrow> Job list" where
  "candidates now locked db \<equiv> filter (\<lambda>j. claimable now j \<and> j_id j \<notin> locked) db"

abbreviation toQueued :: "time \<Rightarrow> Job \<Rightarrow> Job" where
  "toQueued now j \<equiv> j\<lparr>j_status := QUEUED, j_updatedAt := now\<rparr>"

lemma selectClaim_mem:
  "i \<in> set (selectClaim limit now locked db) \<Longrightarrow>
   \<exists>j \<in> set db. j_id j = i \<and> claimable now j \<and> i \<notin> locked"
  by (auto simp: selectClaim_def dest!: in_set_takeD)

lemma distinct_selectClaim: "table_ok db \<Longrightarrow> distinct (selectClaim limit now locked db)"
proof -
  assume ok: "table_ok db"
  let ?xs = "js_sort claimOrder (candidates now locked db)"
  have "distinct (map j_id (candidates now locked db))"
    using ok by (simp add: table_ok_def distinct_map_filter)
  moreover have "mset (map j_id ?xs) = mset (map j_id (candidates now locked db))"
    by (simp add: mset_map)
  ultimately have "distinct (map j_id ?xs)"
    using mset_eq_imp_distinct_iff by blast
  then show ?thesis unfolding selectClaim_def take_map [symmetric] by (rule distinct_take)
qed

lemma filter_updateWhere:
  "(\<And>j. p (f j) = p j) \<Longrightarrow> filter p (updateWhere p f db) = map f (filter p db)"
  by (induction db) (auto simp: updateWhere_def)

lemma claimed_eq:
  "fst (claimPendingJobs limit now locked db) =
     map (toQueued now) (filter (\<lambda>j. j_id j \<in> set (selectClaim limit now locked db)) db)"
  by (simp add: claimPendingJobs_def Let_def filter_updateWhere)

lemma claimed_table:
  "snd (claimPendingJobs limit now locked db) =
     updateWhere (\<lambda>j. j_id j \<in> set (selectClaim limit now locked db)) (toQueued now) db"
  by (simp add: claimPendingJobs_def Let_def)

lemma ids_claimed:
  "set (map j_id (fst (claimPendingJobs limit now locked db))) = set (selectClaim limit now locked db)"
  using selectClaim_mem [of _ limit now locked db] by (auto simp: claimed_eq)

lemma length_claimed:
  assumes ok: "table_ok db"
  shows "length (fst (claimPendingJobs limit now locked db)) = min limit (length (candidates now locked db))"
proof -
  let ?ids = "selectClaim limit now locked db"
  let ?claimed = "map j_id (fst (claimPendingJobs limit now locked db))"
  have "distinct ?claimed"
    using ok by (simp add: claimed_eq comp_def table_ok_def distinct_map_filter)
  then have "length ?claimed = card (set ?ids)"
    by (simp only: ids_claimed flip: distinct_card)
  also have "\<dots> = length ?ids"
    by (rule distinct_card [OF distinct_selectClaim [OF ok]])
  finally show ?thesis by (simp add: selectClaim_def min.commute)
qed

text \<open>The selected candidates are a prefix of the sorted ones, so none is behind a rejected one.\<close>

lemma selectClaim_prefers:
  assumes ok: "table_ok db" and a: "a \<in> set db" "j_id a \<in> set (selectClaim limit now locked db)"
    and b: "b \<in> set (candidates now locked db)" "j_id b \<notin> set (selectClaim limit now locked db)"
  shows "claimOrder a b \<le> 0"
proof -
  let ?xs = "js_sort claimOrder (candidates now locked db)"
  obtain a' where a': "a' \<in> set (take limit ?xs)" "j_id a' = j_id a"
    using a(2) by (auto simp: selectClaim_def)
  then have "a' \<in> set db" by (auto dest: in_set_takeD)
  with ok a(1) a'(2) have "a' = a"
    by (auto simp: table_ok_def distinct_map dest: inj_onD)
  moreover have "b \<in> set (drop limit ?xs)"
  proof -
    have "b \<in> set (take limit ?xs @ drop limit ?xs)" using b(1) by (simp only: append_take_drop_id) simp
    moreover have "b \<notin> set (take limit ?xs)" using b(2) by (auto simp: selectClaim_def)
    ultimately show ?thesis by (simp only: set_append) blast
  qed
  moreover have "sorted_wrt (\<lambda>a b. claimOrder a b \<le> 0) (take limit ?xs @ drop limit ?xs)"
    using claim_order.sorted_js_sort by simp
  ultimately show ?thesis using a'(1) unfolding sorted_wrt_append by blast
qed

lemma claim_facts:
  assumes ok: "table_ok db"
    and run: "claimPendingJobs limit now locked db = (claimed, db')"
  shows "length claimed = min limit (length (filter (\<lambda>j. claimable now j \<and> j_id j \<notin> locked) db))"
    and "c \<in> set claimed \<Longrightarrow> \<exists>j. findById (j_id c) db = Some j \<and> claimable now j \<and>
           j_id j \<notin> locked \<and> c = j\<lparr>j_status := QUEUED, j_updatedAt := now\<rparr> \<and> findById (j_id c) db' = Some c"
    and "i \<notin> j_id ` set claimed \<Longrightarrow> findById i db' = findById i db"
    and "a \<in> set db \<Longrightarrow> j_id a \<in> j_id ` set claimed \<Longrightarrow> b \<in> set db \<Longrightarrow> claimable now b \<Longrightarrow>
           j_id b \<notin> locked \<Longrightarrow> j_id b \<notin> j_id ` set claimed \<Longrightarrow> claimOrder a b \<le> 0"
    and "table_ok db'"
proof -
  let ?ids = "selectClaim limit now locked db"
  have claimed: "claimed = map (toQueued now) (filter (\<lambda>j. j_id j \<in> set ?ids) db)"
    and db': "db' = updateWhere (\<lambda>j. j_id j \<in> set ?ids) (toQueued now) db"
    and ids: "j_id ` set claimed = set ?ids"
    using run claimed_eq [of limit now locked db] claimed_table [of limit now locked db]
      ids_claimed [of limit now locked db] by (simp_all only: fst_conv snd_conv set_map)
  show "length claimed = min limit (length (candidates now locked db))"
    using length_claimed [OF ok, of limit now locked] run by simp
  show "i \<notin> j_id ` set claimed \<Longrightarrow> findById i db' = findById i db"
    unfolding ids by (cases "findById i db") (auto simp: db' findById_updateWhere dest: findById_Some)
  show "a \<in> set db \<Longrightarrow> j_id a \<in> j_id ` set claimed \<Longrightarrow> b \<in> set db \<Longrightarrow> claimable now b \<Longrightarrow>
      j_id b \<notin> locked \<Longrightarrow> j_id b \<notin> j_id ` set claimed \<Longrightarrow> claimOrder a b \<le> 0"
    unfolding ids using selectClaim_prefers [OF ok] by simp
  show "table_ok db'"
    using ok by (simp add: db' table_ok_updateWhere)
  show "\<exists>j. findById (j_id c) db = Some j \<and> claimable now j \<and> j_id j \<notin> locked \<and>
      c = toQueued now j \<and> findById (j_id c) db' = Some c" if "c \<in> set claimed"
  proof -
    from that obtain j where j: "j \<in> set db" "j_id j \<in> set ?ids" "c = toQueued now j"
      by (auto simp: claimed)
    moreover obtain k where "k \<in> set db" "j_id k = j_id j" "claimable now k" "j_id j \<notin> locked"
      using selectClaim_mem [OF j(2)] by blast
    moreover then have "k = j"
      using ok j(1) by (auto simp: table_ok_def distinct_map dest: inj_onD)
    ultimately show ?thesis
      using findById_mem [OF ok j(1)] by (simp add: db' findById_updateWhere)
  qed
qed

text \<open>
  C1. \<^verbatim>\<open>claimPendingJobs\<close> moves as many runnable jobs as the limit allows from PENDING to
  QUEUED: a claimed job was PENDING, due, had all its dependencies resolved and was not
  locked by another transaction; the claimed rows are returned as they are stored
  afterwards; no other row changes; and no runnable job left behind precedes a claimed
  one in the order priority, scheduled time (jobs without one last), creation time.
\<close>

theorem claimPendingJobs_correct:
  assumes "table_ok db"
    and "claimPendingJobs limit now locked db = (claimed, db')"
  shows "length claimed = min limit (length (filter (\<lambda>j. claimable now j \<and> j_id j \<notin> locked) db)) \<and>
    (\<forall>c \<in> set claimed. \<exists>j. findById (j_id c) db = Some j \<and> claimable now j \<and> j_id j \<notin> locked \<and>
       c = j\<lparr>j_status := QUEUED, j_updatedAt := now\<rparr> \<and> findById (j_id c) db' = Some c) \<and>
    (\<forall>i. i \<notin> j_id ` set claimed \<longrightarrow> findById i db' = findById i db) \<and>
    (\<forall>a \<in> set db. \<forall>b \<in> set db. j_id a \<in> j_id ` set claimed \<and> claimable now b \<and> j_id b \<notin> locked \<and>
       j_id b \<notin> j_id ` set claimed \<longrightarrow> claimOrder a b \<le> 0) \<and>
    table_ok db'"
  using claim_facts [OF assms] by (intro conjI ballI allI impI) simp_all

theorem claimPendingJobs_correct_witness:
  "\<exists>claimed db'. claimPendingJobs 1 10 {} [sample_job ''a'' [], sample_job ''b'' []] = (claimed, db') \<and>
     length claimed = 1 \<and> table_ok db'"
proof -
  let ?db = "[sample_job ''a'' [], sample_job ''b'' []]"
  obtain claimed db' where run: "claimPendingJobs 1 10 {} ?db = (claimed, db')"
    by (cases "claimPendingJobs 1 10 {} ?db")
  moreover have "table_ok ?db" by (simp add: table_ok_def sample_job_def)
  ultimately show ?thesis
    using claimPendingJobs_correct [of ?db 1 10 "{}" claimed db']
    by (simp add: claimable_def sample_job_def)
qed

text \<open>Several claims, each by a scheduler of its own, one transaction after the other.\<close>

fun claimRun :: "(nat \<times> time \<times> id set) list \<Rightarrow> jobs \<Rightarrow> Job list list" where
  "claimRun [] db = []"
| "claimRun ((limit, now, locked) # cs) db =
     (let (claimed, db') = claimPendingJobs limit now locked db in claimed # claimRun cs db')"

lemma claimRun_pending:
  "table_ok db \<Longrightarrow> j \<in> set (concat (claimRun cs db)) \<Longrightarrow>
   \<exists>j0. findById (j_id j) db = Some j0 \<and> j_status j0 = PENDING"
proof (induction cs db rule: claimRun.induct)
  case (2 limit now locked cs db)
  obtain claimed db' where run: "claimPendingJobs limit now locked db = (claimed, db')" by fastforce
  note facts = claim_facts [OF "2.prems"(1) run]
  consider "j \<in> set claimed" | "j \<in> set (concat (claimRun cs db'))" using "2.prems"(2) run by auto
  then show ?case
  proof cases
    case 1
    with facts(2) show ?thesis by (fastforce simp: claimable_def)
  next
    case 2
    with "2.IH" [OF run [symmetric] refl facts(5)]
    obtain j0 where j0: "findById (j_id j) db' = Some j0" "j_status j0 = PENDING" by blast
    have "j_id j \<notin> j_id ` set claimed"
    proof
      assume "j_id j \<in> j_id ` set claimed"
      then obtain c where "c \<in> set claimed" "j_id j = j_id c" by auto
      with facts(2) [of c] j0 show False by auto
    qed
    with facts(3) j0 show ?thesis by metis
  qed
qed simp

text \<open>
  C2. However many claims are made one after the other, with whatever limits, clocks and
  locked rows, no job is handed out twice.
\<close>

theorem claims_never_overlap:
  assumes "table_ok db"
  shows "distinct (map j_id (concat (claimRun cs db)))"
  using assms
proof (induction cs db rule: claimRun.induct)
  case (2 limit now locked cs db)
  obtain claimed db' where run: "claimPendingJobs limit now locked db = (claimed, db')" by fastforce
  note facts = claim_facts [OF "2.prems"(1) run]
  have "distinct (map j_id claimed)"
    using "2.prems" claimed_eq [of limit now locked db] run
    by (simp add: comp_def table_ok_def distinct_map_filter)
  have "j_id j \<notin> j_id ` set claimed" if "j \<in> set (concat (claimRun cs db'))" for j
    using claimRun_pending [OF facts(5) that] facts(2) by fastforce
  then have "set (map j_id claimed) \<inter> set (map j_id (concat (claimRun cs db'))) = {}"
    by (subst disjoint_iff) (metis (no_types, lifting) image_iff set_map)
  moreover note \<open>distinct (map j_id claimed)\<close>
  ultimately show ?case
    using "2.IH" [OF run [symmetric] refl facts(5)] run
    by (simp only: claimRun.simps Let_def prod.case concat.simps map_append distinct_append simp_thms)
qed simp

theorem claims_never_overlap_witness:
  "distinct (map j_id (concat (claimRun [(1, 10, {}), (5, 11, {})] [sample_job ''a'' [], sample_job ''b'' []])))"
  by (rule claims_never_overlap) (simp add: table_ok_def sample_job_def)

section \<open>Rows over their life\<close>

lemma newRow_simps [simp]:
  "j_id (newRow i now dto) = i" "j_status (newRow i now dto) = PENDING"
  "j_retryCount (newRow i now dto) = 0" "j_resolvedDependencyCount (newRow i now dto) = 0"
  "j_priority (newRow i now dto) = nullish (c_priority dto) MEDIUM"
  "j_timeoutMs (newRow i now dto) = nullish (c_timeoutMs dto) 300000"
  "rc_maxRetries (j_retryConfig (newRow i now dto)) = j_maxRetries (newRow i now dto)"
  by (simp_all add: newRow_def retryConfigOf_def)

lemma claimable_newRow:
  "claimable t (newRow i now dto) \<longleftrightarrow>
     (c_dependencies dto = None \<or> c_dependencies dto = Some []) \<and>
     (\<forall>s. c_scheduledAt dto = Some s \<longrightarrow> s \<le> t)"
  by (cases "c_dependencies dto"; cases "c_scheduledAt dto") (auto simp: claimable_def newRow_def)

lemma create_fresh:
  "findById i db = None \<Longrightarrow> create i now dto db = Inr (newRow i now dto, db @ [newRow i now dto])"
  by (simp add: create_def Let_def)

lemma table_ok_snoc: "table_ok db \<Longrightarrow> findById (j_id j) db = None \<Longrightarrow> table_ok (db @ [j])"
  by (auto simp: table_ok_def findById_None)

text \<open>
  A created job can be read back: it is PENDING with the documented defaults, no other
  row changes, and it can be claimed at once exactly when it has no dependencies and is not
  scheduled for later. An identifier that is taken is an error and changes nothing.
\<close>

theorem create_correct:
  assumes "table_ok db"
  shows "(findById newId db \<noteq> None \<longrightarrow> create newId now dto db = Inl (UniqueViolation newId)) \<and>
    (findById newId db = None \<longrightarrow>
      (\<exists>j db'. create newId now dto db = Inr (j, db') \<and> table_ok db' \<and>
        findById newId db' = Some j \<and> (\<forall>i. i \<noteq> newId \<longrightarrow> findById i db' = findById i db) \<and>
        j_status j = PENDING \<and> j_retryCount j = 0 \<and> j_resolvedDependencyCount j = 0 \<and>
        j_priority j = (case c_priority dto of None \<Rightarrow> MEDIUM | Some p \<Rightarrow> p) \<and>
        j_timeoutMs j = (case c_timeoutMs dto of None \<Rightarrow> 300000 | Some t \<Rightarrow> t) \<and>
        rc_maxRetries (j_retryConfig j) = j_maxRetries j \<and>
        (claimable t j \<longleftrightarrow> (c_dependencies dto = None \<or> c_dependencies dto = Some []) \<and>
           (\<forall>s. c_scheduledAt dto = Some s \<longrightarrow> s \<le> t))))"
proof (cases "findById newId db")
  case None
  have "findById i (db @ [newRow newId now dto]) = (if i = newId then Some (newRow newId now dto) else findById i db)" for i
    using None by (auto simp: findById_append split: option.split)
  with None table_ok_snoc [OF assms, of "newRow newId now dto"] show ?thesis
    by (simp add: create_fresh claimable_newRow nullish_def)
qed (simp add: create_def)

definition sample_dto :: "JobDependency list option \<Rightarrow> CreateJobDto" where
  "sample_dto deps = \<lparr>c_name = ''n'', c_description = None, c_type = WEBHOOK, c_payload = [],
     c_priority = None, c_scheduledAt = None, c_cronExpression = None, c_timezone = None,
     c_timeoutMs = None, c_retryConfig = None, c_dependencies = deps, c_tags = None,
     c_metadata = None, c_organizationId = ''o'', c_createdBy = ''u''\<rparr>"

theorem create_correct_witness:
  "\<exists>j db'. create ''b'' 7 (sample_dto None) [sample_job ''a'' []] = Inr (j, db') \<and> claimable 7 j \<and>
     findById ''b'' db' = Some j"
proof -
  have "table_ok [sample_job ''a'' []]" "findById ''b'' [sample_job ''a'' []] = None"
    by (simp_all add: table_ok_def sample_job_def)
  with create_correct [of "[sample_job ''a'' []]" "''b''" 7 "sample_dto None" 7]
  show ?thesis by (auto simp: sample_dto_def)
qed

text \<open>
  An update can set a field but never clear one: whatever the update record says, a
  column that has a value still has one afterwards, and only the addressed row changes.
\<close>

theorem update_never_clears:
  assumes "findById i db = Some j"
  shows "\<exists>j'. fst (update i dto now db) = Some j' \<and> findById i (snd (update i dto now db)) = Some j' \<and>
    (\<forall>f \<in> {\<lambda>j. map_option (\<lambda>_. ()) (j_workerId j), \<lambda>j. map_option (\<lambda>_. ()) (j_startedAt j),
       \<lambda>j. map_option (\<lambda>_. ()) (j_completedAt j), \<lambda>j. map_option (\<lambda>_. ()) (j_errorMessage j),
       \<lambda>j. map_option (\<lambda>_. ()) (j_errorStack j), \<lambda>j. map_option (\<lambda>_. ()) (j_nextRunAt j)}.
       f j = Some () \<longrightarrow> f j' = Some ()) \<and>
    (\<forall>x. x \<noteq> i \<longrightarrow> findById x (snd (update i dto now db)) = findById x db)"
  using jobs_table.upd_found [OF assms, of dto now] jobs_table.find_upd_same [OF assms, of dto now]
    jobs_table.find_upd_other [of _ i dto now db]
  by (auto simp: applyUpdate_def toRow_def orKeep_def split: option.splits)

theorem update_never_clears_witness:
  "\<exists>j'. fst (update ''a'' (empty_update\<lparr>u_status := Some PENDING, u_workerId := None\<rparr>) 9
      [(sample_job ''a'' [])\<lparr>j_workerId := Some ''w''\<rparr>]) = Some j' \<and> j_workerId j' \<noteq> None"
  using update_never_clears [of "''a''" "[(sample_job ''a'' [])\<lparr>j_workerId := Some ''w''\<rparr>]"
      "(sample_job ''a'' [])\<lparr>j_workerId := Some ''w''\<rparr>"
      "empty_update\<lparr>u_status := Some PENDING, u_workerId := None\<rparr>" 9]
  by (auto simp: sample_job_def)

subsection \<open>Dependency counters\<close>

definition resolveAll :: "id list \<Rightarrow> time \<Rightarrow> jobs \<Rightarrow> jobs" where
  "resolveAll cs now db = fold (\<lambda>c. resolveDependency c now) cs db"

lemma findById_resolveDependency:
  "findById x (resolveDependency c now db) =
    map_option (\<lambda>j. if dependsOn c j \<and> j_status j = PENDING
      then j\<lparr>j_resolvedDependencyCount := j_resolvedDependencyCount j + 1, j_updatedAt := now\<rparr> else j)
      (findById x db)"
  by (simp add: resolveDependency_def findById_updateWhere)

lemma resolveAll_Cons [simp]: "resolveAll (c # cs) now db = resolveAll cs now (resolveDependency c now db)"
  by (simp add: resolveAll_def)

lemma resolveAll_pending:
  assumes "findById x db = Some j" "j_status j = PENDING"
  shows "\<exists>u. findById x (resolveAll cs now db) =
    Some (j\<lparr>j_resolvedDependencyCount := j_resolvedDependencyCount j +
        int (length (filter (\<lambda>c. dependsOn c j) cs)), j_updatedAt := u\<rparr>)"
  using assms
proof (induction cs arbitrary: db j)
  case Nil
  then show ?case by (intro exI [of _ "j_updatedAt j"]) (simp add: resolveAll_def)
next
  case (Cons c cs)
  let ?j = "if dependsOn c j
    then j\<lparr>j_resolvedDependencyCount := j_resolvedDependencyCount j + 1, j_updatedAt := now\<rparr> else j"
  have dep: "dependsOn d ?j = dependsOn d j" for d by (simp add: dependsOn_def)
  have "findById x (resolveDependency c now db) = Some ?j" "j_status ?j = PENDING"
    using Cons.prems by (simp_all add: findById_resolveDependency)
  from Cons.IH [OF this] obtain u where
    "findById x (resolveAll cs now (resolveDependency c now db)) =
      Some (?j\<lparr>j_resolvedDependencyCount := j_resolvedDependencyCount ?j +
        int (length (filter (\<lambda>c. dependsOn c j) cs)), j_updatedAt := u\<rparr>)"
    unfolding dep by blast
  then show ?case by (intro exI [of _ u]) (auto simp: ac_simps)
qed

text \<open>
  Completions reported one by one, in any order: a PENDING job that waits for pairwise
  different jobs becomes claimable exactly when the number of reports about its
  dependencies equals their number, so also only then when each dependency is reported once;
  a report made twice overshoots the count and the job is never claimable again.
\<close>

theorem resolveDependency_counts:
  assumes row: "findById x db = Some j" and pending: "j_status j = PENDING"
    and fresh: "j_resolvedDependencyCount j = 0" "j_dependencyCount j = int (length (j_dependencies j))"
    and due: "j_scheduledAt j = None"
  shows "\<exists>j'. findById x (resolveAll cs now db) = Some j' \<and>
    (claimable now j' \<longleftrightarrow> length (filter (\<lambda>c. dependsOn c j) cs) = length (j_dependencies j)) \<and>
    (distinct (map dep_jobId (j_dependencies j)) \<and> distinct cs \<longrightarrow>
       (claimable now j' \<longleftrightarrow> set (map dep_jobId (j_dependencies j)) \<subseteq> set cs)) \<and>
    (length (filter (\<lambda>c. dependsOn c j) cs) > length (j_dependencies j) \<longrightarrow>
       (\<forall>ds t. \<exists>j''. findById x (resolveAll ds now (resolveAll cs now db)) = Some j'' \<and> \<not> claimable t j''))"
proof -
  let ?n = "length (filter (\<lambda>c. dependsOn c j) cs)"
  obtain u where j': "findById x (resolveAll cs now db) =
      Some (j\<lparr>j_resolvedDependencyCount := int ?n, j_updatedAt := u\<rparr>)" (is "_ = Some ?j'")
    using resolveAll_pending [OF row pending, of cs now] fresh by auto
  have "claimable now ?j' \<longleftrightarrow> ?n = length (j_dependencies j)"
    using pending fresh due by (auto simp: claimable_def)
  moreover have "?n = length (j_dependencies j) \<longleftrightarrow> set (map dep_jobId (j_dependencies j)) \<subseteq> set cs"
    if "distinct (map dep_jobId (j_dependencies j))" "distinct cs"
  proof -
    let ?D = "set (map dep_jobId (j_dependencies j))"
    have "?n = card (?D \<inter> set cs)"
      using distinct_card [OF distinct_filter [OF that(2), of "\<lambda>c. dependsOn c j"]]
      by (simp add: dependsOn_def Int_def conj_commute)
    moreover have "length (j_dependencies j) = card ?D"
      using distinct_card [OF that(1)] by simp
    ultimately show ?thesis
      by (metis Int_absorb2 List.finite_set card_subset_eq inf_le1 inf.absorb_iff1)
  qed
  moreover have "\<exists>j''. findById x (resolveAll ds now (resolveAll cs now db)) = Some j'' \<and> \<not> claimable t j''"
    if "?n > length (j_dependencies j)" for ds t
    using resolveAll_pending [OF j', of ds now] pending fresh that by (auto simp: claimable_def)
  ultimately show ?thesis using j' by blast
qed

theorem resolveDependency_counts_witness:
  "\<exists>j'. findById ''c'' (resolveAll [''b'', ''a''] 5 [sample_job ''c'' [completed_dep ''a'', completed_dep ''b'']])
     = Some j' \<and> claimable 5 j'"
  using resolveDependency_counts [of "''c''" "[sample_job ''c'' [completed_dep ''a'', completed_dep ''b'']]"
      "sample_job ''c'' [completed_dep ''a'', completed_dep ''b'']" "[''b'', ''a'']" 5]
  by (auto simp: sample_job_def completed_dep_def dependsOn_def)

section \<open>Pages\<close>

fun columnKey :: "sortColumn \<Rightarrow> Job \<Rightarrow> bool \<times> int" where
  "columnKey createdAt j = (False, j_createdAt j)"
| "columnKey scheduledAt j = (case j_scheduledAt j of Some t \<Rightarrow> (False, t) | None \<Rightarrow> (True, 0))"
| "columnKey priority j = (False, priorityRank (j_priority j))"
| "columnKey status j = (False, statusOrdinal (j_status j))"

lemma ascNullsLast_key:
  "ascNullsLast x y \<le> 0 \<longleftrightarrow>
    (case x of Some t \<Rightarrow> (False, t) | None \<Rightarrow> (True, 0)) \<le> (case y of Some t \<Rightarrow> (False, t) | None \<Rightarrow> (True, 0 :: int))"
  "ascNullsLast x y < 0 \<longleftrightarrow>
    (case x of Some t \<Rightarrow> (False, t) | None \<Rightarrow> (True, 0)) < (case y of Some t \<Rightarrow> (False, t) | None \<Rightarrow> (True, 0 :: int))"
  by (cases x; cases y; simp add: less_eq_prod_def less_prod_def)+

lemma columnOrder_key:
  "columnOrder c a b \<le> 0 \<longleftrightarrow> columnKey c a \<le> columnKey c b"
  "columnOrder c a b < 0 \<longleftrightarrow> columnKey c a < columnKey c b"
  by (cases c; simp add: ascNullsLast_key less_eq_prod_def less_prod_def)+

lemma orderBy_key:
  "orderBy c ord a b \<le> 0 \<longleftrightarrow> (if ord = ASC then columnKey c a \<le> columnKey c b else columnKey c b \<le> columnKey c a)"
  "orderBy c ord a b < 0 \<longleftrightarrow> (if ord = ASC then columnKey c a < columnKey c b else columnKey c b < columnKey c a)"
  by (cases ord; simp add: orderBy_def columnOrder_key)+

interpretation order_by: comparison "orderBy c ord" for c ord
  by unfold_locales (auto simp: orderBy_key split: if_splits)

lemma concat_pages:
  "concat (map (\<lambda>p. take n (drop (p * n) xs)) [0..<k]) = take (k * n) xs"
proof (induction k)
  case (Suc k)
  then show ?case using take_add [of "k * n" n xs] by (simp add: add.commute)
qed simp

lemma le_ceiling_div:
  fixes l :: int
  assumes "0 < l"
  shows "int n \<le> \<lceil>of_nat n / of_int l :: number\<rceil> * l"
proof -
  have "(of_nat n :: number) = of_nat n / of_int l * of_int l" using assms by simp
  also have "\<dots> \<le> of_int \<lceil>of_nat n / of_int l :: number\<rceil> * of_int l"
    using assms by (intro mult_right_mono) simp_all
  finally have "of_int (int n) \<le> (of_int (\<lceil>of_nat n / of_int l :: number\<rceil> * l) :: number)" by simp
  then show ?thesis by (simp only: of_int_le_iff)
qed

definition pageOf :: "JobFilter \<Rightarrow> jobs \<Rightarrow> int \<Rightarrow> Job list" where
  "pageOf f db p = (case findMany (f\<lparr>f_page := Some p\<rparr>) db of Inl e \<Rightarrow> [] | Inr r \<Rightarrow> pg_data r)"

lemma matches_page [simp]: "matches (f\<lparr>f_page := p\<rparr>) = matches f"
  by (simp add: matches_def fun_eq_iff)

lemma pageOf_eq:
  assumes "0 < nullish (f_limit f) 20"
  shows "pageOf f db (int p + 1) =
    take (nat (nullish (f_limit f) 20)) (drop (p * nat (nullish (f_limit f) 20))
      (js_sort (orderBy (nullish (f_sortBy f) createdAt) (nullish (f_sortOrder f) DESC)) (filter (matches f) db)))"
proof -
  have "\<not> int p * nullish (f_limit f) 20 < 0" using assms by (simp add: mult_less_0_iff)
  with assms show ?thesis by (simp add: pageOf_def findMany_def Let_def nat_mult_distrib)
qed

text \<open>
  The pages of a listing, one after the other up to \<^verbatim>\<open>totalPages\<close>, are the matching
  rows in the requested order: none is missing and none occurs twice, \<^verbatim>\<open>total\<close> counts
  them, and no page is longer than the limit. Rows that tie in the sort column keep the
  order in which the table delivers them.
\<close>

theorem findMany_pages:
  assumes "0 < limit"
  shows "\<exists>r n. findMany (f\<lparr>f_page := Some 1, f_limit := Some limit\<rparr>) db = Inr r \<and>
    pg_total r = length (filter (matches f) db) \<and> pg_totalPages r = Some n \<and>
    concat (map (pageOf (f\<lparr>f_limit := Some limit\<rparr>) db) [1..n]) =
      js_sort (orderBy (nullish (f_sortBy f) createdAt) (nullish (f_sortOrder f) DESC)) (filter (matches f) db) \<and>
    sorted_wrt (\<lambda>a b. orderBy (nullish (f_sortBy f) createdAt) (nullish (f_sortOrder f) DESC) a b \<le> 0)
      (concat (map (pageOf (f\<lparr>f_limit := Some limit\<rparr>) db) [1..n])) \<and>
    (\<forall>p. int (length (pageOf (f\<lparr>f_limit := Some limit\<rparr>) db p)) \<le> limit)"
proof -
  let ?rows = "filter (matches f) db"
  let ?s = "js_sort (orderBy (nullish (f_sortBy f) createdAt) (nullish (f_sortOrder f) DESC)) ?rows"
  let ?f = "f\<lparr>f_limit := Some limit\<rparr>"
  define n where "n = \<lceil>of_nat (length ?rows) / of_int limit :: number\<rceil>"
  have m: "matches ?f = matches f" by (simp add: matches_def fun_eq_iff)
  have "0 \<le> of_nat (length ?rows) / (of_int limit :: number)" using assms by simp
  then have "0 \<le> n" unfolding n_def by linarith
  have le: "length ?rows \<le> nat n * nat limit"
    using le_ceiling_div [OF assms, of "length ?rows"] \<open>0 \<le> n\<close> assms
    by (simp add: n_def nat_mult_distrib [symmetric] nat_le_iff le_nat_iff)
  have "[1..n] = map (\<lambda>p. int p + 1) [0..<nat n]"
    using \<open>0 \<le> n\<close> by (intro nth_equalityI) simp_all
  then have "concat (map (pageOf ?f db) [1..n]) =
      concat (map (\<lambda>p. take (nat limit) (drop (p * nat limit) ?s)) [0..<nat n])"
    using assms by (simp add: comp_def pageOf_eq m)
  also have "\<dots> = ?s"
    using le by (simp add: concat_pages)
  finally have pages: "concat (map (pageOf ?f db) [1..n]) = ?s" .
  have "int (length (pageOf ?f db p)) \<le> limit" for p
    using assms by (auto simp: pageOf_def findMany_def Let_def min_def)
  moreover have "matches (f\<lparr>f_page := Some 1, f_limit := Some limit\<rparr>) = matches f"
    by (simp add: matches_def fun_eq_iff)
  ultimately show ?thesis
    using assms pages order_by.sorted_js_sort by (simp add: findMany_def Let_def n_def)
qed

definition no_filter :: JobFilter where
  "no_filter = \<lparr>f_status = None, f_priority = None, f_type = None, f_organizationId = None,
     f_createdBy = None, f_tags = None, f_scheduledBefore = None, f_scheduledAfter = None,
     f_createdBefore = None, f_createdAfter = None, f_search = None, f_page = None, f_limit = None,
     f_sortBy = None, f_sortOrder = None\<rparr>"

theorem findMany_pages_witness:
  "\<exists>r n. findMany (no_filter\<lparr>f_page := Some 1, f_limit := Some 2\<rparr>)
      [sample_job ''a'' [], sample_job ''b'' [], sample_job ''c'' []] = Inr r \<and>
    pg_totalPages r = Some n \<and>
    set (concat (map (pageOf (no_filter\<lparr>f_limit := Some 2\<rparr>)
      [sample_job ''a'' [], sample_job ''b'' [], sample_job ''c'' []]) [1..n])) =
      {sample_job ''a'' [], sample_job ''b'' [], sample_job ''c'' []}"
proof -
  let ?db = "[sample_job ''a'' [], sample_job ''b'' [], sample_job ''c'' []]"
  have "filter (matches no_filter) ?db = ?db"
    by (simp add: matches_def no_filter_def optionally_def)
  with findMany_pages [of 2 no_filter ?db] show ?thesis
    by (metis (no_types, lifting) set_js_sort list.set(1) list.set(2) zero_less_numeral)
qed


end
