(* ===== verification/ExecutionRepository.thy ===== *)
theory ExecutionRepository
  imports Models
begin

text \<open>
  \<^verbatim>\<open>src/db/repositories/ExecutionRepository.ts\<close>: the \<^verbatim>\<open>execution_logs\<close> table, one row per
  attempt. \<^verbatim>\<open>getWorkerStats\<close> is the error PostgreSQL answers its statement with: a
  column that is neither grouped nor aggregated next to an aggregate.
\<close>

section \<open>Statements\<close>

type_synonym execution_logs = "ExecutionLog list"

definition createLog :: "id \<Rightarrow> time \<Rightarrow> CreateExecutionLogDto \<Rightarrow> execution_logs \<Rightarrow> ExecutionLog \<times> execution_logs" where
  "createLog newId now dto ls =
     (let row = \<lparr>e_id = newId, e_jobId = ce_jobId dto, e_workerId = ce_workerId dto,
            e_attemptNumber = ce_attemptNumber dto, e_status = ce_status dto,
            e_startedAt = ce_startedAt dto, e_completedAt = None, e_durationMs = None,
            e_stdout = None, e_stderr = None, e_exitCode = None, e_result = None,
            e_errorMessage = None, e_errorStack = None, e_errorCode = None,
            e_peakMemoryMb = None, e_cpuPercent = None, e_createdAt = now\<rparr>
      in (row, ls @ [row]))"

text \<open>
  Fields that are \<^verbatim>\<open>undefined\<close> are not part of the statement and keep their value;
  \<^verbatim>\<open>result\<close> is written as NULL when there is none.
\<close>

definition keepUnlessSome :: "'a option \<Rightarrow> 'a option \<Rightarrow> 'a option" where
  "keepUnlessSome new old = (if new = None then old else new)"

definition completeRow :: "CompleteExecutionLogDto \<Rightarrow> ExecutionLog \<Rightarrow> ExecutionLog" where
  "completeRow dto e =
     e\<lparr>e_status := ct_status dto, e_completedAt := Some (ct_completedAt dto),
       e_durationMs := Some (ct_durationMs dto),
       e_stdout := keepUnlessSome (ct_stdout dto) (e_stdout e),
       e_stderr := keepUnlessSome (ct_stderr dto) (e_stderr e),
       e_exitCode := keepUnlessSome (ct_exitCode dto) (e_exitCode e),
       e_result := ct_result dto,
       e_errorMessage := keepUnlessSome (ct_errorMessage dto) (e_errorMessage e),
       e_errorStack := keepUnlessSome (ct_errorStack dto) (e_errorStack e),
       e_errorCode := keepUnlessSome (ct_errorCode dto) (e_errorCode e),
       e_peakMemoryMb := keepUnlessSome (ct_peakMemoryMb dto) (e_peakMemoryMb e),
       e_cpuPercent := keepUnlessSome (ct_cpuPercent dto) (e_cpuPercent e)\<rparr>"

definition findLog :: "id \<Rightarrow> execution_logs \<Rightarrow> ExecutionLog option" where
  "findLog i ls = List.find (\<lambda>e. e_id e = i) ls"

definition completeLog :: "CompleteExecutionLogDto \<Rightarrow> execution_logs \<Rightarrow> ExecutionLog option \<times> execution_logs" where
  "completeLog dto ls =
     (let ls' = map (\<lambda>e. if e_id e = ct_id dto then completeRow dto e else e) ls
      in (findLog (ct_id dto) ls', ls'))"

definition attemptOrder :: "ExecutionLog \<Rightarrow> ExecutionLog \<Rightarrow> number" where
  "attemptOrder a b = of_int (e_attemptNumber a - e_attemptNumber b)"

definition findByJobId :: "id \<Rightarrow> execution_logs \<Rightarrow> ExecutionLog list" where
  "findByJobId jobId ls = js_sort attemptOrder (filter (\<lambda>e. e_jobId e = jobId) ls)"

definition getLatestAttempt :: "id \<Rightarrow> execution_logs \<Rightarrow> ExecutionLog option" where
  "getLatestAttempt jobId ls =
     (case js_sort (\<lambda>a b. attemptOrder b a) (filter (\<lambda>e. e_jobId e = jobId) ls) of
        [] \<Rightarrow> None | e # _ \<Rightarrow> Some e)"

definition countAttempts :: "id \<Rightarrow> execution_logs \<Rightarrow> nat" where
  "countAttempts jobId ls = length (filter (\<lambda>e. e_jobId e = jobId) ls)"

datatype exec_error = GroupingError

record ExecStats =
  es_total :: nat
  es_succeeded :: nat
  es_failed :: nat
  es_avgDurationMs :: number

definition getWorkerStats :: "id \<Rightarrow> int \<Rightarrow> time \<Rightarrow> execution_logs \<Rightarrow> exec_error + ExecStats" where
  "getWorkerStats workerId sinceMs now ls = Inl GroupingError"

section \<open>Lemmas and properties\<close>

definition logs_ok :: "execution_logs \<Rightarrow> bool" where
  "logs_ok ls \<longleftrightarrow> distinct (map e_id ls)"

interpretation log_rows: keyed_table e_id findLog "\<lambda>p f. map (\<lambda>e. if p e then f e else e)"
  by unfold_locales (simp_all add: findLog_def)

declare log_rows.look_Cons [simp] log_rows.look_Nil [simp]

lemma completeRow_id [simp]: "e_id (completeRow dto e) = e_id e" "e_jobId (completeRow dto e) = e_jobId e"
    "e_attemptNumber (completeRow dto e) = e_attemptNumber e"
  by (simp_all add: completeRow_def)

lemma findLog_complete:
  "findLog i (snd (completeLog dto ls)) =
     (if i = ct_id dto then map_option (completeRow dto) (findLog i ls) else findLog i ls)"
  by (simp add: completeLog_def Let_def log_rows.look_upd_key)

lemma findLog_create: "findLog newId ls = None \<Longrightarrow>
   findLog i (snd (createLog newId now dto ls)) =
     (if i = newId then Some (fst (createLog newId now dto ls)) else findLog i ls)"
  by (auto simp: createLog_def Let_def log_rows.look_append split: option.splits)

interpretation attempt_order: comparison attemptOrder
  by unfold_locales (auto simp: attemptOrder_def)

interpretation attempt_order_desc: comparison "\<lambda>a b. attemptOrder b a"
  by unfold_locales (auto simp: attemptOrder_def)

text \<open>
  The history of a job is all of its attempts in the order of their number, as many as
  \<^verbatim>\<open>countAttempts\<close> counts; the latest attempt is one of them with the largest number, and
  exists whenever there was an attempt.
\<close>

theorem execution_history:
  "mset (findByJobId jobId ls) = mset (filter (\<lambda>e. e_jobId e = jobId) ls) \<and>
   sorted (map e_attemptNumber (findByJobId jobId ls)) \<and>
   length (findByJobId jobId ls) = countAttempts jobId ls \<and>
   (getLatestAttempt jobId ls = None \<longleftrightarrow> findByJobId jobId ls = []) \<and>
   (\<forall>e. getLatestAttempt jobId ls = Some e \<longrightarrow> e \<in> set (findByJobId jobId ls) \<and>
     (\<forall>e' \<in> set (findByJobId jobId ls). e_attemptNumber e' \<le> e_attemptNumber e))"
proof -
  let ?rows = "filter (\<lambda>e. e_jobId e = jobId) ls"
  let ?desc = "js_sort (\<lambda>a b. attemptOrder b a) ?rows"
  have asc: "sorted (map e_attemptNumber (findByJobId jobId ls))"
    using attempt_order.sorted_js_sort [of ?rows]
    by (simp add: findByJobId_def sorted_map attemptOrder_def)
  have desc: "sorted_wrt (\<lambda>a b. e_attemptNumber b \<le> e_attemptNumber a) ?desc"
    using attempt_order_desc.sorted_js_sort [of ?rows] by (simp add: attemptOrder_def)
  have len: "length ?desc = length ?rows" and mem: "set ?desc = set (findByJobId jobId ls)"
    by (simp_all add: findByJobId_def)
  show ?thesis
  proof (cases ?desc)
    case Nil
    with len have "?rows = []" by (metis length_0_conv list.size(3))
    then show ?thesis
      unfolding getLatestAttempt_def countAttempts_def findByJobId_def by (simp only:) (simp add: js_sort_def)
  next
    case (Cons e es)
    have "e \<in> set (findByJobId jobId ls)" and "\<forall>e' \<in> set (findByJobId jobId ls). e_attemptNumber e' \<le> e_attemptNumber e"
      using mem [symmetric] desc unfolding Cons by auto
    moreover then have "findByJobId jobId ls \<noteq> []" by auto
    ultimately show ?thesis
      using asc Cons by (simp add: getLatestAttempt_def countAttempts_def) (simp add: findByJobId_def)
  qed
qed

definition sample_log :: "id \<Rightarrow> int \<Rightarrow> ExecutionLog" where
  "sample_log i n = fst (createLog i 0 \<lparr>ce_jobId = ''j'', ce_workerId = ''w'', ce_attemptNumber = n,
     ce_status = EX_RUNNING, ce_startedAt = 0\<rparr> [])"

theorem execution_history_witness:
  "\<exists>e. getLatestAttempt ''j'' [sample_log ''x'' 2, sample_log ''y'' 1] = Some e \<and> e_attemptNumber e \<ge> 2"
proof -
  let ?ls = "[sample_log ''x'' 2, sample_log ''y'' 1]"
  have "sample_log ''x'' 2 \<in># mset (filter (\<lambda>e. e_jobId e = ''j'') ?ls)"
    by (simp add: sample_log_def createLog_def Let_def)
  then have "sample_log ''x'' 2 \<in> set (findByJobId ''j'' ?ls)"
    using execution_history [of "''j''" ?ls] by (metis set_mset_mset)
  with execution_history [of "''j''" ?ls] show ?thesis
    by (cases "getLatestAttempt ''j'' ?ls") (auto simp: sample_log_def createLog_def Let_def)
qed

end
