(* ===== verification/WorkerRepository.thy ===== *)
theory WorkerRepository
  imports LoadBalancer
begin

text \<open>
  \<^verbatim>\<open>src/db/repositories/WorkerRepository.ts\<close>: the \<^verbatim>\<open>workers\<close> table and the statements
  the repository runs on it. As for jobs, the table is the list of its rows in physical
  order, the clock and the generated identifier are arguments.
\<close>

section \<open>Statements\<close>

type_synonym workers = "WorkerNode list"

definition zero_stats :: WorkerStats where
  "zero_stats = \<lparr>ws_totalJobsProcessed = Some 0, ws_totalJobsSucceeded = Some 0,
     ws_totalJobsFailed = Some 0, ws_totalJobsTimedOut = Some 0, ws_averageJobDurationMs = Some 0,
     ws_uptimeMs = Some 0, ws_currentLoad = Some 0\<rparr>"

definition register_worker :: "id \<Rightarrow> time \<Rightarrow> RegisterWorkerDto \<Rightarrow> workers \<Rightarrow> WorkerNode \<times> workers" where
  "register_worker newId now dto ws =
     (let row = \<lparr>w_id = newId, w_hostname = rw_hostname dto, w_ipAddress = rw_ipAddress dto,
            w_pid = rw_pid dto, w_version = rw_version dto, w_status = ONLINE,
            w_capabilities = rw_capabilities dto, w_stats = zero_stats, w_currentJobCount = 0,
            w_maxConcurrency = cap_maxConcurrency (rw_capabilities dto),
            w_lastHeartbeatAt = now, w_registeredAt = now, w_updatedAt = now\<rparr>
      in (row, ws @ [row]))"

definition findWorker :: "id \<Rightarrow> workers \<Rightarrow> WorkerNode option" where
  "findWorker i ws = List.find (\<lambda>w. w_id w = i) ws"

definition findAll :: "WorkerStatus list option \<Rightarrow> workers \<Rightarrow> WorkerNode list" where
  "findAll statuses ws =
     (case statuses of None \<Rightarrow> ws | Some ss \<Rightarrow> filter (\<lambda>w. w_status w \<in> set ss) ws)"

definition updateWorkers :: "(WorkerNode \<Rightarrow> bool) \<Rightarrow> (WorkerNode \<Rightarrow> WorkerNode) \<Rightarrow> workers \<Rightarrow> workers" where
  "updateWorkers p f ws = map (\<lambda>w. if p w then f w else w) ws"

text \<open>The statistics column is overwritten with whatever the heartbeat carries.\<close>

definition heartbeat :: "WorkerHeartbeatDto \<Rightarrow> time \<Rightarrow> workers \<Rightarrow> workers" where
  "heartbeat dto now ws =
     updateWorkers (\<lambda>w. w_id w = hb_workerId dto)
       (\<lambda>w. w\<lparr>w_status := hb_status dto, w_currentJobCount := hb_currentJobCount dto,
          w_lastHeartbeatAt := hb_timestamp dto, w_stats := hb_stats dto, w_updatedAt := now\<rparr>) ws"

definition updateStatus :: "id \<Rightarrow> WorkerStatus \<Rightarrow> time \<Rightarrow> workers \<Rightarrow> workers" where
  "updateStatus i st now ws =
     updateWorkers (\<lambda>w. w_id w = i) (\<lambda>w. w\<lparr>w_status := st, w_updatedAt := now\<rparr>) ws"

definition silent :: "int \<Rightarrow> time \<Rightarrow> WorkerNode \<Rightarrow> bool" where
  "silent heartbeatTimeoutMs now w \<longleftrightarrow>
     w_status w \<in> set [ONLINE, BUSY] \<and> w_lastHeartbeatAt w < now - heartbeatTimeoutMs"

definition markLostWorkers :: "int \<Rightarrow> time \<Rightarrow> workers \<Rightarrow> id list \<times> workers" where
  "markLostWorkers heartbeatTimeoutMs now ws =
     (map w_id (filter (silent heartbeatTimeoutMs now) ws),
      updateWorkers (silent heartbeatTimeoutMs now) (\<lambda>w. w\<lparr>w_status := LOST, w_updatedAt := now\<rparr>) ws)"

text \<open>The ratio is NULL, which sorts last, when the capacity is 0.\<close>

definition ratioOrder :: "WorkerNode \<Rightarrow> WorkerNode \<Rightarrow> number" where
  "ratioOrder a b =
     (if w_maxConcurrency a = 0 then (if w_maxConcurrency b = 0 then 0 else 1)
      else if w_maxConcurrency b = 0 then -1
      else of_int (w_currentJobCount a) / of_int (w_maxConcurrency a) -
           of_int (w_currentJobCount b) / of_int (w_maxConcurrency b))"

definition canTake :: "JobType \<Rightarrow> WorkerNode \<Rightarrow> bool" where
  "canTake jobType w \<longleftrightarrow> w_status w \<in> set [ONLINE, BUSY] \<and>
     jobType \<in> set (cap_jobTypes (w_capabilities w)) \<and> w_currentJobCount w < w_maxConcurrency w"

definition findBestWorker :: "JobType \<Rightarrow> workers \<Rightarrow> WorkerNode option" where
  "findBestWorker jobType ws =
     (case js_sort ratioOrder (filter (canTake jobType) ws) of [] \<Rightarrow> None | w # _ \<Rightarrow> Some w)"

definition incrementJobCount :: "id \<Rightarrow> int \<Rightarrow> time \<Rightarrow> workers \<Rightarrow> workers" where
  "incrementJobCount i delta now ws =
     updateWorkers (\<lambda>w. w_id w = i)
       (\<lambda>w. w\<lparr>w_currentJobCount := max 0 (w_currentJobCount w + delta), w_updatedAt := now\<rparr>) ws"

section \<open>Lemmas\<close>

definition workers_ok :: "workers \<Rightarrow> bool" where
  "workers_ok ws \<longleftrightarrow> distinct (map w_id ws) \<and> (\<forall>w \<in> set ws. 0 \<le> w_currentJobCount w)"

interpretation worker_rows: keyed_table w_id findWorker updateWorkers
  by unfold_locales (simp_all add: findWorker_def updateWorkers_def)

declare worker_rows.look_Cons [simp] worker_rows.look_Nil [simp]

lemmas findWorker_Some = worker_rows.look_Some
  and findWorker_updateWorkers = worker_rows.look_upd_where
  and ids_updateWorkers = worker_rows.keys_upd_where

lemma workers_ok_updateWorkers:
  assumes "\<And>w. w_id (f w) = w_id w"
    and "\<And>w. p w \<Longrightarrow> 0 \<le> w_currentJobCount w \<Longrightarrow> 0 \<le> w_currentJobCount (f w)"
  shows "workers_ok ws \<Longrightarrow> workers_ok (updateWorkers p f ws)"
proof -
  assume ok: "workers_ok ws"
  have "\<forall>w \<in> set (updateWorkers p f ws). 0 \<le> w_currentJobCount w"
    using ok assms(2) by (auto simp: workers_ok_def updateWorkers_def)
  then show ?thesis
    using ok ids_updateWorkers [of f p ws, OF assms(1)] by (simp add: workers_ok_def)
qed

text \<open>A dead worker counts as lost from the first check after its silence exceeds the timeout.\<close>

lemma markLostWorkers_row:
  "findWorker i (snd (markLostWorkers timeout now ws)) =
    map_option (\<lambda>w. if silent timeout now w then w\<lparr>w_status := LOST, w_updatedAt := now\<rparr> else w)
      (findWorker i ws)"
  by (simp add: markLostWorkers_def findWorker_updateWorkers)

lemma markLostWorkers_ids:
  assumes "workers_ok ws"
  shows "i \<in> set (fst (markLostWorkers timeout now ws)) \<longleftrightarrow>
    (\<exists>w. findWorker i ws = Some w \<and> silent timeout now w)"
  using assms
  by (induction ws) (auto simp: markLostWorkers_def workers_ok_def dest: findWorker_Some)

lemma not_silent_after_LOST: "\<not> silent timeout now (w\<lparr>w_status := LOST, w_updatedAt := u\<rparr>)"
  by (simp add: silent_def)

interpretation ratio_order: comparison ratioOrder
  by unfold_locales (auto simp: ratioOrder_def split: if_splits)

section \<open>Properties\<close>

text \<open>
  Detection of lost workers: the reported workers are exactly the live ones whose last
  heartbeat is older than the timeout; they, and no others, become LOST; a second check
  with the same or an earlier clock reports nothing again; and a worker that is late
  but sends a heartbeat is live again with the status it announces.
\<close>

theorem markLostWorkers_correct:
  assumes ok: "workers_ok ws" and run: "markLostWorkers timeout now ws = (lost, ws')"
  shows "(\<forall>i. i \<in> set lost \<longleftrightarrow> (\<exists>w. findWorker i ws = Some w \<and> (w_status w = ONLINE \<or> w_status w = BUSY) \<and>
              now - w_lastHeartbeatAt w > timeout)) \<and>
    (\<forall>i \<in> set lost. \<exists>w. findWorker i ws' = Some w \<and> w_status w = LOST) \<and>
    (\<forall>i. i \<notin> set lost \<longrightarrow> findWorker i ws' = findWorker i ws) \<and>
    (\<forall>now' \<le> now. fst (markLostWorkers timeout now' ws') = []) \<and> workers_ok ws' \<and>
    (\<forall>dto t. hb_workerId dto \<in> set lost \<longrightarrow>
       map_option w_status (findWorker (hb_workerId dto) (heartbeat dto t ws')) = Some (hb_status dto))"
proof -
  have row: "findWorker i ws' = map_option
      (\<lambda>w. if silent timeout now w then w\<lparr>w_status := LOST, w_updatedAt := now\<rparr> else w) (findWorker i ws)" for i
    using markLostWorkers_row [of i timeout now ws] run by simp
  have mem: "i \<in> set lost \<longleftrightarrow> (\<exists>w. findWorker i ws = Some w \<and> silent timeout now w)" for i
    using markLostWorkers_ids [OF ok, of i timeout now] run by simp
  have ws': "ws' = updateWorkers (silent timeout now) (\<lambda>w. w\<lparr>w_status := LOST, w_updatedAt := now\<rparr>) ws"
    using run by (simp add: markLostWorkers_def)
  have "\<not> silent timeout now' w" if "now' \<le> now" "w \<in> set ws'" for now' w
    using that by (auto simp: ws' updateWorkers_def silent_def split: if_splits)
  then have "\<forall>now' \<le> now. fst (markLostWorkers timeout now' ws') = []"
    by (simp add: markLostWorkers_def filter_empty_conv)
  moreover have "workers_ok ws'"
    unfolding ws' by (rule workers_ok_updateWorkers [OF _ _ ok]) simp_all
  moreover have "map_option w_status (findWorker (hb_workerId dto) (heartbeat dto t ws')) = Some (hb_status dto)"
    if "hb_workerId dto \<in> set lost" for dto t
  proof -
    from that mem obtain w where w: "findWorker (hb_workerId dto) ws = Some w" "silent timeout now w" by blast
    with row have "findWorker (hb_workerId dto) ws' = Some (w\<lparr>w_status := LOST, w_updatedAt := now\<rparr>)" by simp
    moreover have "w_id w = hb_workerId dto" using w(1) findWorker_Some by blast
    ultimately show ?thesis by (simp add: heartbeat_def findWorker_updateWorkers)
  qed
  moreover have "\<exists>w. findWorker i ws' = Some w \<and> w_status w = LOST" if "i \<in> set lost" for i
    using that mem [of i] row [of i] by force
  moreover have "findWorker i ws' = findWorker i ws" if "i \<notin> set lost" for i
    using that mem [of i] row [of i] by (cases "findWorker i ws") auto
  moreover have "i \<in> set lost \<longleftrightarrow> (\<exists>w. findWorker i ws = Some w \<and> (w_status w = ONLINE \<or> w_status w = BUSY) \<and>
      now - w_lastHeartbeatAt w > timeout)" for i
    using mem [of i] by (auto simp: silent_def)
  ultimately show ?thesis by (intro conjI allI ballI impI) simp_all
qed

theorem markLostWorkers_correct_witness:
  "\<exists>lost ws'. markLostWorkers 30000 100000 [(sample_worker ''w'' 0)\<lparr>w_lastHeartbeatAt := 50000\<rparr>] = (lost, ws') \<and>
     ''w'' \<in> set lost \<and> workers_ok ws'"
proof -
  let ?ws = "[(sample_worker ''w'' 0)\<lparr>w_lastHeartbeatAt := 50000\<rparr>]"
  obtain lost ws' where run: "markLostWorkers 30000 100000 ?ws = (lost, ws')"
    by (cases "markLostWorkers 30000 100000 ?ws")
  have "workers_ok ?ws" by (simp add: workers_ok_def sample_worker_def)
  from markLostWorkers_correct [OF this run] show ?thesis
    using run by (simp add: sample_worker_def)
qed

text \<open>
  The best worker for a job type is live, offers the type, has a free slot, and no
  other such worker has a smaller share of its capacity in use; a worker is found
  whenever one qualifies.
\<close>

theorem findBestWorker_correct:
  "(findBestWorker jobType ws = None \<longleftrightarrow> \<not> (\<exists>w \<in> set ws. canTake jobType w)) \<and>
   (\<forall>w. findBestWorker jobType ws = Some w \<longrightarrow> w \<in> set ws \<and> canTake jobType w \<and>
     (\<forall>v \<in> set ws. canTake jobType v \<and> 0 \<le> w_currentJobCount v \<and> 0 \<le> w_currentJobCount w \<longrightarrow>
        of_int (w_currentJobCount w) / of_int (w_maxConcurrency w) \<le>
        (of_int (w_currentJobCount v) / of_int (w_maxConcurrency v) :: number)))"
proof -
  let ?xs = "js_sort ratioOrder (filter (canTake jobType) ws)"
  have set: "set ?xs = {w \<in> set ws. canTake jobType w}" by simp
  have sorted: "sorted_wrt (\<lambda>a b. ratioOrder a b \<le> 0) ?xs" by (rule ratio_order.sorted_js_sort)
  show ?thesis
  proof (cases ?xs)
    case Nil
    then have "{w \<in> set ws. canTake jobType w} = {}" using set by (metis list.set(1))
    with Nil show ?thesis by (simp add: findBestWorker_def)
  next
    case (Cons x rest)
    then have x: "x \<in> set ws" "canTake jobType x" using set by (metis list.set_intros(1) mem_Collect_eq)+
    have "ratioOrder x v \<le> 0" if "v \<in> set ws" "canTake jobType v" for v
    proof -
      have "v \<in> set (x # rest)" using that set Cons by auto
      then show ?thesis using sorted Cons by auto
    qed
    then have "of_int (w_currentJobCount x) / of_int (w_maxConcurrency x) \<le>
        (of_int (w_currentJobCount v) / of_int (w_maxConcurrency v) :: number)"
      if "v \<in> set ws" "canTake jobType v" "0 \<le> w_currentJobCount v" "0 \<le> w_currentJobCount x" for v
      using that x by (fastforce simp: ratioOrder_def canTake_def split: if_splits)
    with Cons x show ?thesis by (auto simp: findBestWorker_def)
  qed
qed

theorem findBestWorker_correct_witness:
  "\<exists>w. findBestWorker HTTP_REQUEST [sample_worker ''a'' 3, sample_worker ''b'' 1] = Some w \<and>
     canTake HTTP_REQUEST w"
proof -
  have "canTake HTTP_REQUEST (sample_worker ''a'' 3)" by (simp add: canTake_def sample_worker_def)
  with findBestWorker_correct [of HTTP_REQUEST "[sample_worker ''a'' 3, sample_worker ''b'' 1]"]
  show ?thesis by (cases "findBestWorker HTTP_REQUEST [sample_worker ''a'' 3, sample_worker ''b'' 1]") auto
qed

end
