(* ===== verification/Metrics.thy ===== *)
theory Metrics
  imports Models
begin

text \<open>
  \<^verbatim>\<open>src/monitoring/MetricsService.ts\<close>: the service turns each event into calls of
  prom-client's counters, gauges and histograms. Its state is the sequence of these calls,
  oldest first; the declarations made by the constructor are the list \<open>declarations\<close>.
\<close>

section \<open>Names\<close>

fun jobTypeName :: "JobType \<Rightarrow> string" where
  "jobTypeName HTTP_REQUEST = ''HTTP_REQUEST''"
| "jobTypeName SHELL_COMMAND = ''SHELL_COMMAND''"
| "jobTypeName DATA_PIPELINE = ''DATA_PIPELINE''"
| "jobTypeName EMAIL_NOTIFICATION = ''EMAIL_NOTIFICATION''"
| "jobTypeName REPORT_GENERATION = ''REPORT_GENERATION''"
| "jobTypeName FILE_PROCESSING = ''FILE_PROCESSING''"
| "jobTypeName DATABASE_CLEANUP = ''DATABASE_CLEANUP''"
| "jobTypeName WEBHOOK = ''WEBHOOK''"
| "jobTypeName CUSTOM = ''CUSTOM''"

fun priorityName :: "JobPriority \<Rightarrow> string" where
  "priorityName CRITICAL = ''CRITICAL''"
| "priorityName HIGH = ''HIGH''"
| "priorityName MEDIUM = ''MEDIUM''"
| "priorityName LOW = ''LOW''"
| "priorityName BACKGROUND = ''BACKGROUND''"

lemma jobTypeName_inj: "jobTypeName t = jobTypeName u \<longleftrightarrow> t = u"
  by (cases t; cases u) simp_all

section \<open>Declarations\<close>

datatype metric_kind = Counter | Gauge | Histogram

record metric_decl =
  md_name :: string
  md_kind :: metric_kind
  md_labelNames :: "string list"

definition decl :: "string \<Rightarrow> metric_kind \<Rightarrow> string list \<Rightarrow> metric_decl" where
  "decl n k ls = \<lparr>md_name = n, md_kind = k, md_labelNames = ls\<rparr>"

definition declarations :: "metric_decl list" where
  "declarations =
     [decl ''btos_jobs_submitted_total'' Counter [''type'', ''priority'', ''organization_id''],
      decl ''btos_jobs_completed_total'' Counter [''type'', ''priority''],
      decl ''btos_jobs_failed_total'' Counter [''type'', ''priority'', ''error_code''],
      decl ''btos_jobs_retried_total'' Counter [''type''],
      decl ''btos_jobs_cancelled_total'' Counter [],
      decl ''btos_jobs_timed_out_total'' Counter [],
      decl ''btos_dlq_entries_total'' Counter [],
      decl ''btos_queue_depth'' Gauge [''queue''],
      decl ''btos_queue_events_total'' Counter [''event''],
      decl ''btos_bulk_enqueue_jobs_total'' Counter [],
      decl ''btos_job_duration_seconds'' Histogram [''type'', ''status''],
      decl ''btos_workers_total'' Gauge [''status''],
      decl ''btos_worker_load_ratio'' Gauge [''worker_id''],
      decl ''btos_http_requests_total'' Counter [''method'', ''path'', ''status_code''],
      decl ''btos_http_request_duration_seconds'' Histogram [''method'', ''path''],
      decl ''btos_http_requests_in_flight'' Gauge []]"

section \<open>Recording\<close>

type_synonym labels = "(string \<times> string) list"

datatype prom_call =
    Inc string labels number
  | Dec string labels
  | SetTo string labels number
  | Observe string labels number

type_synonym metrics = "prom_call list"

definition recordJobSubmitted :: "JobType \<Rightarrow> JobPriority \<Rightarrow> id \<Rightarrow> metrics \<Rightarrow> metrics" where
  "recordJobSubmitted t p org ms = ms @ [Inc ''btos_jobs_submitted_total''
     [(''type'', jobTypeName t), (''priority'', priorityName p), (''organization_id'', org)] 1]"

definition recordJobCompleted :: "JobType \<Rightarrow> JobPriority \<Rightarrow> number \<Rightarrow> metrics \<Rightarrow> metrics" where
  "recordJobCompleted t p durationMs ms = ms @
     [Inc ''btos_jobs_completed_total'' [(''type'', jobTypeName t), (''priority'', priorityName p)] 1,
      Observe ''btos_job_duration_seconds'' [(''type'', jobTypeName t), (''status'', ''completed'')] (durationMs / 1000)]"

definition recordJobFailed :: "JobType \<Rightarrow> JobPriority \<Rightarrow> string \<Rightarrow> number option \<Rightarrow> metrics \<Rightarrow> metrics" where
  "recordJobFailed t p errorCode durationMs ms = ms @
     [Inc ''btos_jobs_failed_total''
        [(''type'', jobTypeName t), (''priority'', priorityName p), (''error_code'', errorCode)] 1] @
     (case durationMs of None \<Rightarrow> []
      | Some d \<Rightarrow> [Observe ''btos_job_duration_seconds'' [(''type'', jobTypeName t), (''status'', ''failed'')] (d / 1000)])"

definition recordJobRetried :: "JobType \<Rightarrow> metrics \<Rightarrow> metrics" where
  "recordJobRetried t ms = ms @ [Inc ''btos_jobs_retried_total'' [(''type'', jobTypeName t)] 1]"

definition recordJobCancelled :: "metrics \<Rightarrow> metrics" where
  "recordJobCancelled ms = ms @ [Inc ''btos_jobs_cancelled_total'' [] 1]"

definition recordJobTimedOut :: "metrics \<Rightarrow> metrics" where
  "recordJobTimedOut ms = ms @ [Inc ''btos_jobs_timed_out_total'' [] 1]"

definition recordDLQEntry :: "metrics \<Rightarrow> metrics" where
  "recordDLQEntry ms = ms @ [Inc ''btos_dlq_entries_total'' [] 1]"

definition recordQueueEvent :: "string \<Rightarrow> metrics \<Rightarrow> metrics" where
  "recordQueueEvent ev ms = ms @ [Inc ''btos_queue_events_total'' [(''event'', ev)] 1]"

definition recordBulkEnqueue :: "nat \<Rightarrow> metrics \<Rightarrow> metrics" where
  "recordBulkEnqueue n ms = ms @ [Inc ''btos_bulk_enqueue_jobs_total'' [] (of_nat n)]"

definition setQueueDepth :: "string \<Rightarrow> number \<Rightarrow> metrics \<Rightarrow> metrics" where
  "setQueueDepth q depth ms = ms @ [SetTo ''btos_queue_depth'' [(''queue'', q)] depth]"

definition setWorkerCount :: "string \<Rightarrow> number \<Rightarrow> metrics \<Rightarrow> metrics" where
  "setWorkerCount st n ms = ms @ [SetTo ''btos_workers_total'' [(''status'', st)] n]"

definition setWorkerLoad :: "id \<Rightarrow> number \<Rightarrow> metrics \<Rightarrow> metrics" where
  "setWorkerLoad workerId l ms = ms @ [SetTo ''btos_worker_load_ratio'' [(''worker_id'', workerId)] l]"

definition recordHttpRequest :: "string \<Rightarrow> string \<Rightarrow> nat \<Rightarrow> number \<Rightarrow> metrics \<Rightarrow> metrics" where
  "recordHttpRequest meth path statusCode durationMs ms = ms @
     [Inc ''btos_http_requests_total''
        [(''method'', meth), (''path'', path), (''status_code'', show_nat statusCode)] 1,
      Observe ''btos_http_request_duration_seconds'' [(''method'', meth), (''path'', path)] (durationMs / 1000)]"

definition incrementHttpInFlight :: "metrics \<Rightarrow> metrics" where
  "incrementHttpInFlight ms = ms @ [Inc ''btos_http_requests_in_flight'' [] 1]"

definition decrementHttpInFlight :: "metrics \<Rightarrow> metrics" where
  "decrementHttpInFlight ms = ms @ [Dec ''btos_http_requests_in_flight'' []]"

lemmas metrics_defs = recordJobSubmitted_def recordJobCompleted_def recordJobFailed_def
  recordJobRetried_def recordJobCancelled_def recordJobTimedOut_def recordDLQEntry_def
  recordQueueEvent_def recordBulkEnqueue_def setQueueDepth_def setWorkerCount_def
  setWorkerLoad_def recordHttpRequest_def incrementHttpInFlight_def decrementHttpInFlight_def

section \<open>Calls agree with the declarations\<close>

text \<open>
  prom-client throws when a label is not declared or a counter is decreased, and a metric of
  another kind has no such method.
\<close>

definition declared :: "string \<Rightarrow> metric_kind set \<Rightarrow> labels \<Rightarrow> bool" where
  "declared n ks ls \<longleftrightarrow> (\<exists>d \<in> set declarations. md_name d = n \<and> md_kind d \<in> ks \<and> md_labelNames d = map fst ls)"

fun call_ok :: "prom_call \<Rightarrow> bool" where
  "call_ok (Inc n ls x) = (declared n {Counter, Gauge} ls \<and> 0 \<le> x)"
| "call_ok (Dec n ls) = declared n {Gauge} ls"
| "call_ok (SetTo n ls x) = declared n {Gauge} ls"
| "call_ok (Observe n ls x) = declared n {Histogram} ls"

inductive recorded :: "metrics \<Rightarrow> bool" where
  empty: "recorded []"
| submitted: "recorded ms \<Longrightarrow> recorded (recordJobSubmitted t p org ms)"
| completed: "recorded ms \<Longrightarrow> recorded (recordJobCompleted t p d ms)"
| failed: "recorded ms \<Longrightarrow> recorded (recordJobFailed t p c dur ms)"
| retried: "recorded ms \<Longrightarrow> recorded (recordJobRetried t ms)"
| cancelled: "recorded ms \<Longrightarrow> recorded (recordJobCancelled ms)"
| timedOut: "recorded ms \<Longrightarrow> recorded (recordJobTimedOut ms)"
| dlq: "recorded ms \<Longrightarrow> recorded (recordDLQEntry ms)"
| queueEvent: "recorded ms \<Longrightarrow> recorded (recordQueueEvent ev ms)"
| bulk: "recorded ms \<Longrightarrow> recorded (recordBulkEnqueue n ms)"
| depth: "recorded ms \<Longrightarrow> recorded (setQueueDepth q x ms)"
| workers: "recorded ms \<Longrightarrow> recorded (setWorkerCount st x ms)"
| load: "recorded ms \<Longrightarrow> recorded (setWorkerLoad w x ms)"
| request: "recorded ms \<Longrightarrow> recorded (recordHttpRequest meth path code x ms)"
| inFlight: "recorded ms \<Longrightarrow> recorded (incrementHttpInFlight ms)"
| outFlight: "recorded ms \<Longrightarrow> recorded (decrementHttpInFlight ms)"

text \<open>
  Whatever the system records, every call the metrics service makes names a declared
  metric of the right kind with exactly its declared labels, and no counter is decreased.
\<close>

theorem metrics_declared:
  assumes "recorded ms"
  shows "list_all call_ok ms"
  using assms
  by (induction rule: recorded.induct)
     (simp_all add: metrics_defs declared_def declarations_def decl_def split: option.split)

theorem metrics_declared_witness:
  "list_all call_ok (recordJobFailed WEBHOOK HIGH ''JOB_TIMEOUT'' (Some 250) (recordJobTimedOut []))"
  by (rule metrics_declared) (intro recorded.intros)

end
