(* ===== verification/Queues.thy ===== *)
theory Queues
  imports Metrics
begin

text \<open>
  \<^verbatim>\<open>src/queue/\<close>: the main job queue, the dead letter queue and the facade over both. The
  queues are BullMQ queues, code of a third party: a record \<open>BullQueue\<close> of the operations
  the sources call is an argument of every definition here, over an arbitrary type of
  queue states. What the sources rely on is the predicate \<open>bull_ok\<close>: an added job can be
  read back, an explicit identifier that is already present is not added again, and
  removing a job removes that job only. A rejected promise is an \<open>Inl\<close> with its message.
\<close>

section \<open>BullMQ\<close>

record JobsOptions =
  o_priority :: "int option"
  o_delay :: "int option"
  o_jobId :: "id option"

record ('d, 'q) BullQueue =
  q_add :: "string \<Rightarrow> 'd \<Rightarrow> JobsOptions \<Rightarrow> 'q \<Rightarrow> string + id \<times> 'q"
  q_addBulk :: "(string \<times> 'd \<times> JobsOptions) list \<Rightarrow> 'q \<Rightarrow> string + 'q"
  q_getJob :: "id \<Rightarrow> 'q \<Rightarrow> 'd option"
  q_remove :: "id \<Rightarrow> 'q \<Rightarrow> 'q"
  q_getJobs :: "string list \<Rightarrow> int \<Rightarrow> int \<Rightarrow> 'q \<Rightarrow> (id \<times> 'd) list"
  q_getJobCounts :: "string list \<Rightarrow> 'q \<Rightarrow> (string \<times> nat) list"
  q_pause :: "'q \<Rightarrow> 'q"
  q_resume :: "'q \<Rightarrow> 'q"
  q_drain :: "'q \<Rightarrow> 'q"
  q_close :: "'q \<Rightarrow> 'q"

definition bull_ok :: "('d, 'q) BullQueue \<Rightarrow> bool" where
  "bull_ok B \<longleftrightarrow>
     (\<forall>n d opts q i q'. q_add B n d opts q = Inr (i, q') \<longrightarrow>
        (\<forall>k. k \<noteq> i \<longrightarrow> q_getJob B k q' = q_getJob B k q) \<and>
        (case o_jobId opts of
           None \<Rightarrow> q_getJob B i q = None \<and> q_getJob B i q' = Some d
         | Some j \<Rightarrow> i = j \<and> q_getJob B j q' =
             (case q_getJob B j q of None \<Rightarrow> Some d | Some old \<Rightarrow> Some old))) \<and>
     (\<forall>i k q. q_getJob B k (q_remove B i q) = (if k = i then None else q_getJob B k q))"

text \<open>An in-memory queue that satisfies the assumptions: entries in order of arrival.\<close>

definition freshId :: "(id \<times> 'd) list \<Rightarrow> id" where
  "freshId q = ''x'' @ concat (map fst q)"

definition memQueue :: "('d, (id \<times> 'd) list) BullQueue" where
  "memQueue =
     \<lparr>q_add = (\<lambda>n d opts q. let i = nullish (o_jobId opts) (freshId q)
         in Inr (i, if map_of q i = None then q @ [(i, d)] else q)),
      q_addBulk = (\<lambda>js q. Inr (fold (\<lambda>(n, d, opts) q. q @ [(freshId q, d)]) js q)),
      q_getJob = (\<lambda>i q. map_of q i),
      q_remove = (\<lambda>i q. filter (\<lambda>e. fst e \<noteq> i) q),
      q_getJobs = (\<lambda>states a b q. js_slice q a (b + 1)),
      q_getJobCounts = (\<lambda>states q. map (\<lambda>s. (s, if s = ''waiting'' then length q else 0)) states),
      q_pause = id, q_resume = id, q_drain = (\<lambda>q. []), q_close = id\<rparr>"

section \<open>JobQueue.ts\<close>

text \<open>The options of the queues: what BullMQ does by itself with a job whose options do not say otherwise. Ages are in seconds.\<close>

record QueueDefaults =
  qo_attempts :: int
  qo_backoff :: "(string \<times> int) option"
  qo_removeOnComplete :: "(int \<times> int) option"
  qo_removeOnFail :: "int option"

definition queueOptions :: "int \<Rightarrow> int \<Rightarrow> QueueDefaults" where
  "queueOptions maxRetries retryDelayMs =
     \<lparr>qo_attempts = maxRetries, qo_backoff = Some (''exponential'', retryDelayMs),
      qo_removeOnComplete = Some (24 * 3600, 1000), qo_removeOnFail = Some (7 * 24 * 3600)\<rparr>"

record QueueJobPayload =
  qp_jobId :: id
  qp_type :: JobType
  qp_payload :: obj
  qp_organizationId :: id
  qp_attemptNumber :: int

definition toBullPriority :: "JobPriority \<Rightarrow> int" where
  "toBullPriority p = js_round (of_int (100 - PRIORITY_WEIGHT p) / 20) + 1"

record AddOptions =
  ao_priority :: "JobPriority option"
  ao_delayMs :: "int option"
  ao_jobId :: "id option"

definition queueAdd ::
  "(QueueJobPayload, 'q) BullQueue \<Rightarrow> QueueJobPayload \<Rightarrow> AddOptions \<Rightarrow> 'q \<times> metrics \<Rightarrow>
   string + id \<times> 'q \<times> metrics" where
  "queueAdd B payload options st =
     (let jobOptions = \<lparr>o_priority = Some (toBullPriority (nullish (ao_priority options) MEDIUM)),
            o_delay = Some (nullish (ao_delayMs options) 0), o_jobId = ao_jobId options\<rparr>
      in case q_add B (jobTypeName (qp_type payload)) payload jobOptions (fst st) of
           Inl err \<Rightarrow> Inl err
         | Inr (i, q) \<Rightarrow> Inr (i, q, recordQueueEvent ''added'' (snd st)))"

definition queueAddBulk ::
  "(QueueJobPayload, 'q) BullQueue \<Rightarrow> (QueueJobPayload \<times> JobPriority option \<times> int option) list \<Rightarrow>
   'q \<times> metrics \<Rightarrow> string + 'q \<times> metrics" where
  "queueAddBulk B jobs st =
     (let bulk = map (\<lambda>(payload, priority, delayMs). (jobTypeName (qp_type payload), payload,
            \<lparr>o_priority = Some (toBullPriority (nullish priority MEDIUM)),
             o_delay = Some (nullish delayMs 0), o_jobId = None\<rparr>)) jobs
      in case q_addBulk B bulk (fst st) of
           Inl err \<Rightarrow> Inl err
         | Inr q \<Rightarrow> Inr (q, recordBulkEnqueue (length jobs) (snd st)))"

definition getJobCounts :: "('d, 'q) BullQueue \<Rightarrow> 'q \<Rightarrow> (string \<times> nat) list" where
  "getJobCounts B q =
     q_getJobCounts B [''active'', ''waiting'', ''completed'', ''failed'', ''delayed'', ''paused''] q"

definition removeJob :: "('d, 'q) BullQueue \<Rightarrow> id \<Rightarrow> 'q \<Rightarrow> 'q" where
  "removeJob B bullJobId q =
     (case q_getJob B bullJobId q of None \<Rightarrow> q | Some _ \<Rightarrow> q_remove B bullJobId q)"

definition queuePause :: "('d, 'q) BullQueue \<Rightarrow> 'q \<Rightarrow> 'q" where
  "queuePause B q = q_pause B q"

definition queueResume :: "('d, 'q) BullQueue \<Rightarrow> 'q \<Rightarrow> 'q" where
  "queueResume B q = q_resume B q"

definition queueDrain :: "('d, 'q) BullQueue \<Rightarrow> 'q \<Rightarrow> 'q" where
  "queueDrain B q = q_drain B q"

definition queueClose :: "('d, 'q) BullQueue \<Rightarrow> 'q \<Rightarrow> 'q" where
  "queueClose B q = q_close B q"

text \<open>The listeners of \<^verbatim>\<open>attachEventHandlers\<close>: each event counts once under its name.\<close>

datatype queue_event = Completed | Failed | Stalled | QueueError

fun onQueueEvent :: "queue_event \<Rightarrow> metrics \<Rightarrow> metrics" where
  "onQueueEvent Completed ms = recordQueueEvent ''completed'' ms"
| "onQueueEvent Failed ms = recordQueueEvent ''failed'' ms"
| "onQueueEvent Stalled ms = recordQueueEvent ''stalled'' ms"
| "onQueueEvent QueueError ms = ms"

section \<open>DeadLetterQueue.ts\<close>

record DLQEntry =
  dl_originalJobId :: id
  dl_type :: JobType
  dl_payload :: obj
  dl_organizationId :: id
  dl_failureReason :: string
  dl_failureStack :: "string option"
  dl_totalAttempts :: int
  dl_firstFailedAt :: time
  dl_lastFailedAt :: time

definition dlqOptions :: QueueDefaults where
  "dlqOptions = \<lparr>qo_attempts = 1, qo_backoff = None, qo_removeOnComplete = None, qo_removeOnFail = None\<rparr>"

definition dlqId :: "id \<Rightarrow> id" where
  "dlqId jobId = ''dlq_'' @ jobId"

definition dlqAdd ::
  "(DLQEntry, 'd) BullQueue \<Rightarrow> DLQEntry \<Rightarrow> 'd \<times> metrics \<Rightarrow> string + id \<times> 'd \<times> metrics" where
  "dlqAdd D entry st =
     (case q_add D ''dlq_entry'' entry
        \<lparr>o_priority = None, o_delay = None, o_jobId = Some (dlqId (dl_originalJobId entry))\<rparr> (fst st) of
        Inl err \<Rightarrow> Inl err
      | Inr (i, d) \<Rightarrow> Inr (i, d, recordDLQEntry (snd st)))"

definition listEntries :: "(DLQEntry, 'd) BullQueue \<Rightarrow> int \<Rightarrow> int \<Rightarrow> 'd \<Rightarrow> (id \<times> DLQEntry) list" where
  "listEntries D first final d = q_getJobs D [''failed'', ''completed'', ''waiting''] first final d"

definition replayPayload :: "DLQEntry \<Rightarrow> QueueJobPayload" where
  "replayPayload entry =
     \<lparr>qp_jobId = dl_originalJobId entry, qp_type = dl_type entry, qp_payload = dl_payload entry,
      qp_organizationId = dl_organizationId entry, qp_attemptNumber = dl_totalAttempts entry + 1\<rparr>"

text \<open>
  \<^verbatim>\<open>replayJob\<close>, with the states of both queues in the error case too: a failed call leaves
  them as they are.
\<close>

definition replayJob ::
  "(DLQEntry, 'd) BullQueue \<Rightarrow> (QueueJobPayload, 'q) BullQueue \<Rightarrow> id \<Rightarrow> 'd \<times> 'q \<Rightarrow> string + 'd \<times> 'q" where
  "replayJob D B dlqJobId st =
     (case q_getJob D dlqJobId (fst st) of
        None \<Rightarrow> Inl (''DLQ entry not found: '' @ dlqJobId)
      | Some entry \<Rightarrow>
          (case q_add B (jobTypeName (dl_type entry)) (replayPayload entry)
             \<lparr>o_priority = None, o_delay = None, o_jobId = None\<rparr> (snd st) of
             Inl err \<Rightarrow> Inl err
           | Inr (i, q) \<Rightarrow> Inr (q_remove D dlqJobId (fst st), q)))"

definition dlqCount :: "(DLQEntry, 'd) BullQueue \<Rightarrow> 'd \<Rightarrow> nat" where
  "dlqCount D d = sum_list (map snd (q_getJobCounts D [''waiting'', ''completed'', ''failed''] d))"

definition dlqClose :: "(DLQEntry, 'd) BullQueue \<Rightarrow> 'd \<Rightarrow> 'd" where
  "dlqClose D d = q_close D d"

section \<open>QueueManager.ts\<close>

record QueueHealth =
  qh_mainQueue :: "(string \<times> nat) list"
  qh_dlqCount :: nat
  qh_isHealthy :: bool

definition countOf :: "string \<Rightarrow> (string \<times> nat) list \<Rightarrow> nat" where
  "countOf s counts = nullish (map_of counts s) 0"

definition getHealth ::
  "(QueueJobPayload, 'q) BullQueue \<Rightarrow> (DLQEntry, 'd) BullQueue \<Rightarrow> 'q \<Rightarrow> 'd \<Rightarrow> QueueHealth" where
  "getHealth B D q d =
     (let mainCounts = getJobCounts B q; n = dlqCount D d
      in \<lparr>qh_mainQueue = mainCounts, qh_dlqCount = n,
          qh_isHealthy = (countOf ''waiting'' mainCounts < 10000 \<and> n < 1000)\<rparr>)"

definition getQueueDepth :: "(QueueJobPayload, 'q) BullQueue \<Rightarrow> 'q \<Rightarrow> nat" where
  "getQueueDepth B q =
     (let counts = getJobCounts B q
      in countOf ''waiting'' counts + countOf ''active'' counts + countOf ''delayed'' counts)"

text \<open>\<^verbatim>\<open>stop\<close> closes the main queue and then the dead letter queue.\<close>

definition stopQueues ::
  "(QueueJobPayload, 'q) BullQueue \<Rightarrow> (DLQEntry, 'd) BullQueue \<Rightarrow> 'q \<times> 'd \<Rightarrow> 'q \<times> 'd" where
  "stopQueues B D st = (queueClose B (fst st), dlqClose D (snd st))"

text \<open>
  \<^verbatim>\<open>start\<close> asks for the health report and drops it; \<open>unreachable\<close> is the error of that call when
  there is no connection.
\<close>

definition startQueues ::
  "(QueueJobPayload, 'q) BullQueue \<Rightarrow> (DLQEntry, 'd) BullQueue \<Rightarrow> string option \<Rightarrow> 'q \<times> 'd \<Rightarrow> string option \<times> 'q \<times> 'd" where
  "startQueues B D unreachable st =
     (case unreachable of Some err \<Rightarrow> (Some err, st) | None \<Rightarrow> (let h = getHealth B D (fst st) (snd st) in (None, st)))"

definition pauseMainQueue :: "(QueueJobPayload, 'q) BullQueue \<Rightarrow> 'q \<times> 'd \<Rightarrow> 'q \<times> 'd" where
  "pauseMainQueue B st = (queuePause B (fst st), snd st)"

definition resumeMainQueue :: "(QueueJobPayload, 'q) BullQueue \<Rightarrow> 'q \<times> 'd \<Rightarrow> 'q \<times> 'd" where
  "resumeMainQueue B st = (queueResume B (fst st), snd st)"

section \<open>Lemmas\<close>

lemma bull_add_other:
  "bull_ok B \<Longrightarrow> q_add B n d opts q = Inr (i, q') \<Longrightarrow> k \<noteq> i \<Longrightarrow> q_getJob B k q' = q_getJob B k q"
  unfolding bull_ok_def by blast

lemma bull_add_fresh:
  "bull_ok B \<Longrightarrow> q_add B n d opts q = Inr (i, q') \<Longrightarrow> o_jobId opts = None \<Longrightarrow>
   q_getJob B i q = None \<and> q_getJob B i q' = Some d"
  unfolding bull_ok_def by fastforce

lemma bull_add_named:
  "bull_ok B \<Longrightarrow> q_add B n d opts q = Inr (i, q') \<Longrightarrow> o_jobId opts = Some j \<Longrightarrow>
   i = j \<and> q_getJob B j q' = (case q_getJob B j q of None \<Rightarrow> Some d | Some old \<Rightarrow> Some old)"
  unfolding bull_ok_def by fastforce

lemma bull_remove:
  "bull_ok B \<Longrightarrow> q_getJob B k (q_remove B i q) = (if k = i then None else q_getJob B k q)"
  unfolding bull_ok_def by blast

lemma freshId_fresh: "freshId q \<notin> fst ` set q"
proof
  assume "freshId q \<in> fst ` set q"
  then obtain xs ys where q: "map fst q = xs @ freshId q # ys"
    by (metis list.set_map split_list)
  have "length (freshId q) = 1 + length (concat (map fst q))" by (simp add: freshId_def)
  moreover have "length (concat (map fst q)) \<ge> length (freshId q)" by (subst q) simp
  ultimately show False by simp
qed

lemma memQueue_add:
  "q_add memQueue n d opts q = Inr (i, q') \<longleftrightarrow>
     i = nullish (o_jobId opts) (freshId q) \<and> q' = (if map_of q i = None then q @ [(i, d)] else q)"
  by (auto simp: memQueue_def Let_def)

lemma memQueue_ok: "bull_ok memQueue"
  unfolding bull_ok_def
proof (intro conjI allI impI)
  fix n and d :: 'a and opts q i q' k
  assume "q_add memQueue n d opts q = Inr (i, q')"
  then have i: "i = nullish (o_jobId opts) (freshId q)"
    and q': "q' = (if map_of q i = None then q @ [(i, d)] else q)"
    by (simp_all add: memQueue_add)
  have get: "map_of q' x = (if x = i \<and> map_of q i = None then Some d else map_of q x)" for x
    by (auto simp: q' map_add_def split: option.splits)
  show "q_getJob memQueue k q' = q_getJob memQueue k q" if "k \<noteq> i"
    using that by (simp add: memQueue_def get)
  have fresh: "map_of q (freshId q) = None"
    using freshId_fresh [of q] by (simp add: map_of_eq_None_iff)
  show "case o_jobId opts of None \<Rightarrow> q_getJob memQueue i q = None \<and> q_getJob memQueue i q' = Some d
    | Some j \<Rightarrow> i = j \<and> q_getJob memQueue j q' =
        (case q_getJob memQueue j q of None \<Rightarrow> Some d | Some old \<Rightarrow> Some old)"
    using i fresh by (auto simp: memQueue_def get split: option.split)
next
  fix i k and q :: "(id \<times> 'a) list"
  show "q_getJob memQueue k (q_remove memQueue i q) = (if k = i then None else q_getJob memQueue k q)"
    by (induction q) (auto simp: memQueue_def)
qed

section \<open>Properties\<close>

text \<open>
  The number handed to BullMQ, where a smaller one runs first, orders jobs exactly as
  their priorities do; the numbers are 1, 2, 4, 5 and 6.
\<close>

theorem toBullPriority_order:
  "(toBullPriority p < toBullPriority q \<longleftrightarrow> q < p) \<and> range toBullPriority = {1, 2, 4, 5, 6}"
proof -
  have v: "toBullPriority CRITICAL = 1" "toBullPriority HIGH = 2" "toBullPriority MEDIUM = 4"
    "toBullPriority LOW = 5" "toBullPriority BACKGROUND = 6"
    by (simp_all add: toBullPriority_def js_round_def floor_eq_iff)
  have "range toBullPriority = toBullPriority ` {CRITICAL, HIGH, MEDIUM, LOW, BACKGROUND}"
    by (rule arg_cong [of _ _ "(`) toBullPriority"]) (use JobPriority.exhaust in blast)
  moreover have "toBullPriority p < toBullPriority q \<longleftrightarrow> q < p"
    by (cases p; cases q) (simp_all add: v less_JobPriority_def)
  ultimately show ?thesis by (simp add: v)
qed

text \<open>
  Replaying a dead letter loses nothing: it fails, leaving both queues alone, when the
  entry is missing or the main queue rejects the job; otherwise the main queue holds
  the original job under a new identifier with the next attempt number, everything else
  in it is unchanged, and exactly this entry has left the dead letter queue.
\<close>

theorem replayJob_no_loss:
  assumes "bull_ok D" "bull_ok B"
  shows "(\<forall>entry. q_getJob D i d = Some entry \<longrightarrow>
      (case replayJob D B i (d, q) of
         Inl err \<Rightarrow> q_add B (jobTypeName (dl_type entry)) (replayPayload entry)
           \<lparr>o_priority = None, o_delay = None, o_jobId = None\<rparr> q = Inl err
       | Inr (d', q') \<Rightarrow>
           (\<exists>new. q_getJob B new q = None \<and>
              q_getJob B new q' = Some \<lparr>qp_jobId = dl_originalJobId entry, qp_type = dl_type entry,
                qp_payload = dl_payload entry, qp_organizationId = dl_organizationId entry,
                qp_attemptNumber = dl_totalAttempts entry + 1\<rparr> \<and>
              (\<forall>k. k \<noteq> new \<longrightarrow> q_getJob B k q' = q_getJob B k q)) \<and>
           (\<forall>k. q_getJob D k d' = (if k = i then None else q_getJob D k d)))) \<and>
    (q_getJob D i d = None \<longrightarrow> (\<exists>err. replayJob D B i (d, q) = Inl err))"
proof -
  have "case replayJob D B i (d, q) of
         Inl err \<Rightarrow> q_add B (jobTypeName (dl_type entry)) (replayPayload entry)
           \<lparr>o_priority = None, o_delay = None, o_jobId = None\<rparr> q = Inl err
       | Inr (d', q') \<Rightarrow>
           (\<exists>new. q_getJob B new q = None \<and> q_getJob B new q' = Some (replayPayload entry) \<and>
              (\<forall>k. k \<noteq> new \<longrightarrow> q_getJob B k q' = q_getJob B k q)) \<and>
           (\<forall>k. q_getJob D k d' = (if k = i then None else q_getJob D k d))"
    if e: "q_getJob D i d = Some entry" for entry
  proof (cases "q_add B (jobTypeName (dl_type entry)) (replayPayload entry)
      \<lparr>o_priority = None, o_delay = None, o_jobId = None\<rparr> q")
    case (Inr r)
    obtain new q' where r: "r = (new, q')" by (cases r)
    note add = Inr [unfolded r]
    have "replayJob D B i (d, q) = Inr (q_remove D i d, q')" using e add by (simp add: replayJob_def)
    moreover have "q_getJob B new q = None \<and> q_getJob B new q' = Some (replayPayload entry)"
      using bull_add_fresh [OF assms(2) add] by simp
    ultimately show ?thesis
      using bull_add_other [OF assms(2) add] bull_remove [OF assms(1)] by auto
  qed (use e in \<open>simp add: replayJob_def\<close>)
  then show ?thesis unfolding replayPayload_def by (simp add: replayJob_def)
qed

definition sample_entry :: DLQEntry where
  "sample_entry = \<lparr>dl_originalJobId = ''j'', dl_type = WEBHOOK, dl_payload = [], dl_organizationId = ''o'',
     dl_failureReason = ''boom'', dl_failureStack = None, dl_totalAttempts = 4, dl_firstFailedAt = 1,
     dl_lastFailedAt = 2\<rparr>"

theorem replayJob_no_loss_witness:
  "\<exists>d' q'. replayJob memQueue memQueue ''dlq_j'' ([(''dlq_j'', sample_entry)], []) = Inr (d', q') \<and>
     q_getJob memQueue ''dlq_j'' d' = None"
proof -
  have e: "q_getJob memQueue ''dlq_j'' [(''dlq_j'', sample_entry)] = Some sample_entry"
    by (simp add: memQueue_def)
  have "\<exists>d' q'. replayJob memQueue memQueue ''dlq_j'' ([(''dlq_j'', sample_entry)], []) = Inr (d', q')"
    by (simp add: replayJob_def memQueue_def Let_def)
  then show ?thesis
    using replayJob_no_loss [OF memQueue_ok memQueue_ok, of "''dlq_j''" "[(''dlq_j'', sample_entry)]" "[]"] e
    by (auto split: prod.splits)
qed

end
