(* ===== verification/DependencyResolver.thy ===== *)
theory DependencyResolver
  imports Models
begin

text \<open>
  \<^verbatim>\<open>src/scheduler/DependencyResolver.ts\<close>: the in-memory dependency graph. The private
  \<^verbatim>\<open>Map\<close> is an association list in insertion order; the emitted event is part of the
  result. The two depth-first searches recurse over the list of dependencies still to be
  visited, which is the \<^verbatim>\<open>for\<close> loop of the source together with the recursive call
  inside it.
\<close>

section \<open>State and operations\<close>

record DepNode =
  dn_jobId :: id
  dn_dependencies :: "JobDependency list"
  dn_dependents :: "id list"
  dn_isResolved :: bool

type_synonym graph = "(id \<times> DepNode) list"

abbreviation get :: "graph \<Rightarrow> id \<Rightarrow> DepNode option" where
  "get g x \<equiv> map_of g x"

definition registerNode :: "Job \<Rightarrow> graph \<Rightarrow> graph" where
  "registerNode job g =
     (if get g (j_id job) = None then
        AList.update (j_id job)
          \<lparr>dn_jobId = j_id job, dn_dependencies = j_dependencies job, dn_dependents = [],
           dn_isResolved = (length (j_dependencies job) = 0)\<rparr> g
      else g)"

definition registerEdge :: "id \<Rightarrow> JobDependency \<Rightarrow> graph \<Rightarrow> graph" where
  "registerEdge jobId dep g =
     (let g' = (if get g (dep_jobId dep) = None then
                  AList.update (dep_jobId dep)
                    \<lparr>dn_jobId = dep_jobId dep, dn_dependencies = [], dn_dependents = [],
                     dn_isResolved = True\<rparr> g
                else g)
      in case get g' (dep_jobId dep) of
           None \<Rightarrow> g'
         | Some depNode \<Rightarrow>
             if jobId \<in> set (dn_dependents depNode) then g'
             else AList.update (dep_jobId dep)
                    (depNode\<lparr>dn_dependents := dn_dependents depNode @ [jobId]\<rparr>) g')"

definition register :: "Job \<Rightarrow> graph \<Rightarrow> graph" where
  "register job g = fold (registerEdge (j_id job)) (j_dependencies job) (registerNode job g)"

definition checkAllDependenciesMet :: "graph \<Rightarrow> DepNode \<Rightarrow> bool" where
  "checkAllDependenciesMet g node =
     list_all (\<lambda>dep. case get g (dep_jobId dep) of None \<Rightarrow> False | Some n \<Rightarrow> dn_isResolved n)
       (dn_dependencies node)"

definition visitDependent ::
  "id \<Rightarrow> JobStatus \<Rightarrow> id \<Rightarrow> id list \<times> graph \<Rightarrow> id list \<times> graph" where
  "visitDependent jobId newStatus dependentId st =
     (let (unblocked, g) = st in
      case get g dependentId of
        None \<Rightarrow> st
      | Some depNode \<Rightarrow>
          if dn_isResolved depNode then st
          else case List.find (\<lambda>d. dep_jobId d = jobId) (dn_dependencies depNode) of
            None \<Rightarrow> st
          | Some jobDep \<Rightarrow>
              if newStatus \<in> set (dep_requireStatus jobDep) \<and> checkAllDependenciesMet g depNode
              then (unblocked @ [dependentId],
                    AList.update dependentId (depNode\<lparr>dn_isResolved := True\<rparr>) g)
              else st)"

datatype dep_event = JobsUnblocked "id list"

definition onJobStateChange ::
  "id \<Rightarrow> JobStatus \<Rightarrow> graph \<Rightarrow> id list \<times> graph \<times> dep_event list" where
  "onJobStateChange jobId newStatus g =
     (case get g jobId of
        None \<Rightarrow> ([], g, [])
      | Some node \<Rightarrow>
          let (unblocked, g') = fold (visitDependent jobId newStatus) (dn_dependents node) ([], g)
          in (unblocked, g', if length unblocked > 0 then [JobsUnblocked unblocked] else []))"

definition isResolved :: "id \<Rightarrow> graph \<Rightarrow> bool" where
  "isResolved jobId g = (case get g jobId of None \<Rightarrow> True | Some n \<Rightarrow> dn_isResolved n)"

definition dropDependent :: "id \<Rightarrow> JobDependency \<Rightarrow> graph \<Rightarrow> graph" where
  "dropDependent jobId dep g =
     (case get g (dep_jobId dep) of
        None \<Rightarrow> g
      | Some depNode \<Rightarrow>
          AList.update (dep_jobId dep)
            (depNode\<lparr>dn_dependents := filter (\<lambda>d. d \<noteq> jobId) (dn_dependents depNode)\<rparr>) g)"

definition deregister :: "id \<Rightarrow> graph \<Rightarrow> graph" where
  "deregister jobId g =
     (case get g jobId of
        None \<Rightarrow> g
      | Some node \<Rightarrow>
          AList.delete jobId (fold (dropDependent jobId) (dn_dependencies node) g))"

record DepStats =
  totalNodes :: nat
  resolvedNodes :: nat
  pendingNodes :: int

definition getStats :: "graph \<Rightarrow> DepStats" where
  "getStats g =
     (let resolved = length (filter (\<lambda>(k, n). dn_isResolved n) g)
      in \<lparr>totalNodes = length g, resolvedNodes = resolved,
          pendingNodes = int (length g) - int resolved\<rparr>)"

subsection \<open>Depth-first searches\<close>

definition deps_of :: "graph \<Rightarrow> id \<Rightarrow> id list" where
  "deps_of g x = (case get g x of None \<Rightarrow> [] | Some n \<Rightarrow> map dep_jobId (dn_dependencies n))"

definition indexOf :: "'a list \<Rightarrow> 'a \<Rightarrow> int" where
  "indexOf xs x = (if x \<in> set xs then int (length (takeWhile (\<lambda>y. y \<noteq> x) xs)) else -1)"

datatype dep_error = CircularDependency "id list"

text \<open>
  \<^verbatim>\<open>validateNoCycles\<close>: \<open>dfs g ids path visited inStack\<close> calls the closure
  \<^verbatim>\<open>dfs(id, path)\<close> for each of \<open>ids\<close> in turn.
\<close>

function dfs ::
  "graph \<Rightarrow> id list \<Rightarrow> id list \<Rightarrow> id list \<Rightarrow> id list \<Rightarrow> dep_error + id list \<times> id list" where
  "dfs g [] path visited inStack = Inr (visited, inStack)"
| "dfs g (x # ids) path visited inStack =
     (if x \<in> set inStack then
        let cycleStart = indexOf path x
        in Inl (CircularDependency (js_slice path cycleStart (int (length path)) @ [x]))
      else if x \<in> set visited then dfs g ids path visited inStack
      else case dfs g (deps_of g x) (path @ [x]) (visited @ [x]) (inStack @ [x]) of
             Inl e \<Rightarrow> Inl e
           | Inr (visited', inStack') \<Rightarrow> dfs g ids path visited' (removeAll x inStack'))"
  by pat_completeness auto

fun validateFrom :: "graph \<Rightarrow> id list \<Rightarrow> id list \<Rightarrow> id list \<Rightarrow> dep_error + unit" where
  "validateFrom g [] visited inStack = Inr ()"
| "validateFrom g (x # ids) visited inStack =
     (if x \<in> set visited then validateFrom g ids visited inStack
      else case dfs g [x] [] visited inStack of
             Inl e \<Rightarrow> Inl e
           | Inr (visited', inStack') \<Rightarrow> validateFrom g ids visited' inStack')"

definition validateNoCycles :: "graph \<Rightarrow> id list \<Rightarrow> dep_error + unit" where
  "validateNoCycles g jobIds = validateFrom g jobIds [] []"

text \<open>\<^verbatim>\<open>topologicalSort\<close>: the closure \<^verbatim>\<open>visit\<close>, over a list of identifiers.\<close>

function visit :: "graph \<Rightarrow> id list \<Rightarrow> id list \<times> id list \<Rightarrow> id list \<times> id list" where
  "visit g [] (visited, out) = (visited, out)"
| "visit g (x # ids) (visited, out) =
     (if x \<in> set visited then visit g ids (visited, out)
      else let (visited', out') = visit g (deps_of g x) (visited @ [x], out)
           in visit g ids (visited', out' @ [x]))"
  by pat_completeness auto

section \<open>Termination of the searches\<close>

text \<open>Every call either marks a new node of the graph as visited or shortens the list.\<close>

lemma deps_of_outside: "x \<notin> set (keys g) \<Longrightarrow> deps_of g x = []"
  by (simp add: deps_of_def map_of_eq_None_iff split: option.splits) (metis map_of_eq_None_iff option.distinct(1))

lemma unvisited_le:
  "set visited \<subseteq> set visited' \<Longrightarrow>
   card (set (keys g) - set visited') \<le> card (set (keys g) - set visited)"
  by (intro card_mono) auto

lemma unvisited_less:
  "x \<notin> set visited \<Longrightarrow> x \<in> set (keys g) \<Longrightarrow>
   card (set (keys g) - set (visited @ [x])) < card (set (keys g) - set visited)"
  by (intro psubset_card_mono) auto

lemma dfs_visited_grows:
  "dfs_dom (g, ids, path, visited, inStack) \<Longrightarrow>
   dfs g ids path visited inStack = Inr (visited', inStack') \<Longrightarrow> set visited \<subseteq> set visited'"
proof (induction arbitrary: visited' inStack' rule: dfs.pinduct)
  case (1 g path visited inStack)
  then show ?case by (simp add: dfs.psimps)
next
  case (2 g x ids path visited inStack)
  show ?case
  proof (cases "x \<in> set visited")
    case True
    with 2 show ?thesis by (auto simp: dfs.psimps split: if_splits)
  next
    case False
    with 2(1,5) obtain v s where
      inner: "x \<notin> set inStack"
        "dfs g (deps_of g x) (path @ [x]) (visited @ [x]) (inStack @ [x]) = Inr (v, s)"
      and outer: "dfs g ids path v (removeAll x s) = Inr (visited', inStack')"
      by (auto simp: dfs.psimps split: if_splits sum.splits prod.splits)
    have "set (visited @ [x]) \<subseteq> set v" using 2(3) inner False by blast
    moreover have "set v \<subseteq> set visited'" using 2(4) inner False outer by blast
    ultimately show ?thesis by auto
  qed
qed

termination dfs
proof (relation "measures [\<lambda>(g, ids, path, visited, inStack). card (set (keys g) - set visited),
                           \<lambda>(g, ids, path, visited, inStack). length ids]", goal_cases)
  case 1
  then show ?case by simp
next
  case (2 g x ids path visited inStack)
  then show ?case by simp
next
  case (3 g x ids path visited inStack)
  then show ?case
    using unvisited_less [of x visited g] deps_of_outside [of x g]
    by (cases "x \<in> set (keys g)") (auto simp: card_Diff_insert)
next
  case (4 g x ids path visited inStack st visited' inStack')
  then have "set (visited @ [x]) \<subseteq> set visited'" using dfs_visited_grows by metis
  then have "set visited \<subseteq> set visited'" by simp
  from unvisited_le [OF this, of g] show ?case by auto
qed

lemma visit_visited_grows:
  "visit_dom (g, ids, st) \<Longrightarrow> set (fst st) \<subseteq> set (fst (visit g ids st))"
proof (induction rule: visit.pinduct)
  case (1 g visited out)
  then show ?case by (simp add: visit.psimps)
next
  case (2 g x ids visited out)
  then show ?case
    by (auto simp: visit.psimps split: if_splits prod.splits) fastforce+
qed

termination visit
proof (relation "measures [\<lambda>(g, ids, st). card (set (keys g) - set (fst st)),
                           \<lambda>(g, ids, st). length ids]", goal_cases)
  case 1
  then show ?case by simp
next
  case (2 g x ids visited out)
  then show ?case by simp
next
  case (3 g x ids visited out)
  then show ?case
    using unvisited_less [of x visited g] deps_of_outside [of x g]
    by (cases "x \<in> set (keys g)") (auto simp: card_Diff_insert)
next
  case (4 g x ids visited out st visited' out')
  then have "set (visited @ [x]) \<subseteq> set visited'"
    using visit_visited_grows [of g "deps_of g x" "(visited @ [x], out)"] by (metis fst_conv)
  then have "set visited \<subseteq> set visited'" by simp
  from unvisited_le [OF this, of g] show ?case by auto
qed

definition topologicalSort :: "graph \<Rightarrow> id list \<Rightarrow> id list" where
  "topologicalSort g jobIds = snd (visit g jobIds ([], []))"

section \<open>Cycle detection\<close>

definition edges :: "graph \<Rightarrow> (id \<times> id) set" where
  "edges g = {(x, y). y \<in> set (deps_of g x)}"

lemma edges_iff [simp]: "(x, y) \<in> edges g \<longleftrightarrow> y \<in> set (deps_of g x)"
  by (simp add: edges_def)

definition on_cycle :: "graph \<Rightarrow> id \<Rightarrow> bool" where
  "on_cycle g x \<longleftrightarrow> (x, x) \<in> (edges g)\<^sup>+"

text \<open>A finished set of nodes: closed under dependencies and free of cycles.\<close>

definition finished :: "graph \<Rightarrow> id set \<Rightarrow> bool" where
  "finished g F \<longleftrightarrow> (\<forall>x \<in> F. set (deps_of g x) \<subseteq> F \<and> \<not> on_cycle g x)"

lemma finished_reachable:
  assumes "finished g F" and "(x, y) \<in> (edges g)\<^sup>*" and "x \<in> F"
  shows "y \<in> F"
  using assms(2,3) by (induction rule: rtrancl_induct) (use assms(1) in \<open>auto simp: finished_def\<close>)

lemma finished_insert:
  assumes F: "finished g F" and deps: "set (deps_of g x) \<subseteq> F" and x: "x \<notin> F"
  shows "finished g (insert x F)"
proof -
  have "\<not> on_cycle g x"
  proof
    assume "on_cycle g x"
    then obtain y where "(x, y) \<in> edges g" "(y, x) \<in> (edges g)\<^sup>*"
      unfolding on_cycle_def by (metis tranclD)
    with deps finished_reachable [OF F] x show False by auto
  qed
  with F deps show ?thesis by (auto simp: finished_def)
qed

lemma dfs_inStack: "dfs g ids path visited inStack = Inr (visited', inStack') \<Longrightarrow> inStack' = inStack"
proof (induction g ids path visited inStack arbitrary: visited' inStack' rule: dfs.induct)
  case (2 g x ids path visited inStack)
  then show ?case
    by (auto split: if_splits sum.splits prod.splits)
qed simp

text \<open>A search that succeeds has visited its list and left a finished set behind.\<close>

lemma dfs_success:
  "dfs g ids path visited inStack = Inr (visited', inStack') \<Longrightarrow>
   finished g (set visited - set inStack) \<Longrightarrow>
   finished g (set visited' - set inStack) \<and> set ids \<subseteq> set visited' - set inStack \<and>
   set visited \<subseteq> set visited'"
proof (induction g ids path visited inStack arbitrary: visited' inStack' rule: dfs.induct)
  case (1 g path visited inStack)
  then show ?case by simp
next
  case (2 g x ids path visited inStack)
  have notin: "x \<notin> set inStack" using "2.prems"(1) by (auto simp: Let_def split: if_splits)
  show ?case
  proof (cases "x \<in> set visited")
    case True
    with notin "2.prems"(1) have "dfs g ids path visited inStack = Inr (visited', inStack')" by simp
    from "2.IH"(1) [OF notin True this "2.prems"(2)] True notin show ?thesis by auto
  next
    case False
    with notin "2.prems"(1) obtain v s where
      inner: "dfs g (deps_of g x) (path @ [x]) (visited @ [x]) (inStack @ [x]) = Inr (v, s)"
      and outer: "dfs g ids path v (removeAll x s) = Inr (visited', inStack')"
      by (auto split: sum.splits prod.splits)
    have s: "removeAll x s = inStack" using dfs_inStack [OF inner] notin by simp
    have "set (visited @ [x]) - set (inStack @ [x]) = set visited - set inStack" using False by auto
    with "2.IH"(2) [OF notin False inner] "2.prems"(2)
    have I: "finished g (set v - set (inStack @ [x]))" "set (deps_of g x) \<subseteq> set v - set (inStack @ [x])"
        "set (visited @ [x]) \<subseteq> set v"
      by auto
    have "set v - set inStack = insert x (set v - set (inStack @ [x]))" using I(3) notin by auto
    with finished_insert [OF I(1,2)] have "finished g (set v - set inStack)" by auto
    with "2.IH"(3) [OF notin False inner refl outer] s I(3) notin show ?thesis by auto
  qed
qed

text \<open>A search that fails reports a closed walk along dependencies that it can reach.\<close>

definition walk :: "graph \<Rightarrow> id list \<Rightarrow> bool" where
  "walk g p \<longleftrightarrow> successively (\<lambda>x y. y \<in> set (deps_of g x)) p"

definition is_cycle :: "graph \<Rightarrow> id list \<Rightarrow> bool" where
  "is_cycle g c \<longleftrightarrow> 2 \<le> length c \<and> hd c = last c \<and> walk g c"

lemma walk_reaches: "walk g (x # p) \<Longrightarrow> y \<in> set (x # p) \<Longrightarrow> (x, y) \<in> (edges g)\<^sup>*"
proof (induction p arbitrary: x)
  case (Cons z p)
  then have "(x, z) \<in> edges g" "walk g (z # p)" by (auto simp: walk_def)
  with Cons show ?case by (auto intro: converse_rtrancl_into_rtrancl)
qed simp

lemma cycle_on_cycle: "is_cycle g c \<Longrightarrow> on_cycle g (hd c)"
proof -
  assume c: "is_cycle g c"
  then obtain x y p where xy: "c = x # y # p" by (cases c; cases "tl c") (auto simp: is_cycle_def)
  with c have "(x, y) \<in> edges g" "walk g (y # p)" "x \<in> set (y # p)"
    by (auto simp: is_cycle_def walk_def dest: last_in_set split: if_splits)
  then show ?thesis
    using walk_reaches [of g y p x] xy by (auto simp: on_cycle_def intro: rtrancl_into_trancl2)
qed

lemma walk_snoc: "walk g p \<Longrightarrow> (p \<noteq> [] \<Longrightarrow> y \<in> set (deps_of g (last p))) \<Longrightarrow> walk g (p @ [y])"
  by (cases p rule: rev_cases) (auto simp: walk_def successively_append_iff)

lemma cycle_of_path:
  assumes w: "walk g p" and x: "x \<in> set p" and e: "x \<in> set (deps_of g (last p))"
  shows "is_cycle g (js_slice p (indexOf p x) (int (length p)) @ [x])"
    and "hd (js_slice p (indexOf p x) (int (length p)) @ [x]) = x"
proof -
  obtain ys zs where p: "p = ys @ x # zs" "x \<notin> set ys" using split_list_first [OF x] by blast
  have take: "takeWhile (\<lambda>y. y \<noteq> x) p = ys"
    unfolding p(1) using p(2) by (subst takeWhile_append2) auto
  have slice: "js_slice p (indexOf p x) (int (length p)) = x # zs"
    using x take p by (simp add: indexOf_def js_slice_def js_index_def Let_def)
  have "walk g (x # zs)" using w p by (simp add: walk_def successively_append_iff)
  then have "walk g ((x # zs) @ [x])" using e p by (intro walk_snoc) simp_all
  then show "is_cycle g (js_slice p (indexOf p x) (int (length p)) @ [x])"
    and "hd (js_slice p (indexOf p x) (int (length p)) @ [x]) = x"
    by (auto simp: slice is_cycle_def)
qed

lemma dfs_failure:
  "dfs g ids path visited inStack = Inl (CircularDependency c) \<Longrightarrow> inStack = path \<Longrightarrow> walk g path \<Longrightarrow>
   (path \<noteq> [] \<longrightarrow> set ids \<subseteq> set (deps_of g (last path))) \<Longrightarrow>
   is_cycle g c \<and> (\<exists>r \<in> set path \<union> set ids. (r, hd c) \<in> (edges g)\<^sup>* \<and> (path \<noteq> [] \<longrightarrow> r = hd path))"
proof (induction g ids path visited inStack rule: dfs.induct)
  case (1 g path visited inStack)
  then show ?case by simp
next
  case (2 g x ids path visited inStack)
  show ?case
  proof (cases "x \<in> set inStack")
    case True
    then have x: "x \<in> set path" "path \<noteq> []" using "2.prems" by auto
    have c: "c = js_slice path (indexOf path x) (int (length path)) @ [x]"
      using True "2.prems"(1) by (simp add: Let_def)
    have "x \<in> set (deps_of g (last path))" using "2.prems"(4) x by simp
    note cyc = cycle_of_path [OF "2.prems"(3) x(1) this, folded c]
    have "(hd path, x) \<in> (edges g)\<^sup>*"
      using walk_reaches [of g "hd path" "tl path" x] "2.prems"(3) x by simp
    with cyc x(2) show ?thesis by auto
  next
    case notin: False
    show ?thesis
    proof (cases "x \<in> set visited")
      case True
      with notin "2.prems" "2.IH"(1) show ?thesis by auto
    next
      case False
      show ?thesis
      proof (cases "dfs g (deps_of g x) (path @ [x]) (visited @ [x]) (inStack @ [x])")
        case (Inl e)
        with "2.prems"(1) notin False have
          e: "dfs g (deps_of g x) (path @ [x]) (visited @ [x]) (inStack @ [x]) =
              Inl (CircularDependency c)" by simp
        have "walk g (path @ [x])" using "2.prems"(3,4) by (intro walk_snoc) auto
        with "2.IH"(2) [OF notin False e] "2.prems"(2) obtain r where
          r: "is_cycle g c" "(r, hd c) \<in> (edges g)\<^sup>*" "r = hd (path @ [x])" by auto
        then show ?thesis by (cases path) auto
      next
        case (Inr st)
        obtain v s where st: "st = (v, s)" by (cases st)
        have "removeAll x s = inStack" using dfs_inStack Inr st notin by fastforce
        with Inr st "2.prems" notin False "2.IH"(3) [OF notin False Inr st [symmetric]] show ?thesis by auto
      qed
    qed
  qed
qed


lemma validateFrom_correct:
  "finished g (set visited) \<Longrightarrow>
   (case validateFrom g ids visited [] of
      Inr _ \<Rightarrow> \<forall>x \<in> set ids. \<forall>y. (x, y) \<in> (edges g)\<^sup>* \<longrightarrow> \<not> on_cycle g y
    | Inl (CircularDependency c) \<Rightarrow> is_cycle g c \<and> (\<exists>r \<in> set ids. (r, hd c) \<in> (edges g)\<^sup>*))"
proof (induction ids arbitrary: visited)
  case Nil
  then show ?case by simp
next
  case (Cons x ids)
  have safe: "\<not> on_cycle g y" if "finished g F" "z \<in> F" "(z, y) \<in> (edges g)\<^sup>*" for F y z
    using finished_reachable [OF that(1,3,2)] that(1) by (auto simp: finished_def)
  show ?case
  proof (cases "x \<in> set visited")
    case True
    with Cons.IH [OF Cons.prems] safe [OF Cons.prems True] show ?thesis
      by (auto split: sum.splits dep_error.splits)
  next
    case False
    show ?thesis
    proof (cases "dfs g [x] [] visited []")
      case (Inl e)
      then obtain c where e: "dfs g [x] [] visited [] = Inl (CircularDependency c)" by (cases e) auto
      from dfs_failure [OF e] False e show ?thesis by (auto simp: walk_def)
    next
      case (Inr st)
      obtain v s where st: "st = (v, s)" by (cases st)
      have "s = []" using dfs_inStack Inr st by blast
      moreover have fin: "finished g (set v)" and "x \<in> set v"
        using dfs_success [of g "[x]" "[]" visited "[]" v s] Inr st Cons.prems by auto
      ultimately show ?thesis
        using Cons.IH [OF fin] safe [OF fin \<open>x \<in> set v\<close>] False Inr st
        by (auto split: sum.splits dep_error.splits)
    qed
  qed
qed

section \<open>Topological order\<close>

definition topo :: "graph \<Rightarrow> id list \<Rightarrow> bool" where
  "topo g out \<longleftrightarrow> (\<forall>i < length out. set (deps_of g (out ! i)) \<subseteq> set (take i out))"

lemma topo_Nil [simp]: "topo g []"
  by (simp add: topo_def)

lemma topo_snoc: "topo g (out @ [x]) \<longleftrightarrow> topo g out \<and> set (deps_of g x) \<subseteq> set out"
  by (auto simp: topo_def less_Suc_eq nth_append)

lemma topo_closed: "topo g out \<Longrightarrow> x \<in> set out \<Longrightarrow> (x, y) \<in> (edges g)\<^sup>* \<Longrightarrow> y \<in> set out"
proof (rotate_tac 2, induction rule: rtrancl_induct)
  case (step y z)
  then obtain i where "i < length out" "out ! i = y" by (auto simp: in_set_conv_nth)
  with step show ?case by (auto simp: topo_def dest: in_set_takeD)
qed simp

text \<open>
  The nodes visited but not yet in the output are the ancestors of the current list; in a
  graph without a reachable cycle none of them is met again.
\<close>

lemma visit_correct:
  "visit g ids (visited, out) = (visited', out') \<Longrightarrow>
   set out \<subseteq> set visited \<Longrightarrow> distinct out \<Longrightarrow> topo g out \<Longrightarrow>
   (\<forall>s \<in> set visited - set out. \<forall>x \<in> set ids. (s, x) \<in> (edges g)\<^sup>+) \<Longrightarrow>
   (\<forall>x \<in> set ids. \<forall>y. (x, y) \<in> (edges g)\<^sup>* \<longrightarrow> \<not> on_cycle g y) \<Longrightarrow>
   set out' \<subseteq> set visited' \<and> distinct out' \<and> topo g out' \<and> set ids \<subseteq> set out' \<and>
   set visited \<subseteq> set visited' \<and> set out \<subseteq> set out' \<and>
   set visited' - set out' = set visited - set out \<and>
   (\<forall>y \<in> set out' - set out. \<exists>x \<in> set ids. (x, y) \<in> (edges g)\<^sup>*)"
proof (induction g ids "(visited, out)" arbitrary: visited out visited' out' rule: visit.induct)
  case (1 g visited out)
  then show ?case by simp
next
  case (2 g x ids visited out)
  note prems = "2.prems"
  show ?case
  proof (cases "x \<in> set visited")
    case True
    have "\<not> on_cycle g x" using prems(6) by auto
    then have "x \<in> set out" using True prems(5) by (auto simp: on_cycle_def)
    moreover have "visit g ids (visited, out) = (visited', out')" using True prems(1) by simp
    ultimately show ?thesis using "2.hyps"(1) [OF True] prems by auto
  next
    case False
    obtain v s where inner: "visit g (deps_of g x) (visited @ [x], out) = (v, s)"
      by (cases "visit g (deps_of g x) (visited @ [x], out)")
    with False prems(1) have outer: "visit g ids (v, s @ [x]) = (visited', out')" by simp
    have gray: "\<forall>t \<in> set (visited @ [x]) - set out. \<forall>y \<in> set (deps_of g x). (t, y) \<in> (edges g)\<^sup>+"
      using prems(5) by (auto intro: trancl_into_trancl)
    have safe: "\<forall>y \<in> set (deps_of g x). \<forall>z. (y, z) \<in> (edges g)\<^sup>* \<longrightarrow> \<not> on_cycle g z"
      using prems(6) by (metis converse_rtrancl_into_rtrancl edges_iff list.set_intros(1))
    have sub: "set out \<subseteq> set (visited @ [x])" using prems(2) by auto
    note I = "2.hyps"(2) [OF False inner sub prems(3,4) gray safe]
    have xs: "x \<in> set v" "x \<notin> set s" "x \<notin> set out" using I False prems(2) by auto
    have new: "\<forall>t \<in> set v - set (s @ [x]). \<forall>y \<in> set ids. (t, y) \<in> (edges g)\<^sup>+"
      using I xs prems(5) by auto
    have "set (s @ [x]) \<subseteq> set v" "distinct (s @ [x])" "topo g (s @ [x])"
      using I xs by (auto simp: topo_snoc)
    from "2.hyps"(3) [OF False inner [symmetric] refl outer this new] prems(6)
    have O: "set out' \<subseteq> set visited'" "distinct out'" "topo g out'" "set ids \<subseteq> set out'"
      "set v \<subseteq> set visited'" "set (s @ [x]) \<subseteq> set out'"
      "set visited' - set out' = set v - set (s @ [x])"
      "\<forall>y \<in> set out' - set (s @ [x]). \<exists>x \<in> set ids. (x, y) \<in> (edges g)\<^sup>*"
      by auto
    have "set v - set (s @ [x]) = set visited - set out" using I xs False by auto
    moreover have "\<forall>y \<in> set out' - set out. \<exists>z \<in> set (x # ids). (z, y) \<in> (edges g)\<^sup>*"
    proof
      fix y assume y: "y \<in> set out' - set out"
      have "\<exists>z \<in> set (deps_of g x). (z, y) \<in> (edges g)\<^sup>*" if "y \<in> set s" using I y that by auto
      then show "\<exists>z \<in> set (x # ids). (z, y) \<in> (edges g)\<^sup>*"
        using O(8) y by (cases "y \<in> set s") (auto intro: converse_rtrancl_into_rtrancl)
    qed
    ultimately show ?thesis using O I by auto
  qed
qed

section \<open>Well-formedness of the graph\<close>

definition node_ok :: "id \<Rightarrow> DepNode \<Rightarrow> bool" where
  "node_ok k n \<longleftrightarrow>
     dn_jobId n = k \<and> distinct (dn_dependents n) \<and> (dn_dependencies n = [] \<longrightarrow> dn_isResolved n)"

definition graph_ok :: "graph \<Rightarrow> bool" where
  "graph_ok g \<longleftrightarrow> distinct (keys g) \<and> (\<forall>k n. get g k = Some n \<longrightarrow> node_ok k n)"

text \<open>Every dependency has a node, and that node knows its dependent.\<close>

definition linked :: "graph \<Rightarrow> bool" where
  "linked g \<longleftrightarrow> (\<forall>k n d. get g k = Some n \<longrightarrow> d \<in> set (dn_dependencies n) \<longrightarrow>
     (\<exists>m. get g (dep_jobId d) = Some m \<and> k \<in> set (dn_dependents m)))"

definition placeholder :: "id \<Rightarrow> DepNode" where
  "placeholder x = \<lparr>dn_jobId = x, dn_dependencies = [], dn_dependents = [], dn_isResolved = True\<rparr>"

definition add_dependent :: "id \<Rightarrow> DepNode \<Rightarrow> DepNode" where
  "add_dependent j n =
     (if j \<in> set (dn_dependents n) then n else n\<lparr>dn_dependents := dn_dependents n @ [j]\<rparr>)"

lemma add_dependent_simps [simp]:
  "dn_jobId (add_dependent j n) = dn_jobId n"
  "dn_dependencies (add_dependent j n) = dn_dependencies n"
  "dn_isResolved (add_dependent j n) = dn_isResolved n"
  "set (dn_dependents (add_dependent j n)) = insert j (set (dn_dependents n))"
  "distinct (dn_dependents (add_dependent j n)) = distinct (dn_dependents n)"
  by (auto simp: add_dependent_def)

lemma get_registerEdge:
  "get (registerEdge j dep g) x =
     (if x = dep_jobId dep then Some (add_dependent j (nullish (get g x) (placeholder x))) else get g x)"
  by (auto simp: registerEdge_def Let_def add_dependent_def placeholder_def split: option.splits)

lemma keys_registerEdge: "distinct (keys g) \<Longrightarrow> distinct (keys (registerEdge j dep g))"
  by (auto simp: registerEdge_def Let_def split: option.splits)

lemma get_registerNode:
  "get (registerNode job g) x =
     (if x = j_id job \<and> get g x = None
      then Some \<lparr>dn_jobId = j_id job, dn_dependencies = j_dependencies job, dn_dependents = [],
                 dn_isResolved = (j_dependencies job = [])\<rparr>
      else get g x)"
  by (auto simp: registerNode_def)

lemma graph_ok_registerNode: "graph_ok g \<Longrightarrow> graph_ok (registerNode job g)"
  unfolding graph_ok_def get_registerNode by (auto simp: node_ok_def registerNode_def)

lemma graph_ok_registerEdge: "graph_ok g \<Longrightarrow> graph_ok (registerEdge j dep g)"
  unfolding graph_ok_def get_registerEdge
  by (auto simp: node_ok_def keys_registerEdge placeholder_def nullish_def split: option.splits)

lemma graph_ok_edges: "graph_ok g \<Longrightarrow> graph_ok (fold (registerEdge j) deps g)"
  by (induction deps arbitrary: g) (auto intro: graph_ok_registerEdge)

text \<open>Adding reverse edges leaves dependencies and flags of existing nodes alone.\<close>

definition same_core :: "DepNode \<Rightarrow> DepNode \<Rightarrow> bool" where
  "same_core n n' \<longleftrightarrow> dn_dependencies n' = dn_dependencies n \<and> dn_isResolved n' = dn_isResolved n \<and>
     set (dn_dependents n) \<subseteq> set (dn_dependents n')"

lemma edges_keep_core:
  "get g k = Some n \<Longrightarrow> \<exists>n'. get (fold (registerEdge j) deps g) k = Some n' \<and> same_core n n'"
proof (induction deps arbitrary: g n)
  case Nil
  then show ?case by (simp add: same_core_def)
next
  case (Cons d deps)
  have "\<exists>n1. get (registerEdge j d g) k = Some n1 \<and> same_core n n1"
    using Cons.prems by (auto simp: get_registerEdge same_core_def)
  then obtain n1 where n1: "get (registerEdge j d g) k = Some n1" "same_core n n1" by blast
  from Cons.IH [OF n1(1)] n1(2) show ?case by (auto simp: same_core_def)
qed

lemma edges_new_nodes:
  "get (fold (registerEdge j) deps g) k = Some n \<Longrightarrow> get g k = None \<Longrightarrow> dn_dependencies n = []"
proof (induction deps arbitrary: g)
  case (Cons d deps)
  show ?case
  proof (cases "k = dep_jobId d")
    case True
    then have "get (registerEdge j d g) k = Some (add_dependent j (placeholder k))"
      using Cons.prems(2) by (simp add: get_registerEdge)
    from edges_keep_core [OF this, of j deps] Cons.prems(1) show ?thesis
      by (auto simp: same_core_def placeholder_def)
  next
    case False
    with Cons show ?thesis by (simp add: get_registerEdge)
  qed
qed simp

lemma edges_link:
  "d \<in> set deps \<Longrightarrow>
   \<exists>m. get (fold (registerEdge j) deps g) (dep_jobId d) = Some m \<and> j \<in> set (dn_dependents m)"
proof (induction deps arbitrary: g)
  case (Cons e deps)
  show ?case
  proof (cases "d \<in> set deps")
    case True
    with Cons show ?thesis by simp
  next
    case False
    with Cons.prems have "d = e" by simp
    then have "get (registerEdge j e g) (dep_jobId d) =
        Some (add_dependent j (nullish (get g (dep_jobId d)) (placeholder (dep_jobId d))))"
      by (simp add: get_registerEdge)
    from edges_keep_core [OF this, of j deps] show ?thesis by (auto simp: same_core_def)
  qed
qed simp

lemma register_ok:
  assumes "graph_ok g" and "linked g"
  shows "graph_ok (register job g)" and "linked (register job g)"
proof -
  show "graph_ok (register job g)"
    unfolding register_def by (intro graph_ok_edges graph_ok_registerNode assms(1))
  let ?g0 = "registerNode job g" and ?fold = "fold (registerEdge (j_id job)) (j_dependencies job)"
  show "linked (register job g)"
    unfolding linked_def register_def
  proof (intro allI impI)
    fix k n d assume n: "get (?fold ?g0) k = Some n" and d: "d \<in> set (dn_dependencies n)"
    then obtain n0 where n0: "get ?g0 k = Some n0" "d \<in> set (dn_dependencies n0)"
      using edges_new_nodes [of "j_id job" "j_dependencies job" ?g0 k n]
        edges_keep_core [of ?g0 k _ "j_id job" "j_dependencies job"]
      by (cases "get ?g0 k") (fastforce simp: same_core_def)+
    show "\<exists>m. get (?fold ?g0) (dep_jobId d) = Some m \<and> k \<in> set (dn_dependents m)"
    proof (cases "k = j_id job \<and> get g k = None")
      case True
      with n0 have "d \<in> set (j_dependencies job)" by (auto simp: get_registerNode)
      with True edges_link show ?thesis by blast
    next
      case False
      with n0 have "get g k = Some n0" by (auto simp: get_registerNode split: if_splits)
      with assms(2) n0(2) obtain m where m: "get g (dep_jobId d) = Some m" "k \<in> set (dn_dependents m)"
        unfolding linked_def by blast
      then have "get ?g0 (dep_jobId d) = Some m" by (auto simp: get_registerNode)
      from edges_keep_core [OF this, of "j_id job" "j_dependencies job"] m(2) show ?thesis
        by (auto simp: same_core_def)
    qed
  qed
qed

section \<open>State changes\<close>

text \<open>
  What the loop over the dependents keeps true of its state \<open>(unblocked, g')\<close>, relative
  to the graph \<open>g\<close> it started from: the unblocked jobs were unresolved, are resolved
  now, accept the status and have all their dependencies resolved; nothing else changed.
\<close>

definition accepts :: "id \<Rightarrow> JobStatus \<Rightarrow> DepNode \<Rightarrow> bool" where
  "accepts jobId st n =
     (case List.find (\<lambda>d. dep_jobId d = jobId) (dn_dependencies n) of
        None \<Rightarrow> False | Some d \<Rightarrow> st \<in> set (dep_requireStatus d))"

definition loop_inv :: "id \<Rightarrow> JobStatus \<Rightarrow> graph \<Rightarrow> id list \<Rightarrow> id list \<times> graph \<Rightarrow> bool" where
  "loop_inv jobId st g seen s \<longleftrightarrow>
     distinct (fst s) \<and> set (fst s) \<subseteq> set seen \<and>
     (\<forall>x. x \<notin> set (fst s) \<longrightarrow> get (snd s) x = get g x) \<and>
     (\<forall>x \<in> set (fst s). \<exists>n. get g x = Some n \<and> \<not> dn_isResolved n \<and> accepts jobId st n \<and>
        checkAllDependenciesMet (snd s) n \<and> get (snd s) x = Some (n\<lparr>dn_isResolved := True\<rparr>))"

lemma check_mono:
  assumes "checkAllDependenciesMet g n"
    and "\<And>x m. get g x = Some m \<Longrightarrow> dn_isResolved m \<Longrightarrow> \<exists>m'. get g' x = Some m' \<and> dn_isResolved m'"
  shows "checkAllDependenciesMet g' n"
  using assms by (fastforce simp: checkAllDependenciesMet_def list_all_iff split: option.splits)

lemma check_set_resolved:
  "checkAllDependenciesMet g n \<Longrightarrow>
   checkAllDependenciesMet (AList.update x (m\<lparr>dn_isResolved := True\<rparr>) g) n"
  by (erule check_mono) auto

lemma visitDependent_eq:
  "visitDependent j st x s =
     (case get (snd s) x of
        None \<Rightarrow> s
      | Some n \<Rightarrow>
          if \<not> dn_isResolved n \<and> accepts j st n \<and> checkAllDependenciesMet (snd s) n
          then (fst s @ [x], AList.update x (n\<lparr>dn_isResolved := True\<rparr>) (snd s)) else s)"
  by (cases s) (auto simp: visitDependent_def accepts_def split: option.splits)

lemma visitDependent_cases:
  obtains (skip) "visitDependent j st x s = s"
      "\<And>n. get (snd s) x = Some n \<Longrightarrow> \<not> dn_isResolved n \<Longrightarrow>
        \<not> (accepts j st n \<and> checkAllDependenciesMet (snd s) n)"
  | (unblock) n where "get (snd s) x = Some n" "\<not> dn_isResolved n" "accepts j st n"
      "checkAllDependenciesMet (snd s) n"
      "visitDependent j st x s = (fst s @ [x], AList.update x (n\<lparr>dn_isResolved := True\<rparr>) (snd s))"
proof (cases "\<exists>n. get (snd s) x = Some n \<and> \<not> dn_isResolved n \<and> accepts j st n \<and>
    checkAllDependenciesMet (snd s) n")
  case True
  then obtain n where "get (snd s) x = Some n" "\<not> dn_isResolved n" "accepts j st n"
    "checkAllDependenciesMet (snd s) n" by blast
  then show thesis by (intro unblock [of n]) (simp_all add: visitDependent_eq)
next
  case False
  then have "visitDependent j st x s = s" by (auto simp: visitDependent_eq split: option.splits)
  with False show thesis by (intro skip) auto
qed

lemma visitDependent_inv:
  assumes inv: "loop_inv j st g seen s"
  shows "loop_inv j st g (seen @ [x]) (visitDependent j st x s)"
proof (cases rule: visitDependent_cases [of j st x s])
  case skip
  with inv show ?thesis by (auto simp: loop_inv_def)
next
  case (unblock n)
  have x: "x \<notin> set (fst s)" using inv unblock(1,2) by (force simp: loop_inv_def)
  then have gx: "get g x = Some n" using inv unblock(1) by (auto simp: loop_inv_def)
  have "\<exists>n'. get g y = Some n' \<and> \<not> dn_isResolved n' \<and> accepts j st n' \<and>
      checkAllDependenciesMet (AList.update x (n\<lparr>dn_isResolved := True\<rparr>) (snd s)) n' \<and>
      get (AList.update x (n\<lparr>dn_isResolved := True\<rparr>) (snd s)) y = Some (n'\<lparr>dn_isResolved := True\<rparr>)"
    if "y \<in> set (fst s @ [x])" for y
  proof (cases "y = x")
    case True
    with gx unblock check_set_resolved show ?thesis by auto
  next
    case False
    with that have "y \<in> set (fst s)" by simp
    with inv False check_set_resolved show ?thesis by (fastforce simp: loop_inv_def)
  qed
  with inv x show ?thesis unfolding unblock(5) by (auto simp: loop_inv_def)
qed

lemma fold_visitDependent_inv:
  "loop_inv j st g seen s \<Longrightarrow> loop_inv j st g (seen @ ds) (fold (visitDependent j st) ds s)"
proof (induction ds arbitrary: seen s)
  case (Cons d ds)
  from Cons.IH [OF visitDependent_inv [OF Cons.prems]] show ?case by simp
qed simp

lemma loop_inv_start: "loop_inv j st g [] ([], g)"
  by (simp add: loop_inv_def)

text \<open>Completeness: a dependent that is ready when the loop starts is unblocked.\<close>

lemma fold_visitDependent_keeps:
  "x \<in> set (fst s) \<Longrightarrow> x \<in> set (fst (fold (visitDependent j st) ds s))"
proof (induction ds arbitrary: s)
  case (Cons d ds)
  have "x \<in> set (fst (visitDependent j st d s))"
    by (cases rule: visitDependent_cases [of j st d s]) (use Cons.prems in auto)
  with Cons.IH show ?case by simp
qed simp

lemma fold_visitDependent_complete:
  assumes "loop_inv j st g seen s" and "x \<in> set ds"
    and "get g x = Some n" "\<not> dn_isResolved n" "accepts j st n" "checkAllDependenciesMet g n"
  shows "x \<in> set (fst (fold (visitDependent j st) ds s))"
  using assms(1,2)
proof (induction ds arbitrary: seen s)
  case (Cons d ds)
  have IH: "loop_inv j st g (seen @ [d]) (visitDependent j st d s)"
    by (rule visitDependent_inv [OF Cons.prems(1)])
  show ?case
  proof (cases "x = d \<and> x \<notin> set (fst s)")
    case True
    then have gx: "get (snd s) x = Some n" using Cons.prems(1) assms(3) by (auto simp: loop_inv_def)
    have "checkAllDependenciesMet (snd s) n"
      using Cons.prems(1)
      by (intro check_mono [OF assms(6)]) (fastforce simp: loop_inv_def)
    with gx assms(4,5) True have "x \<in> set (fst (visitDependent j st d s))"
      by (cases rule: visitDependent_cases [of j st d s]) auto
    with fold_visitDependent_keeps show ?thesis by simp
  next
    case False
    show ?thesis
    proof (cases "x \<in> set (fst s)")
      case True
      with fold_visitDependent_keeps [of x s j st "d # ds"] show ?thesis by simp
    next
      case notin: False
      with False Cons.prems(2) have "x \<in> set ds" by auto
      from Cons.IH [OF IH this] show ?thesis by simp
    qed
  qed
qed simp

lemma onJobStateChange_Some:
  assumes "get g jobId = Some node"
  shows "fst (onJobStateChange jobId st g) = fst (fold (visitDependent jobId st) (dn_dependents node) ([], g))"
    and "fst (snd (onJobStateChange jobId st g)) = snd (fold (visitDependent jobId st) (dn_dependents node) ([], g))"
  using assms by (simp_all add: onJobStateChange_def split: prod.splits)

lemma onJobStateChange_inv:
  assumes "get g jobId = Some node"
  shows "loop_inv jobId st g (dn_dependents node)
    (fst (onJobStateChange jobId st g), fst (snd (onJobStateChange jobId st g)))"
  using fold_visitDependent_inv [OF loop_inv_start, of jobId st g "dn_dependents node"]
  by (simp add: onJobStateChange_Some [OF assms])

abbreviation stateChanged :: "id \<Rightarrow> JobStatus \<Rightarrow> graph \<Rightarrow> graph" where
  "stateChanged jobId st g \<equiv> fst (snd (onJobStateChange jobId st g))"

text \<open>A state change only sets resolved flags.\<close>

lemma stateChanged_get:
  "get (stateChanged jobId st g) x =
     (if x \<in> set (fst (onJobStateChange jobId st g))
      then map_option (\<lambda>n. n\<lparr>dn_isResolved := True\<rparr>) (get g x) else get g x)"
proof (cases "get g jobId")
  case None
  then show ?thesis by (simp add: onJobStateChange_def)
next
  case (Some node)
  from onJobStateChange_inv [OF this, of st] show ?thesis by (fastforce simp: loop_inv_def)
qed

lemma keys_visitDependent: "distinct (keys (snd s)) \<Longrightarrow> distinct (keys (snd (visitDependent j st x s)))"
  by (auto simp: visitDependent_eq split: option.splits)

lemma keys_fold_visitDependent:
  "distinct (keys (snd s)) \<Longrightarrow> distinct (keys (snd (fold (visitDependent j st) ds s)))"
  by (induction ds arbitrary: s) (simp_all add: keys_visitDependent)

lemma keys_stateChanged: "distinct (keys g) \<Longrightarrow> distinct (keys (stateChanged jobId st g))"
  by (cases "get g jobId")
     (simp_all add: onJobStateChange_Some keys_fold_visitDependent, simp add: onJobStateChange_def)

lemma stateChanged_ok:
  assumes "graph_ok g"
  shows "graph_ok (stateChanged jobId st g)" and "linked g \<Longrightarrow> linked (stateChanged jobId st g)"
proof -
  show "graph_ok (stateChanged jobId st g)"
    using assms keys_stateChanged unfolding graph_ok_def stateChanged_get
    by (auto simp: node_ok_def split: if_splits)
  assume l: "linked g"
  show "linked (stateChanged jobId st g)"
    unfolding linked_def
  proof (intro allI impI)
    fix k n d assume "get (stateChanged jobId st g) k = Some n" "d \<in> set (dn_dependencies n)"
    then obtain n0 where "get g k = Some n0" "d \<in> set (dn_dependencies n0)"
      by (auto simp: stateChanged_get split: if_splits)
    with l obtain m where "get g (dep_jobId d) = Some m" "k \<in> set (dn_dependents m)"
      unfolding linked_def by blast
    then show "\<exists>m. get (stateChanged jobId st g) (dep_jobId d) = Some m \<and> k \<in> set (dn_dependents m)"
      by (auto simp: stateChanged_get)
  qed
qed

text \<open>The graphs a resolver can be in as long as no job is deregistered.\<close>

inductive resolver_reach :: "graph \<Rightarrow> bool" where
  new_resolver: "resolver_reach []"
| after_register: "resolver_reach g \<Longrightarrow> resolver_reach (register job g)"
| after_change: "resolver_reach g \<Longrightarrow> resolver_reach (stateChanged jobId st g)"

lemma resolver_reach_ok: "resolver_reach g \<Longrightarrow> graph_ok g \<and> linked g"
  by (induction rule: resolver_reach.induct)
     (auto simp: register_ok stateChanged_ok, auto simp: graph_ok_def linked_def)

section \<open>Properties\<close>

text \<open>
  C34. \<^verbatim>\<open>validateNoCycles\<close> terminates on every graph and throws exactly when a cycle of
  dependencies can be reached from the given jobs; the identifiers in the error are a
  closed walk along dependencies.
\<close>

theorem validateNoCycles_correct:
  "((\<exists>e. validateNoCycles g jobIds = Inl e) \<longleftrightarrow>
      (\<exists>x \<in> set jobIds. \<exists>y. (x, y) \<in> (edges g)\<^sup>* \<and> (y, y) \<in> (edges g)\<^sup>+)) \<and>
   (\<forall>c. validateNoCycles g jobIds = Inl (CircularDependency c) \<longrightarrow>
      2 \<le> length c \<and> hd c = last c \<and> successively (\<lambda>x y. y \<in> set (deps_of g x)) c)"
proof -
  have fin: "finished g (set [])" by (simp add: finished_def)
  note V = validateFrom_correct [OF fin, of jobIds, folded validateNoCycles_def]
  show ?thesis
  proof (cases "validateNoCycles g jobIds")
    case (Inr u)
    with V show ?thesis by (auto simp: on_cycle_def)
  next
    case (Inl e)
    then obtain c where c: "validateNoCycles g jobIds = Inl (CircularDependency c)" by (cases e) auto
    with V have "is_cycle g c" "\<exists>x \<in> set jobIds. (x, hd c) \<in> (edges g)\<^sup>*" by auto
    with c cycle_on_cycle [of g c] show ?thesis
      by (auto simp: is_cycle_def walk_def on_cycle_def)
  qed
qed

theorem validateNoCycles_correct_witness:
  "\<exists>c. validateNoCycles [(''a'', \<lparr>dn_jobId = ''a'', dn_dependencies = [completed_dep ''a''],
      dn_dependents = [''a''], dn_isResolved = False\<rparr>)] [''a''] = Inl (CircularDependency c) \<and>
    2 \<le> length c"
proof -
  let ?g = "[(''a'', \<lparr>dn_jobId = ''a'', dn_dependencies = [completed_dep ''a''],
      dn_dependents = [''a''], dn_isResolved = False\<rparr>)]"
  have "(''a'', ''a'') \<in> edges ?g" by (simp add: deps_of_def completed_dep_def)
  then have "(''a'', ''a'') \<in> (edges ?g)\<^sup>+" by (rule r_into_trancl)
  then obtain e where e: "validateNoCycles ?g [''a''] = Inl e"
    using validateNoCycles_correct [of ?g "[''a'']"] by auto
  moreover obtain c where "e = CircularDependency c" by (cases e)
  ultimately show ?thesis using validateNoCycles_correct [of ?g "[''a'']"] by auto
qed

text \<open>
  C35. If \<^verbatim>\<open>validateNoCycles\<close> accepts the given jobs, \<^verbatim>\<open>topologicalSort\<close> lists, without
  repetition, exactly the jobs they depend on directly or indirectly, every job after
  all of its dependencies.
\<close>

theorem topologicalSort_correct:
  assumes "validateNoCycles g jobIds = Inr ()"
  shows "distinct (topologicalSort g jobIds) \<and>
    set (topologicalSort g jobIds) = (edges g)\<^sup>* `` set jobIds \<and>
    (\<forall>i < length (topologicalSort g jobIds).
       set (deps_of g (topologicalSort g jobIds ! i)) \<subseteq> set (take i (topologicalSort g jobIds)))"
proof -
  have fin: "finished g (set [])" by (simp add: finished_def)
  have safe: "\<forall>x \<in> set jobIds. \<forall>y. (x, y) \<in> (edges g)\<^sup>* \<longrightarrow> \<not> on_cycle g y"
    using validateFrom_correct [OF fin, of jobIds] assms by (simp add: validateNoCycles_def)
  obtain v out where v: "visit g jobIds ([], []) = (v, out)" by (cases "visit g jobIds ([], [])")
  from visit_correct [OF v] safe
  have out: "distinct out" "topo g out" "set jobIds \<subseteq> set out"
      "\<forall>y \<in> set out. \<exists>x \<in> set jobIds. (x, y) \<in> (edges g)\<^sup>*"
    by auto
  then have "set out = (edges g)\<^sup>* `` set jobIds" using topo_closed by fastforce
  with v out show ?thesis by (simp add: topologicalSort_def topo_def)
qed

theorem topologicalSort_correct_witness:
  "\<exists>g. validateNoCycles g [''b'', ''a''] = Inr () \<and> distinct (topologicalSort g [''b'', ''a''])"
proof -
  let ?g = "register (sample_job ''b'' [completed_dep ''a'']) (register (sample_job ''a'' []) [])"
  have "validateNoCycles ?g [''b'', ''a''] = Inr ()" by code_simp
  from this topologicalSort_correct [OF this] show ?thesis by blast
qed





text \<open>
  A dependency counts as met as soon as its node is marked as resolved, that is, as
  soon as it is free to start, whether or not it has run. So a job that waits for two
  jobs without dependencies of their own is released when the first of them reaches an
  accepted status, and the completion of the second releases nothing.
\<close>

theorem released_by_first_dependency:
  assumes "distinct [a1, a2, b]"
    and "j_id A1 = a1" and "j_dependencies A1 = []"
    and "j_id A2 = a2" and "j_dependencies A2 = []"
    and "j_id B = b"
    and "j_dependencies B = [\<lparr>dep_jobId = a1, dep_requireStatus = rs1\<rparr>,
                              \<lparr>dep_jobId = a2, dep_requireStatus = rs2\<rparr>]"
    and "st \<in> set rs1"
  shows "let g = register B (register A2 (register A1 [])) in
    fst (onJobStateChange a1 st g) = [b] \<and>
    fst (onJobStateChange a2 st' (fst (snd (onJobStateChange a1 st g)))) = []"
proof -
  let ?g = "register B (register A2 (register A1 []))"
  have g: "get ?g a1 = Some \<lparr>dn_jobId = a1, dn_dependencies = [], dn_dependents = [b], dn_isResolved = True\<rparr>"
    "get ?g a2 = Some \<lparr>dn_jobId = a2, dn_dependencies = [], dn_dependents = [b], dn_isResolved = True\<rparr>"
    "get ?g b = Some \<lparr>dn_jobId = b, dn_dependencies = j_dependencies B, dn_dependents = [],
       dn_isResolved = False\<rparr>"
    using assms by (auto simp: register_def get_registerEdge get_registerNode add_dependent_def)
  have first: "fst (onJobStateChange a1 st ?g) = [b]"
    using assms g by (simp add: onJobStateChange_Some [OF g(1)] visitDependent_eq accepts_def
        checkAllDependenciesMet_def)
  let ?g' = "stateChanged a1 st ?g"
  have g': "get ?g' a2 = Some \<lparr>dn_jobId = a2, dn_dependencies = [], dn_dependents = [b], dn_isResolved = True\<rparr>"
    "\<exists>n. get ?g' b = Some n \<and> dn_isResolved n"
    using first g assms(1) by (auto simp: stateChanged_get)
  have "fst (onJobStateChange a2 st' ?g') = []"
    using g'(2) by (auto simp: onJobStateChange_Some [OF g'(1)] visitDependent_eq)
  with first show ?thesis by (simp add: Let_def)
qed

theorem released_by_first_dependency_witness:
  "fst (onJobStateChange ''a1'' COMPLETED
     (register (sample_job ''b'' [completed_dep ''a1'', completed_dep ''a2''])
       (register (sample_job ''a2'' []) (register (sample_job ''a1'' []) [])))) = [''b'']"
  using released_by_first_dependency [of "''a1''" "''a2''" "''b''" "sample_job ''a1'' []"
      "sample_job ''a2'' []" "sample_job ''b'' [completed_dep ''a1'', completed_dep ''a2'']"
      "[COMPLETED]" "[COMPLETED]" COMPLETED]
  by (simp add: sample_job_def completed_dep_def Let_def)

text \<open>
  Registering a job whose identifier already has a node, as a placeholder created by a
  dependent registered earlier, leaves the dependencies and the resolved flag of that
  node as they were: the dependencies of the job are not recorded. Two jobs that depend
  on each other therefore pass \<^verbatim>\<open>validateNoCycles\<close>.
\<close>

theorem register_ignores_known_job:
  assumes "get g (j_id job) = Some n"
    and "a \<noteq> b"
    and "j_id A = a" and "j_dependencies A = [\<lparr>dep_jobId = b, dep_requireStatus = rs\<rparr>]"
    and "j_id B = b" and "j_dependencies B = [\<lparr>dep_jobId = a, dep_requireStatus = rs'\<rparr>]"
  shows "(\<exists>n'. get (register job g) (j_id job) = Some n' \<and>
            dn_dependencies n' = dn_dependencies n \<and> dn_isResolved n' = dn_isResolved n) \<and>
    validateNoCycles (register B (register A [])) [a, b] = Inr ()"
proof
  have "get (registerNode job g) (j_id job) = Some n" using assms(1) by (simp add: get_registerNode)
  from edges_keep_core [OF this, of "j_id job" "j_dependencies job"]
  show "\<exists>n'. get (register job g) (j_id job) = Some n' \<and>
          dn_dependencies n' = dn_dependencies n \<and> dn_isResolved n' = dn_isResolved n"
    by (auto simp: register_def same_core_def)
next
  let ?g = "register B (register A [])"
  have "deps_of ?g a = [b]" "deps_of ?g b = []"
    using assms(2-6)
    by (auto simp: deps_of_def register_def get_registerEdge get_registerNode add_dependent_def
        placeholder_def)
  with assms(2) show "validateNoCycles ?g [a, b] = Inr ()" by (simp add: validateNoCycles_def)
qed

theorem register_ignores_known_job_witness:
  "validateNoCycles (register (sample_job ''b'' [completed_dep ''a''])
     (register (sample_job ''a'' [completed_dep ''b'']) [])) [''a'', ''b''] = Inr ()"
  using register_ignores_known_job [of "register (sample_job ''a'' []) []" "sample_job ''a'' []"
      "\<lparr>dn_jobId = ''a'', dn_dependencies = [], dn_dependents = [], dn_isResolved = True\<rparr>"
      "''a''" "''b''" "sample_job ''a'' [completed_dep ''b'']" "[COMPLETED]"
      "sample_job ''b'' [completed_dep ''a'']" "[COMPLETED]"]
  by (simp add: sample_job_def completed_dep_def register_def get_registerNode)

end
