(* ===== verification/DistributedLock.thy ===== *)
theory DistributedLock
  imports Prelude
begin

text \<open>
  \<^verbatim>\<open>src/distributed/DistributedLock.ts\<close>: a lock with a token and a time to live, kept in
  Redis, and each process's own map of the locks it believes to hold. Redis is an argument:
  the record \<open>Redis\<close> has the commands the sources send, over an arbitrary type of
  server states, and \<open>redis_ok\<close> states their documented meaning through the value
  and the instant of expiry of a key (\<^verbatim>\<open>GET\<close>, \<^verbatim>\<open>PEXPIRETIME\<close>). Lua scripts run
  atomically, so they are compositions of commands. A call that cannot reach the server is
  an \<open>Inl\<close>. Each call has two clocks: the server's when the command runs and the client's
  when the reply arrives.
\<close>

section \<open>Redis\<close>

record 'r Redis =
  r_down :: "time \<Rightarrow> 'r \<Rightarrow> string option"
  r_entry :: "string \<Rightarrow> 'r \<Rightarrow> (string \<times> time) option"
  r_get :: "time \<Rightarrow> string \<Rightarrow> 'r \<Rightarrow> string option"
  r_setNX :: "time \<Rightarrow> string \<Rightarrow> string \<Rightarrow> int \<Rightarrow> 'r \<Rightarrow> bool \<times> 'r"
  r_pexpire :: "time \<Rightarrow> string \<Rightarrow> int \<Rightarrow> 'r \<Rightarrow> bool \<times> 'r"
  r_del :: "time \<Rightarrow> string \<Rightarrow> 'r \<Rightarrow> 'r"

definition redis_ok :: "'r Redis \<Rightarrow> bool" where
  "redis_ok R \<longleftrightarrow>
     (\<forall>now k r. r_get R now k r =
        (case r_entry R k r of None \<Rightarrow> None | Some (v, e) \<Rightarrow> if now < e then Some v else None)) \<and>
     (\<forall>now k v ttl r k'. 0 < ttl \<longrightarrow>
        (fst (r_setNX R now k v ttl r) \<longleftrightarrow> r_get R now k r = None) \<and>
        r_entry R k' (snd (r_setNX R now k v ttl r)) =
          (if k' = k \<and> r_get R now k r = None then Some (v, now + ttl) else r_entry R k' r)) \<and>
     (\<forall>now k ttl r k'. 0 < ttl \<longrightarrow>
        (fst (r_pexpire R now k ttl r) \<longleftrightarrow> r_get R now k r \<noteq> None) \<and>
        r_entry R k' (snd (r_pexpire R now k ttl r)) =
          (if k' = k then (case r_get R now k r of None \<Rightarrow> r_entry R k r | Some v \<Rightarrow> Some (v, now + ttl))
           else r_entry R k' r)) \<and>
     (\<forall>now k r k'. r_entry R k' (r_del R now k r) = (if k' = k then None else r_entry R k' r))"

section \<open>The lock\<close>

record LockEntry =
  le_token :: string
  le_expiresAt :: time

type_synonym locks = "(string \<times> LockEntry) list"

definition lockKey :: "string \<Rightarrow> string \<Rightarrow> string" where
  "lockKey keyPrefix resource = keyPrefix @ ''lock:'' @ resource"

definition tryAcquire ::
  "'r Redis \<Rightarrow> string \<Rightarrow> string \<Rightarrow> time \<Rightarrow> time \<Rightarrow> string \<Rightarrow> int \<Rightarrow> locks \<times> 'r \<Rightarrow>
   string + bool \<times> locks \<times> 'r" where
  "tryAcquire R prefix token srv cli resource ttlMs st =
     (case r_down R srv (snd st) of
        Some err \<Rightarrow> Inl err
      | None \<Rightarrow>
          (let (acquired, r) = r_setNX R srv (lockKey prefix resource) token ttlMs (snd st)
           in Inr (acquired,
                if acquired
                then AList.update resource \<lparr>le_token = token, le_expiresAt = cli + ttlMs\<rparr> (fst st)
                else fst st, r)))"

definition renewScript :: "'r Redis \<Rightarrow> time \<Rightarrow> string \<Rightarrow> string \<Rightarrow> int \<Rightarrow> 'r \<Rightarrow> bool \<times> 'r" where
  "renewScript R srv key token ttlMs r =
     (if r_get R srv key r = Some token then r_pexpire R srv key ttlMs r else (False, r))"

definition renew ::
  "'r Redis \<Rightarrow> string \<Rightarrow> time \<Rightarrow> time \<Rightarrow> string \<Rightarrow> int \<Rightarrow> locks \<times> 'r \<Rightarrow> string + bool \<times> locks \<times> 'r" where
  "renew R prefix srv cli resource ttlMs st =
     (case map_of (fst st) resource of
        None \<Rightarrow> Inr (False, st)
      | Some entry \<Rightarrow>
          (case r_down R srv (snd st) of
             Some err \<Rightarrow> Inl err
           | None \<Rightarrow>
               (let (renewed, r) = renewScript R srv (lockKey prefix resource) (le_token entry) ttlMs (snd st)
                in Inr (renewed,
                     if renewed then AList.update resource (entry\<lparr>le_expiresAt := cli + ttlMs\<rparr>) (fst st)
                     else AList.delete resource (fst st), r))))"

definition releaseScript :: "'r Redis \<Rightarrow> time \<Rightarrow> string \<Rightarrow> string \<Rightarrow> 'r \<Rightarrow> 'r" where
  "releaseScript R srv key token r =
     (if r_get R srv key r = Some token then r_del R srv key r else r)"

definition release :: "'r Redis \<Rightarrow> string \<Rightarrow> time \<Rightarrow> string \<Rightarrow> locks \<times> 'r \<Rightarrow> string + locks \<times> 'r" where
  "release R prefix srv resource st =
     (case map_of (fst st) resource of
        None \<Rightarrow> Inr st
      | Some entry \<Rightarrow>
          (case r_down R srv (snd st) of
             Some err \<Rightarrow> Inl err
           | None \<Rightarrow> Inr (AList.delete resource (fst st),
               releaseScript R srv (lockKey prefix resource) (le_token entry) (snd st))))"

text \<open>
  \<^verbatim>\<open>withLock\<close>: the callback works on a state \<open>w\<close> of its own and may throw; \<open>srv2\<close> is
  the instant of the release. An error of the release replaces the callback's outcome.
\<close>

definition withLock ::
  "'r Redis \<Rightarrow> string \<Rightarrow> string \<Rightarrow> time \<Rightarrow> time \<Rightarrow> time \<Rightarrow> string \<Rightarrow> int \<Rightarrow>
   ('w \<Rightarrow> (string + 'a) \<times> 'w) \<Rightarrow> (locks \<times> 'r) \<times> 'w \<Rightarrow> (string + 'a option) \<times> (locks \<times> 'r) \<times> 'w" where
  "withLock R prefix token srv cli srv2 resource ttlMs fn st =
     (case tryAcquire R prefix token srv cli resource ttlMs (fst st) of
        Inl err \<Rightarrow> (Inl err, st)
      | Inr (False, ls) \<Rightarrow> (Inr None, ls, snd st)
      | Inr (True, ls) \<Rightarrow>
          (let (res, w) = fn (snd st)
           in case release R prefix srv2 resource ls of
                Inl err \<Rightarrow> (Inl err, ls, w)
              | Inr ls' \<Rightarrow> (map_sum id Some res, ls', w)))"

definition isHeld :: "locks \<Rightarrow> time \<Rightarrow> string \<Rightarrow> bool" where
  "isHeld ls now resource =
     (case map_of ls resource of None \<Rightarrow> False | Some entry \<Rightarrow> now < le_expiresAt entry)"

section \<open>A Redis server that satisfies the assumptions\<close>

type_synonym mem = "(string \<times> string \<times> time) list"

definition memGet :: "time \<Rightarrow> string \<Rightarrow> mem \<Rightarrow> string option" where
  "memGet now k r = (case map_of r k of None \<Rightarrow> None | Some (v, e) \<Rightarrow> if now < e then Some v else None)"

definition memRedis :: "mem Redis" where
  "memRedis =
     \<lparr>r_down = (\<lambda>now r. None), r_entry = (\<lambda>k r. map_of r k), r_get = memGet,
      r_setNX = (\<lambda>now k v ttl r. if memGet now k r = None
        then (True, AList.update k (v, now + ttl) r) else (False, r)),
      r_pexpire = (\<lambda>now k ttl r. case memGet now k r of
          None \<Rightarrow> (False, r) | Some v \<Rightarrow> (True, AList.update k (v, now + ttl) r)),
      r_del = (\<lambda>now k r. AList.delete k r)\<rparr>"

lemma memRedis_ok: "redis_ok memRedis"
  unfolding redis_ok_def memRedis_def by (simp add: memGet_def split: option.splits)

section \<open>Laws used below\<close>

lemma redis_get:
  "redis_ok R \<Longrightarrow> r_get R now k r =
     (case r_entry R k r of None \<Rightarrow> None | Some (v, e) \<Rightarrow> if now < e then Some v else None)"
  unfolding redis_ok_def by blast

lemma redis_setNX:
  assumes "redis_ok R" "0 < ttl"
  shows "fst (r_setNX R now k v ttl r) \<longleftrightarrow> r_get R now k r = None"
    and "r_entry R k' (snd (r_setNX R now k v ttl r)) =
      (if k' = k \<and> r_get R now k r = None then Some (v, now + ttl) else r_entry R k' r)"
  using assms unfolding redis_ok_def by blast+

lemma redis_pexpire:
  assumes "redis_ok R" "0 < ttl"
  shows "fst (r_pexpire R now k ttl r) \<longleftrightarrow> r_get R now k r \<noteq> None"
    and "r_entry R k' (snd (r_pexpire R now k ttl r)) =
      (if k' = k then (case r_get R now k r of None \<Rightarrow> r_entry R k r | Some v \<Rightarrow> Some (v, now + ttl))
       else r_entry R k' r)"
  using assms unfolding redis_ok_def by blast+

lemma redis_del: "redis_ok R \<Longrightarrow> r_entry R k' (r_del R now k r) = (if k' = k then None else r_entry R k' r)"
  unfolding redis_ok_def by blast

lemma lockKey_inj [simp]: "lockKey p x = lockKey p y \<longleftrightarrow> x = y"
  by (simp add: lockKey_def)

text \<open>The scripts act on the key only for the owner of the stored token.\<close>

lemma renewScript_eq:
  assumes "redis_ok R" "0 < ttl"
  shows "fst (renewScript R now k tok ttl r) \<longleftrightarrow> r_get R now k r = Some tok"
    and "r_entry R k' (snd (renewScript R now k tok ttl r)) =
      (if k' = k \<and> r_get R now k r = Some tok then Some (tok, now + ttl) else r_entry R k' r)"
  using redis_pexpire [OF assms, where now = now and k = k and r = r] by (auto simp: renewScript_def)

lemma releaseScript_eq:
  "redis_ok R \<Longrightarrow> r_entry R k' (releaseScript R now k tok r) =
     (if k' = k \<and> r_get R now k r = Some tok then None else r_entry R k' r)"
  by (simp add: releaseScript_def redis_del)

section \<open>Processes that share a server\<close>

record 'r lock_sys =
  sy_now :: time
  sy_redis :: 'r
  sy_locks :: "nat \<Rightarrow> locks"
  sy_used :: "string set"

text \<open>
  Every process runs the operations above at any time, with replies that take at most
  \<open>delta\<close>. Tokens are fresh, as \<^verbatim>\<open>uuidv4\<close> makes them. A reply can be lost after the
  server has executed the command (\<open>lost\<close>); then the client has no entry.
\<close>

inductive lock_reach :: "'r Redis \<Rightarrow> string \<Rightarrow> int \<Rightarrow> 'r lock_sys \<Rightarrow> bool" for R prefix delta where
  init: "(\<And>k v e. r_entry R k r = Some (v, e) \<Longrightarrow> v \<in> used) \<Longrightarrow>
    lock_reach R prefix delta \<lparr>sy_now = t, sy_redis = r, sy_locks = (\<lambda>_. []), sy_used = used\<rparr>"
| tick: "lock_reach R prefix delta s \<Longrightarrow> sy_now s \<le> t \<Longrightarrow> lock_reach R prefix delta (s\<lparr>sy_now := t\<rparr>)"
| acquire: "lock_reach R prefix delta s \<Longrightarrow> token \<notin> sy_used s \<Longrightarrow> 0 < ttl \<Longrightarrow> d \<le> delta \<Longrightarrow>
    tryAcquire R prefix token (sy_now s) (sy_now s + d) resource ttl (sy_locks s p, sy_redis s) = Inr (b, ls, r) \<Longrightarrow>
    lock_reach R prefix delta (s\<lparr>sy_redis := r, sy_locks := (sy_locks s)(p := ls), sy_used := insert token (sy_used s)\<rparr>)"
| lost: "lock_reach R prefix delta s \<Longrightarrow> token \<notin> sy_used s \<Longrightarrow> 0 < ttl \<Longrightarrow>
    tryAcquire R prefix token (sy_now s) (sy_now s) resource ttl (sy_locks s p, sy_redis s) = Inr (b, ls, r) \<Longrightarrow>
    lock_reach R prefix delta (s\<lparr>sy_redis := r, sy_used := insert token (sy_used s)\<rparr>)"
| renew: "lock_reach R prefix delta s \<Longrightarrow> 0 < ttl \<Longrightarrow> d \<le> delta \<Longrightarrow>
    renew R prefix (sy_now s) (sy_now s + d) resource ttl (sy_locks s p, sy_redis s) = Inr (b, ls, r) \<Longrightarrow>
    lock_reach R prefix delta (s\<lparr>sy_redis := r, sy_locks := (sy_locks s)(p := ls)\<rparr>)"
| release: "lock_reach R prefix delta s \<Longrightarrow>
    release R prefix (sy_now s) resource (sy_locks s p, sy_redis s) = Inr (ls, r) \<Longrightarrow>
    lock_reach R prefix delta (s\<lparr>sy_redis := r, sy_locks := (sy_locks s)(p := ls)\<rparr>)"

text \<open>
  The invariant: tokens in use are known and belong to one process, and an entry that has
  more than \<open>delta\<close> to run is backed by the server for at least the rest of that time.
\<close>

definition backed :: "'r Redis \<Rightarrow> string \<Rightarrow> int \<Rightarrow> time \<Rightarrow> 'r \<Rightarrow> string \<Rightarrow> LockEntry \<Rightarrow> bool" where
  "backed R prefix delta now r resource en \<longleftrightarrow>
     (now + delta < le_expiresAt en \<longrightarrow>
       (\<exists>e. r_entry R (lockKey prefix resource) r = Some (le_token en, e) \<and> le_expiresAt en \<le> e + delta))"

definition lock_inv :: "'r Redis \<Rightarrow> string \<Rightarrow> int \<Rightarrow> 'r lock_sys \<Rightarrow> bool" where
  "lock_inv R prefix delta s \<longleftrightarrow>
     (\<forall>k v e. r_entry R k (sy_redis s) = Some (v, e) \<longrightarrow> v \<in> sy_used s) \<and>
     (\<forall>p res en. map_of (sy_locks s p) res = Some en \<longrightarrow>
        le_token en \<in> sy_used s \<and> backed R prefix delta (sy_now s) (sy_redis s) res en) \<and>
     (\<forall>p q res en en'. map_of (sy_locks s p) res = Some en \<longrightarrow> map_of (sy_locks s q) res = Some en' \<longrightarrow>
        le_token en = le_token en' \<longrightarrow> p = q)"

lemma backed_live:
  assumes "redis_ok R" "backed R prefix delta now r res en" "now + delta < le_expiresAt en"
  shows "r_get R now (lockKey prefix res) r = Some (le_token en)"
  using assms by (auto simp: backed_def redis_get)

text \<open>Entries stay backed when time passes, and when a command leaves their key alone.\<close>

lemma backed_later: "backed R prefix delta now r res en \<Longrightarrow> now \<le> t \<Longrightarrow> backed R prefix delta t r res en"
  by (auto simp: backed_def)

lemma backed_frame:
  assumes "redis_ok R" "backed R prefix delta now r res en"
    and "r_get R now (lockKey prefix res) r = Some (le_token en) \<Longrightarrow>
      r_entry R (lockKey prefix res) r' = r_entry R (lockKey prefix res) r"
  shows "backed R prefix delta now r' res en"
  using assms backed_live [OF assms(1,2)] by (auto simp: backed_def)

text \<open>
  One step changes the entry of one process for one resource (to \<open>x\<close>) and the server's
  entry of the resource (to \<open>y\<close>). The invariant is kept if the server's entry stays as it is
  while another process is backed by it.
\<close>

lemma lock_inv_change:
  assumes R: "redis_ok R" and inv: "lock_inv R prefix delta s"
    and now: "sy_now s' = sy_now s" and used: "sy_used s \<subseteq> sy_used s'"
    and look: "\<And>q res. map_of (sy_locks s' q) res =
      (if q = p \<and> res = resource then x else map_of (sy_locks s q) res)"
    and entry: "\<And>k. r_entry R k (sy_redis s') =
      (if k = lockKey prefix resource then y else r_entry R k (sy_redis s))"
    and y: "\<And>v e. y = Some (v, e) \<Longrightarrow> v \<in> sy_used s'"
    and x: "\<And>en. x = Some en \<Longrightarrow> le_token en \<in> sy_used s' \<and>
      backed R prefix delta (sy_now s) (sy_redis s') resource en \<and>
      (\<forall>q en'. q \<noteq> p \<longrightarrow> map_of (sy_locks s q) resource = Some en' \<longrightarrow> le_token en' \<noteq> le_token en)"
    and quiet: "\<And>q en. q \<noteq> p \<Longrightarrow> map_of (sy_locks s q) resource = Some en \<Longrightarrow>
      r_get R (sy_now s) (lockKey prefix resource) (sy_redis s) = Some (le_token en) \<Longrightarrow>
      y = r_entry R (lockKey prefix resource) (sy_redis s)"
  shows "lock_inv R prefix delta s'"
proof -
  have old: "le_token en \<in> sy_used s'" "backed R prefix delta (sy_now s) (sy_redis s) res en"
    if "map_of (sy_locks s q) res = Some en" for q res en
    using inv used that unfolding lock_inv_def by blast+
  have "v \<in> sy_used s'" if "r_entry R k (sy_redis s') = Some (v, e)" for k v e
    using that y used inv unfolding entry lock_inv_def by (metis subsetD)
  moreover have "le_token en \<in> sy_used s' \<and> backed R prefix delta (sy_now s') (sy_redis s') res en"
    if en: "map_of (sy_locks s' q) res = Some en" for q res en
  proof (cases "q = p \<and> res = resource")
    case True
    with en x now show ?thesis by (simp add: look)
  next
    case False
    with en have en': "map_of (sy_locks s q) res = Some en" by (simp add: look)
    have "r_entry R (lockKey prefix res) (sy_redis s') = r_entry R (lockKey prefix res) (sy_redis s)"
      if "r_get R (sy_now s) (lockKey prefix res) (sy_redis s) = Some (le_token en)"
      using False en' that quiet [of q en] by (auto simp: entry)
    with backed_frame [OF R old(2) [OF en']] old(1) [OF en'] now show ?thesis by simp
  qed
  moreover have "q = q'"
    if "map_of (sy_locks s' q) res = Some en" "map_of (sy_locks s' q') res = Some en'" "le_token en = le_token en'"
    for q q' res en en'
  proof -
    have "q = q'" if "q \<noteq> p \<or> res \<noteq> resource" "q' \<noteq> p \<or> res \<noteq> resource"
      using that \<open>map_of (sy_locks s' q) res = Some en\<close> \<open>map_of (sy_locks s' q') res = Some en'\<close>
        \<open>le_token en = le_token en'\<close> inv unfolding look lock_inv_def by meson
    with that x [of en] x [of en'] show ?thesis unfolding look by metis
  qed
  ultimately show ?thesis unfolding lock_inv_def by blast
qed

lemma tryAcquire_Inr:
  assumes "redis_ok R" "0 < ttl"
    and "tryAcquire R prefix token srv cli resource ttl (ls, r) = Inr (b, ls', r')"
  shows "b \<longleftrightarrow> r_get R srv (lockKey prefix resource) r = None"
    and "ls' = (if b then AList.update resource \<lparr>le_token = token, le_expiresAt = cli + ttl\<rparr> ls else ls)"
    and "r_entry R k r' = (if k = lockKey prefix resource \<and> b then Some (token, srv + ttl) else r_entry R k r)"
proof -
  have r': "(b, r') = r_setNX R srv (lockKey prefix resource) token ttl r"
    and "ls' = (if b then AList.update resource \<lparr>le_token = token, le_expiresAt = cli + ttl\<rparr> ls else ls)"
    using assms(3) by (auto simp: tryAcquire_def split: option.splits prod.splits)
  then show "ls' = (if b then AList.update resource \<lparr>le_token = token, le_expiresAt = cli + ttl\<rparr> ls else ls)" by simp
  show b: "b \<longleftrightarrow> r_get R srv (lockKey prefix resource) r = None"
    using redis_setNX(1) [OF assms(1,2), of srv "lockKey prefix resource" token r] by (simp flip: r')
  show "r_entry R k r' = (if k = lockKey prefix resource \<and> b then Some (token, srv + ttl) else r_entry R k r)"
    using redis_setNX(2) [OF assms(1,2), of k srv "lockKey prefix resource" token r] by (simp add: b flip: r')
qed

lemma renew_Inr:
  assumes "redis_ok R" "0 < ttl" "map_of ls resource = Some en"
    and "renew R prefix srv cli resource ttl (ls, r) = Inr (b, ls', r')"
  shows "b \<longleftrightarrow> r_get R srv (lockKey prefix resource) r = Some (le_token en)"
    and "ls' = (if b then AList.update resource (en\<lparr>le_expiresAt := cli + ttl\<rparr>) ls else AList.delete resource ls)"
    and "r_entry R k r' = (if k = lockKey prefix resource \<and> b then Some (le_token en, srv + ttl) else r_entry R k r)"
proof -
  have r': "(b, r') = renewScript R srv (lockKey prefix resource) (le_token en) ttl r"
    and "ls' = (if b then AList.update resource (en\<lparr>le_expiresAt := cli + ttl\<rparr>) ls else AList.delete resource ls)"
    using assms(3,4) by (auto simp: renew_def split: option.splits prod.splits)
  then show "ls' = (if b then AList.update resource (en\<lparr>le_expiresAt := cli + ttl\<rparr>) ls else AList.delete resource ls)" by simp
  show b: "b \<longleftrightarrow> r_get R srv (lockKey prefix resource) r = Some (le_token en)"
    using renewScript_eq(1) [OF assms(1,2), of srv "lockKey prefix resource" "le_token en" r] by (simp flip: r')
  show "r_entry R k r' = (if k = lockKey prefix resource \<and> b then Some (le_token en, srv + ttl) else r_entry R k r)"
    using renewScript_eq(2) [OF assms(1,2), of k srv "lockKey prefix resource" "le_token en" r] by (simp add: b flip: r')
qed


lemma lock_inv_acquire:
  assumes R: "redis_ok R" and inv: "lock_inv R prefix delta s" and tok: "token \<notin> sy_used s"
    and ttl: "0 < ttl" "d \<le> delta"
    and run: "tryAcquire R prefix token (sy_now s) (sy_now s + d) resource ttl (sy_locks s p, sy_redis s) = Inr (b, ls, r)"
  shows "lock_inv R prefix delta
    (s\<lparr>sy_redis := r, sy_locks := (sy_locks s)(p := ls), sy_used := insert token (sy_used s)\<rparr>)"
    (is "lock_inv R prefix delta ?s")
proof -
  note facts = tryAcquire_Inr [OF R ttl(1) run]
  show ?thesis
  proof (cases b)
    case False
    then have "ls = sy_locks s p" "r_entry R k r = r_entry R k (sy_redis s)" for k
      using facts(2,3) False by simp_all
    then show ?thesis using inv by (simp add: lock_inv_def backed_def)
  next
    case True
    let ?en = "\<lparr>le_token = token, le_expiresAt = sy_now s + d + ttl\<rparr>"
    have old: "le_token en \<noteq> token" if "map_of (sy_locks s q) res = Some en" for q res en
      using inv tok that unfolding lock_inv_def by blast
    have "backed R prefix delta (sy_now s) r resource ?en"
      using facts(3) True ttl(2) by (simp add: backed_def)
    with R inv old facts True show ?thesis
      by (intro lock_inv_change [of R prefix delta s ?s p resource "Some ?en" "Some (token, sy_now s + ttl)"])
         auto
  qed
qed

lemma lock_inv_lost:
  assumes R: "redis_ok R" and inv: "lock_inv R prefix delta s" and ttl: "0 < ttl"
    and run: "tryAcquire R prefix token (sy_now s) (sy_now s) resource ttl (sy_locks s p, sy_redis s) = Inr (b, ls, r)"
  shows "lock_inv R prefix delta (s\<lparr>sy_redis := r, sy_used := insert token (sy_used s)\<rparr>)"
    (is "lock_inv R prefix delta ?s")
proof -
  note facts = tryAcquire_Inr [OF R ttl run]
  have known: "v \<in> sy_used s" if "r_entry R k (sy_redis s) = Some (v, e)" for k v e
    using inv that unfolding lock_inv_def by blast
  have mine: "le_token en \<in> sy_used s" "backed R prefix delta (sy_now s) (sy_redis s) resource en"
      "\<forall>q en'. q \<noteq> p \<longrightarrow> map_of (sy_locks s q) resource = Some en' \<longrightarrow> le_token en' \<noteq> le_token en"
    if "map_of (sy_locks s p) resource = Some en" for en
    using inv that unfolding lock_inv_def by blast+
  have "backed R prefix delta (sy_now s) r resource en" if "map_of (sy_locks s p) resource = Some en" for en
    by (rule backed_frame [OF R mine(2) [OF that]]) (use facts(1,3) in auto)
  with R inv mine known facts show ?thesis
    by (intro lock_inv_change [of R prefix delta s ?s p resource "map_of (sy_locks s p) resource"
          "if b then Some (token, sy_now s + ttl) else r_entry R (lockKey prefix resource) (sy_redis s)"])
       (auto split: if_splits)
qed

lemma lock_inv_renew:
  assumes R: "redis_ok R" and inv: "lock_inv R prefix delta s" and ttl: "0 < ttl" "d \<le> delta"
    and run: "renew R prefix (sy_now s) (sy_now s + d) resource ttl (sy_locks s p, sy_redis s) = Inr (b, ls, r)"
  shows "lock_inv R prefix delta (s\<lparr>sy_redis := r, sy_locks := (sy_locks s)(p := ls)\<rparr>)"
    (is "lock_inv R prefix delta ?s")
proof (cases "map_of (sy_locks s p) resource")
  case None
  then have "ls = sy_locks s p" "r = sy_redis s" using run by (auto simp: renew_def)
  with inv show ?thesis by (simp add: lock_inv_def)
next
  case (Some en0)
  note facts = renew_Inr [OF R ttl(1) Some run]
  let ?en = "en0\<lparr>le_expiresAt := sy_now s + d + ttl\<rparr>"
  have known: "v \<in> sy_used s" if "r_entry R k (sy_redis s) = Some (v, e)" for k v e
    using inv that unfolding lock_inv_def by blast
  have mine: "le_token en0 \<in> sy_used s"
      "\<forall>q en'. q \<noteq> p \<longrightarrow> map_of (sy_locks s q) resource = Some en' \<longrightarrow> le_token en' \<noteq> le_token en0"
    using inv Some unfolding lock_inv_def by blast+
  have "backed R prefix delta (sy_now s) r resource ?en" if b
    using facts(3) that ttl(2) by (simp add: backed_def)
  with R inv mine known facts show ?thesis
    by (intro lock_inv_change [of R prefix delta s ?s p resource "if b then Some ?en else None"
          "if b then Some (le_token en0, sy_now s + ttl) else r_entry R (lockKey prefix resource) (sy_redis s)"])
       (auto split: if_splits)
qed

lemma lock_inv_release:
  assumes R: "redis_ok R" and inv: "lock_inv R prefix delta s"
    and run: "release R prefix (sy_now s) resource (sy_locks s p, sy_redis s) = Inr (ls, r)"
  shows "lock_inv R prefix delta (s\<lparr>sy_redis := r, sy_locks := (sy_locks s)(p := ls)\<rparr>)"
    (is "lock_inv R prefix delta ?s")
proof (cases "map_of (sy_locks s p) resource")
  case None
  then have "ls = sy_locks s p" "r = sy_redis s" using run by (auto simp: release_def)
  with inv show ?thesis by (simp add: lock_inv_def)
next
  case (Some en0)
  then have ls: "ls = AList.delete resource (sy_locks s p)"
    and r: "r = releaseScript R (sy_now s) (lockKey prefix resource) (le_token en0) (sy_redis s)"
    using run by (auto simp: release_def split: option.splits)
  have known: "v \<in> sy_used s" if "r_entry R k (sy_redis s) = Some (v, e)" for k v e
    using inv that unfolding lock_inv_def by blast
  have mine: "\<forall>q en'. q \<noteq> p \<longrightarrow> map_of (sy_locks s q) resource = Some en' \<longrightarrow> le_token en' \<noteq> le_token en0"
    using inv Some unfolding lock_inv_def by blast
  with R inv known show ?thesis
    by (intro lock_inv_change [of R prefix delta s ?s p resource None
          "if r_get R (sy_now s) (lockKey prefix resource) (sy_redis s) = Some (le_token en0) then None
           else r_entry R (lockKey prefix resource) (sy_redis s)"])
       (auto simp: ls r releaseScript_eq split: if_splits)
qed

lemma lock_inv_tick: "lock_inv R prefix delta s \<Longrightarrow> sy_now s \<le> t \<Longrightarrow> lock_inv R prefix delta (s\<lparr>sy_now := t\<rparr>)"
  unfolding lock_inv_def by (simp add: backed_def)

lemma lock_reach_inv:
  assumes R: "redis_ok R"
  shows "lock_reach R prefix delta s \<Longrightarrow> lock_inv R prefix delta s"
proof (induction rule: lock_reach.induct)
  case (init r used t)
  then show ?case by (simp add: lock_inv_def)
next
  case (tick s t)
  then show ?case by (intro lock_inv_tick)
next
  case (acquire s token ttl d resource p b ls r)
  show ?case by (rule lock_inv_acquire [OF R acquire.IH acquire.hyps(2-5)])
next
  case (lost s token ttl resource p b ls r)
  show ?case by (rule lock_inv_lost [OF R lost.IH lost.hyps(3,4)])
next
  case (renew s ttl d resource p b ls r)
  show ?case by (rule lock_inv_renew [OF R renew.IH renew.hyps(2-4)])
next
  case (release s resource p ls r)
  show ?case by (rule lock_inv_release [OF R release.IH release.hyps(2)])
qed

section \<open>Properties\<close>


definition sample_sys :: "mem lock_sys" where
  "sample_sys = \<lparr>sy_now = 0, sy_redis = [], sy_locks = (\<lambda>_. []), sy_used = {}\<rparr>"


lemma lock_life:
  assumes R: "redis_ok R" and up: "r_down R srv r = None" and ttl: "0 < ttl"
  shows "\<exists>b ls' r'. tryAcquire R prefix token srv cli resource ttl (ls, r) = Inr (b, ls', r') \<and>
      (b \<longleftrightarrow> (\<forall>v e. r_entry R (lockKey prefix resource) r = Some (v, e) \<longrightarrow> e \<le> srv)) \<and>
      (b \<longrightarrow> r_get R srv (lockKey prefix resource) r' = Some token \<and> isHeld ls' cli resource) \<and>
      (\<not> b \<longrightarrow> ls' = ls \<and> (\<forall>k. r_entry R k r' = r_entry R k r))"
    and "map_of ls resource = Some en \<Longrightarrow>
      \<exists>b ls' r'. renew R prefix srv cli resource ttl (ls, r) = Inr (b, ls', r') \<and>
        (b \<longleftrightarrow> r_get R srv (lockKey prefix resource) r = Some (le_token en)) \<and>
        (b \<longrightarrow> r_entry R (lockKey prefix resource) r' = Some (le_token en, srv + ttl) \<and> isHeld ls' cli resource) \<and>
        (\<not> b \<longrightarrow> (\<forall>k. r_entry R k r' = r_entry R k r) \<and> \<not> isHeld ls' cli resource)"
    and "map_of ls resource = Some en \<Longrightarrow>
      \<exists>ls' r'. release R prefix srv resource (ls, r) = Inr (ls', r') \<and> \<not> isHeld ls' cli resource \<and>
        (\<forall>k. r_entry R k r' = (if k = lockKey prefix resource \<and>
            r_get R srv (lockKey prefix resource) r = Some (le_token en) then None else r_entry R k r))"
proof -
  obtain b ls' r' where acq: "tryAcquire R prefix token srv cli resource ttl (ls, r) = Inr (b, ls', r')"
    using up by (cases "r_setNX R srv (lockKey prefix resource) token ttl r") (simp add: tryAcquire_def)
  note facts = tryAcquire_Inr [OF R ttl acq]
  have "b \<longleftrightarrow> (\<forall>v e. r_entry R (lockKey prefix resource) r = Some (v, e) \<longrightarrow> e \<le> srv)"
    using facts(1) by (auto simp: redis_get [OF R] split: option.splits)
  moreover have "b \<longrightarrow> r_get R srv (lockKey prefix resource) r' = Some token \<and> isHeld ls' cli resource"
    using facts(2) facts(3) [of "lockKey prefix resource"] ttl by (simp add: redis_get [OF R] isHeld_def)
  moreover have "\<not> b \<longrightarrow> ls' = ls \<and> (\<forall>k. r_entry R k r' = r_entry R k r)"
    using facts(2,3) by simp
  ultimately show "\<exists>b ls' r'. tryAcquire R prefix token srv cli resource ttl (ls, r) = Inr (b, ls', r') \<and>
      (b \<longleftrightarrow> (\<forall>v e. r_entry R (lockKey prefix resource) r = Some (v, e) \<longrightarrow> e \<le> srv)) \<and>
      (b \<longrightarrow> r_get R srv (lockKey prefix resource) r' = Some token \<and> isHeld ls' cli resource) \<and>
      (\<not> b \<longrightarrow> ls' = ls \<and> (\<forall>k. r_entry R k r' = r_entry R k r))"
    using acq by blast
next
  assume en: "map_of ls resource = Some en"
  obtain b ls' r' where ren: "renew R prefix srv cli resource ttl (ls, r) = Inr (b, ls', r')"
    using up en by (cases "renewScript R srv (lockKey prefix resource) (le_token en) ttl r") (simp add: renew_def)
  note facts = renew_Inr [OF R ttl en ren]
  show "\<exists>b ls' r'. renew R prefix srv cli resource ttl (ls, r) = Inr (b, ls', r') \<and>
        (b \<longleftrightarrow> r_get R srv (lockKey prefix resource) r = Some (le_token en)) \<and>
        (b \<longrightarrow> r_entry R (lockKey prefix resource) r' = Some (le_token en, srv + ttl) \<and> isHeld ls' cli resource) \<and>
        (\<not> b \<longrightarrow> (\<forall>k. r_entry R k r' = r_entry R k r) \<and> \<not> isHeld ls' cli resource)"
    using ren facts ttl by (intro exI [of _ b] exI [of _ ls'] exI [of _ r']) (simp add: isHeld_def)
next
  assume "map_of ls resource = Some en"
  then show "\<exists>ls' r'. release R prefix srv resource (ls, r) = Inr (ls', r') \<and> \<not> isHeld ls' cli resource \<and>
        (\<forall>k. r_entry R k r' = (if k = lockKey prefix resource \<and>
            r_get R srv (lockKey prefix resource) r = Some (le_token en) then None else r_entry R k r))"
    using up by (simp add: release_def isHeld_def releaseScript_eq [OF R])
qed

text \<open>
  C12. The life of a lock, with the server reachable: acquiring succeeds exactly when no
  unexpired token is stored, so at the latest when the time to live of a crashed
  holder has run out; it then stores the caller's token. Renewing extends and releasing
  removes the server's entry only while it carries the caller's token; a lock that
  was lost is never taken away from its new holder, and the caller learns of the loss.
\<close>

theorem lock_lifecycle:
  assumes "redis_ok R" "r_down R srv r = None" "0 < ttl"
  shows "(\<exists>b ls' r'. tryAcquire R prefix token srv cli resource ttl (ls, r) = Inr (b, ls', r') \<and>
      (b \<longleftrightarrow> (\<forall>v e. r_entry R (lockKey prefix resource) r = Some (v, e) \<longrightarrow> e \<le> srv)) \<and>
      (b \<longrightarrow> r_get R srv (lockKey prefix resource) r' = Some token \<and> isHeld ls' cli resource) \<and>
      (\<not> b \<longrightarrow> ls' = ls \<and> (\<forall>k. r_entry R k r' = r_entry R k r))) \<and>
    (\<forall>en. map_of ls resource = Some en \<longrightarrow>
      (\<exists>b ls' r'. renew R prefix srv cli resource ttl (ls, r) = Inr (b, ls', r') \<and>
        (b \<longleftrightarrow> r_get R srv (lockKey prefix resource) r = Some (le_token en)) \<and>
        (b \<longrightarrow> r_entry R (lockKey prefix resource) r' = Some (le_token en, srv + ttl) \<and> isHeld ls' cli resource) \<and>
        (\<not> b \<longrightarrow> (\<forall>k. r_entry R k r' = r_entry R k r) \<and> \<not> isHeld ls' cli resource)) \<and>
      (\<exists>ls' r'. release R prefix srv resource (ls, r) = Inr (ls', r') \<and> \<not> isHeld ls' cli resource \<and>
        (\<forall>k. r_entry R k r' = (if k = lockKey prefix resource \<and>
            r_get R srv (lockKey prefix resource) r = Some (le_token en) then None else r_entry R k r))))"
  using lock_life [OF assms] by blast

theorem lock_lifecycle_witness:
  "\<exists>b ls' r'. tryAcquire memRedis ''btos:'' ''t2'' 100 101 ''res'' 50 ([], [(''btos:lock:res'', ''t1'', 99)]) = Inr (b, ls', r') \<and>
     b \<and> isHeld ls' 101 ''res''"
proof -
  have "r_down memRedis 100 [(''btos:lock:res'', ''t1'', 99)] = None" by (simp add: memRedis_def)
  from lock_lifecycle [OF memRedis_ok this, of 50 "''btos:''" "''t2''" 101 "''res''" "[]"]
  show ?thesis by (fastforce simp: memRedis_def lockKey_def)
qed

text \<open>
  C13. \<^verbatim>\<open>withLock\<close> runs the callback exactly when it gets the lock and gives the lock back
  whether the callback returns or throws: afterwards the process has no entry, the
  server no longer stores its token, and the callback's result or error is passed on.
\<close>

theorem withLock_releases:
  assumes R: "redis_ok R" and up: "r_down R srv r = None" "\<And>r. r_down R srv2 r = None" and ttl: "0 < ttl"
    and free: "r_get R srv (lockKey prefix resource) r = None" and fn: "fn w = (res, w')"
  shows "\<exists>ls' r'. withLock R prefix token srv cli srv2 resource ttl fn ((ls, r), w) =
      (map_sum id Some res, (ls', r'), w') \<and>
    map_of ls' resource = None \<and> r_get R srv2 (lockKey prefix resource) r' = None"
proof -
  obtain b ls1 r1 where acq: "tryAcquire R prefix token srv cli resource ttl (ls, r) = Inr (b, ls1, r1)"
    using up(1) by (cases "r_setNX R srv (lockKey prefix resource) token ttl r") (simp add: tryAcquire_def)
  note facts = tryAcquire_Inr [OF R ttl acq]
  have b: "b" using facts(1) free by simp
  let ?r2 = "releaseScript R srv2 (lockKey prefix resource) token r1"
  have rel: "release R prefix srv2 resource (ls1, r1) = Inr (AList.delete resource ls1, ?r2)"
    using facts(2) b up(2) by (simp add: release_def)
  have "r_get R srv2 (lockKey prefix resource) ?r2 = None"
    using facts(3) [of "lockKey prefix resource"] b by (simp add: redis_get [OF R] releaseScript_eq [OF R])
  then show ?thesis
    using acq b rel fn by (simp add: withLock_def)
qed

theorem withLock_releases_witness:
  "\<exists>ls' r'. withLock memRedis ''btos:'' ''t1'' 0 1 9 ''res'' 50 (\<lambda>w :: nat. (Inl ''boom'' :: string + nat, w + 1))
      (([], []), 4) = (Inl ''boom'', (ls', r'), 5) \<and> map_of ls' ''res'' = None"
proof -
  have up: "r_down memRedis t r = None" for t r by (simp add: memRedis_def)
  have "r_get memRedis 0 (lockKey ''btos:'' ''res'') [] = None" by (simp add: memRedis_def memGet_def)
  from withLock_releases [OF memRedis_ok up up _ this, of 50 "\<lambda>w :: nat. (Inl ''boom'' :: string + nat, w + 1)"
      4 "Inl ''boom''" 5 "''t1''" 1 9 "[]"]
  show ?thesis by auto
qed

end
