(* ===== verification/JobScheduler.thy ===== *)
theory JobScheduler
  imports JobRepository ExecutionRepository WorkerRepository Queues DependencyResolver DistributedLock
begin

text \<open>
  \<^verbatim>\<open>src/scheduler/JobScheduler.ts\<close>: the scheduling loop, recovery of stalled jobs,
  submission, completion and the leader flag. The record \<open>world\<close> gathers what the
  scheduler, the workers and the services share: the database tables, the two BullMQ
  queues, the recorded metrics, and the dependency graph of the process at hand (each
  process has a scheduler object, hence a graph, of its own). Statements that the source
  starts concurrently and awaits together are taken in the order in which it starts them.
\<close>

section \<open>State\<close>

record ('q, 'd) world =
  s_jobs :: jobs
  s_logs :: execution_logs
  s_workers :: workers
  s_queue :: 'q
  s_dlq :: 'd
  s_metrics :: metrics
  s_graph :: graph

record SchedulerConfig =
  pollIntervalMs :: int
  batchSize :: nat
  stalledJobThresholdMs :: int
  lockTtlMs :: int

definition DEFAULT_CONFIG :: "int \<Rightarrow> int \<Rightarrow> SchedulerConfig" where
  "DEFAULT_CONFIG configPollIntervalMs configLockTtlMs =
     \<lparr>pollIntervalMs = configPollIntervalMs, batchSize = 50, stalledJobThresholdMs = 2 * 60000,
      lockTtlMs = configLockTtlMs\<rparr>"

datatype scheduler_event =
    EvUnblocked "id list" | EvStopped | EvLeaderAcquired | EvLeaderFollower | EvLeaderLost
  | EvEnqueued id | EvSubmitted id

record Scheduler =
  sc_isRunning :: bool
  sc_isLeader :: bool
  sc_pollTimer :: bool
  sc_renewalTimer :: bool
  sc_cronRunning :: bool
  sc_events :: "scheduler_event list"

definition new_Scheduler :: Scheduler where
  "new_Scheduler = \<lparr>sc_isRunning = False, sc_isLeader = False, sc_pollTimer = False,
     sc_renewalTimer = False, sc_cronRunning = False, sc_events = []\<rparr>"

definition emit :: "scheduler_event \<Rightarrow> Scheduler \<Rightarrow> Scheduler" where
  "emit ev sc = sc\<lparr>sc_events := sc_events sc @ [ev]\<rparr>"

section \<open>Scheduling\<close>

definition bullJobId :: "id \<Rightarrow> id" where
  "bullJobId i = ''job_'' @ i"

definition jobPayload :: "Job \<Rightarrow> QueueJobPayload" where
  "jobPayload job = \<lparr>qp_jobId = j_id job, qp_type = j_type job, qp_payload = j_payload job,
     qp_organizationId = j_organizationId job, qp_attemptNumber = j_retryCount job + 1\<rparr>"

definition setStatus :: "id \<Rightarrow> JobStatus \<Rightarrow> time \<Rightarrow> ('q, 'd, 'z) world_scheme \<Rightarrow> ('q, 'd, 'z) world_scheme" where
  "setStatus i st now w = w\<lparr>s_jobs := snd (update i (empty_update\<lparr>u_status := Some st\<rparr>) now (s_jobs w))\<rparr>"

definition enqueueClaimed ::
  "(QueueJobPayload, 'q) BullQueue \<Rightarrow> time \<Rightarrow> Job \<Rightarrow> Scheduler \<times> ('q, 'd) world \<Rightarrow> Scheduler \<times> ('q, 'd) world" where
  "enqueueClaimed B now job st =
     (let (sc, w) = st
      in if j_dependencyCount job > j_resolvedDependencyCount job
         then (sc, setStatus (j_id job) PENDING now w)
         else
           (let delayMs = (case j_scheduledAt job of None \<Rightarrow> 0 | Some t \<Rightarrow> max 0 (t - now))
            in case queueAdd B (jobPayload job)
                   \<lparr>ao_priority = Some (j_priority job), ao_delayMs = Some delayMs,
                    ao_jobId = Some (bullJobId (j_id job))\<rparr> (s_queue w, s_metrics w) of
                 Inl err \<Rightarrow> (sc, setStatus (j_id job) PENDING now w)
               | Inr (_, q, ms) \<Rightarrow> (emit (EvEnqueued (j_id job)) sc, w\<lparr>s_queue := q, s_metrics := ms\<rparr>)))"

definition scheduleReadyJobs ::
  "(QueueJobPayload, 'q) BullQueue \<Rightarrow> SchedulerConfig \<Rightarrow> time \<Rightarrow> id set \<Rightarrow>
   Scheduler \<times> ('q, 'd) world \<Rightarrow> Scheduler \<times> ('q, 'd) world" where
  "scheduleReadyJobs B cfg now locked st =
     (let (jobs, db) = claimPendingJobs (batchSize cfg) now locked (s_jobs (snd st))
      in fold (enqueueClaimed B now) jobs (fst st, (snd st)\<lparr>s_jobs := db\<rparr>))"

definition recoverJob :: "time \<Rightarrow> Job \<Rightarrow> ('q, 'd) world \<Rightarrow> ('q, 'd) world" where
  "recoverJob now job w =
     (if j_retryCount job < j_maxRetries job
      then w\<lparr>s_jobs := snd (update (j_id job)
             (empty_update\<lparr>u_status := Some PENDING, u_workerId := None, u_startedAt := None\<rparr>) now (s_jobs w))\<rparr>
      else w\<lparr>s_jobs := snd (update (j_id job)
             (empty_update\<lparr>u_status := Some FAILED,
                u_errorMessage := Some ''Job stalled: worker did not complete within timeout'',
                u_completedAt := Some now\<rparr>) now (s_jobs w)),
           s_metrics := recordJobFailed (j_type job) (j_priority job) ''STALLED'' None (s_metrics w)\<rparr>)"

definition recoverStalledJobs :: "SchedulerConfig \<Rightarrow> time \<Rightarrow> ('q, 'd) world \<Rightarrow> ('q, 'd) world" where
  "recoverStalledJobs cfg now w =
     fold (recoverJob now) (findStalledJobs (stalledJobThresholdMs cfg) now (s_jobs w)) w"

definition poll ::
  "(QueueJobPayload, 'q) BullQueue \<Rightarrow> SchedulerConfig \<Rightarrow> time \<Rightarrow> id set \<Rightarrow>
   Scheduler \<times> ('q, 'd) world \<Rightarrow> Scheduler \<times> ('q, 'd) world" where
  "poll B cfg now locked st =
     (let (sc, w) = scheduleReadyJobs B cfg now locked st in (sc, recoverStalledJobs cfg now w))"

text \<open>The timer of \<^verbatim>\<open>schedulePoll\<close> fires: only a leader polls, and the timer is set again while running.\<close>

definition schedulePoll :: "Scheduler \<Rightarrow> Scheduler" where
  "schedulePoll sc = (if sc_isRunning sc then sc\<lparr>sc_pollTimer := True\<rparr> else sc)"

definition pollTick ::
  "(QueueJobPayload, 'q) BullQueue \<Rightarrow> SchedulerConfig \<Rightarrow> time \<Rightarrow> id set \<Rightarrow>
   Scheduler \<times> ('q, 'd) world \<Rightarrow> Scheduler \<times> ('q, 'd) world" where
  "pollTick B cfg now locked st =
     (let (sc, w) = (if sc_isLeader (fst st) then poll B cfg now locked st else st)
      in (schedulePoll sc, w))"

section \<open>Submission and completion\<close>

definition submitJob ::
  "id \<Rightarrow> time \<Rightarrow> CreateJobDto \<Rightarrow> Scheduler \<times> ('q, 'd) world \<Rightarrow>
   db_error + Job \<times> Scheduler \<times> ('q, 'd) world" where
  "submitJob newId now dto st =
     (case create newId now dto (s_jobs (snd st)) of
        Inl err \<Rightarrow> Inl err
      | Inr (job, db) \<Rightarrow> Inr (job, emit (EvSubmitted (j_id job)) (fst st),
          (snd st)\<lparr>s_jobs := db, s_graph := register job (s_graph (snd st)),
            s_metrics := recordJobSubmitted (j_type job) (j_priority job) (j_organizationId job)
              (s_metrics (snd st))\<rparr>))"

definition completionMetrics :: "id \<Rightarrow> JobStatus \<Rightarrow> jobs \<Rightarrow> metrics \<Rightarrow> metrics" where
  "completionMetrics jobId st db ms =
     (if st = COMPLETED
      then (case findById jobId db of
              None \<Rightarrow> ms
            | Some job \<Rightarrow> recordJobCompleted (j_type job) (j_priority job)
                (case (j_completedAt job, j_startedAt job) of
                   (Some c, Some s) \<Rightarrow> of_int (c - s) | _ \<Rightarrow> 0) ms)
      else ms)"

definition onJobCompleted ::
  "id \<Rightarrow> JobStatus \<Rightarrow> time \<Rightarrow> Scheduler \<times> ('q, 'd) world \<Rightarrow> Scheduler \<times> ('q, 'd) world" where
  "onJobCompleted jobId st now s =
     (let (sc, w) = s;
          (unblockedIds, g, evs) = onJobStateChange jobId st (s_graph w);
          db = fold (\<lambda>_. resolveDependency jobId now) unblockedIds (s_jobs w)
      in (fold (\<lambda>ev. case ev of JobsUnblocked ids \<Rightarrow> emit (EvUnblocked ids)) evs sc,
          w\<lparr>s_graph := g, s_jobs := db, s_metrics := completionMetrics jobId st db (s_metrics w)\<rparr>))"

section \<open>Leadership\<close>

definition leaderResource :: string where
  "leaderResource = ''scheduler:leader''"

definition tryBecomeLeader ::
  "'r Redis \<Rightarrow> string \<Rightarrow> string \<Rightarrow> time \<Rightarrow> time \<Rightarrow> SchedulerConfig \<Rightarrow> Scheduler \<times> locks \<times> 'r \<Rightarrow>
   Scheduler \<times> locks \<times> 'r" where
  "tryBecomeLeader R prefix token srv cli cfg st =
     (case tryAcquire R prefix token srv cli leaderResource (lockTtlMs cfg) (snd st) of
        Inr (True, ls) \<Rightarrow>
          (emit EvLeaderAcquired
             ((fst st)\<lparr>sc_isLeader := True, sc_cronRunning := True, sc_renewalTimer := True\<rparr>), ls)
      | Inr (False, ls) \<Rightarrow> (emit EvLeaderFollower (fst st), ls)
      | Inl err \<Rightarrow> ((fst st)\<lparr>sc_isLeader := True, sc_cronRunning := True\<rparr>, snd st))"

definition renewalMs :: "SchedulerConfig \<Rightarrow> int" where
  "renewalMs cfg = \<lfloor>of_int (lockTtlMs cfg) * (6 / 10 :: number)\<rfloor>"

text \<open>
  The renewal timer fires. After a failed renewal the scheduler steps down and tries again
  two seconds later, at the clocks \<open>srv2\<close> and \<open>cli2\<close>.
\<close>

definition renewalTick ::
  "'r Redis \<Rightarrow> string \<Rightarrow> string \<Rightarrow> time \<Rightarrow> time \<Rightarrow> time \<Rightarrow> time \<Rightarrow> SchedulerConfig \<Rightarrow>
   Scheduler \<times> locks \<times> 'r \<Rightarrow> Scheduler \<times> locks \<times> 'r" where
  "renewalTick R prefix token srv cli srv2 cli2 cfg st =
     (case renew R prefix srv cli leaderResource (lockTtlMs cfg) (snd st) of
        Inl err \<Rightarrow> st
      | Inr (True, ls) \<Rightarrow> (fst st, ls)
      | Inr (False, ls) \<Rightarrow>
          tryBecomeLeader R prefix token srv2 cli2 cfg
            (emit EvLeaderLost
               ((fst st)\<lparr>sc_isLeader := False, sc_cronRunning := False, sc_renewalTimer := False\<rparr>), ls))"

definition startScheduler ::
  "'r Redis \<Rightarrow> string \<Rightarrow> string \<Rightarrow> time \<Rightarrow> time \<Rightarrow> SchedulerConfig \<Rightarrow> Scheduler \<times> locks \<times> 'r \<Rightarrow>
   Scheduler \<times> locks \<times> 'r" where
  "startScheduler R prefix token srv cli cfg st =
     (if sc_isRunning (fst st) then st
      else let (sc, ls) = tryBecomeLeader R prefix token srv cli cfg ((fst st)\<lparr>sc_isRunning := True\<rparr>, snd st)
           in (schedulePoll sc, ls))"

definition stopScheduler :: "Scheduler \<Rightarrow> Scheduler" where
  "stopScheduler sc = emit EvStopped
     (sc\<lparr>sc_isRunning := False, sc_pollTimer := False, sc_renewalTimer := False, sc_cronRunning := False\<rparr>)"

text \<open>The getter \<^verbatim>\<open>stats\<close>.\<close>

record SchedulerStats =
  ss_isLeader :: bool
  ss_isRunning :: bool
  ss_dependencyGraphStats :: DepStats

definition schedulerStats :: "Scheduler \<Rightarrow> ('q, 'd) world \<Rightarrow> SchedulerStats" where
  "schedulerStats sc w =
     \<lparr>ss_isLeader = sc_isLeader sc, ss_isRunning = sc_isRunning sc, ss_dependencyGraphStats = getStats (s_graph w)\<rparr>"

section \<open>Lemmas\<close>

lemma findById_setStatus:
  "findById x (s_jobs (setStatus i st now w)) =
     (if x = i then map_option (\<lambda>j. j\<lparr>j_status := st, j_updatedAt := now\<rparr>) (findById x (s_jobs w))
      else findById x (s_jobs w))"
  by (simp add: setStatus_def jobs_table.find_upd applyUpdate_def toRow_def empty_update_def
      fun_eq_iff cong: map_option_cong)

lemma setStatus_frame [simp]:
  "s_queue (setStatus i st now w) = s_queue w" "s_graph (setStatus i st now w) = s_graph w"
  "s_logs (setStatus i st now w) = s_logs w" "s_metrics (setStatus i st now w) = s_metrics w"
  by (simp_all add: setStatus_def)

lemma queueAdd_Inr:
  assumes "bull_ok B" "queueAdd B p opts (q, ms) = Inr (i, q', ms')" "ao_jobId opts = Some k"
  shows "q_getJob B k q' = (case q_getJob B k q of None \<Rightarrow> Some p | Some old \<Rightarrow> Some old)"
    and "x \<noteq> k \<Longrightarrow> q_getJob B x q' = q_getJob B x q"
proof -
  from assms(2,3) obtain jo where add: "q_add B (jobTypeName (qp_type p)) p jo q = Inr (i, q')"
    and jo: "o_jobId jo = Some k"
    by (auto simp: queueAdd_def Let_def split: sum.splits)
  show "q_getJob B k q' = (case q_getJob B k q of None \<Rightarrow> Some p | Some old \<Rightarrow> Some old)"
    using bull_add_named [OF assms(1) add jo] by simp
  show "x \<noteq> k \<Longrightarrow> q_getJob B x q' = q_getJob B x q"
    using bull_add_named [OF assms(1) add jo] bull_add_other [OF assms(1) add] by simp
qed

lemma bullJobId_inj [simp]: "bullJobId x = bullJobId y \<longleftrightarrow> x = y"
  by (simp add: bullJobId_def)

text \<open>
  Enqueueing a claimed job either leaves the table alone and puts the job in the queue, or
  leaves the queue alone and sets the job back to PENDING.
\<close>

lemma enqueueClaimed_cases:
  assumes B: "bull_ok B" and run: "enqueueClaimed B now job (sc, w) = (sc', w')"
  obtains (queued) "s_jobs w' = s_jobs w" "q_getJob B (bullJobId (j_id job)) (s_queue w') =
      (case q_getJob B (bullJobId (j_id job)) (s_queue w) of None \<Rightarrow> Some (jobPayload job) | Some old \<Rightarrow> Some old)"
      "\<And>k. k \<noteq> bullJobId (j_id job) \<Longrightarrow> q_getJob B k (s_queue w') = q_getJob B k (s_queue w)"
  | (reverted) "w' = setStatus (j_id job) PENDING now w" "s_queue w' = s_queue w"
proof -
  let ?opts = "\<lparr>ao_priority = Some (j_priority job),
     ao_delayMs = Some (case j_scheduledAt job of None \<Rightarrow> 0 | Some t \<Rightarrow> max 0 (t - now)),
     ao_jobId = Some (bullJobId (j_id job))\<rparr>"
  let ?add = "queueAdd B (jobPayload job) ?opts (s_queue w, s_metrics w)"
  consider (a) "w' = setStatus (j_id job) PENDING now w"
    | (b) i q ms where "?add = Inr (i, q, ms)" "w' = w\<lparr>s_queue := q, s_metrics := ms\<rparr>"
    using run by (auto simp: enqueueClaimed_def Let_def split: if_splits sum.splits)
  then show thesis
  proof cases
    case a
    then show thesis using reverted by simp
  next
    case b
    then show thesis using queued queueAdd_Inr [OF B b(1)] by simp
  qed
qed

definition in_queue :: "(QueueJobPayload, 'q) BullQueue \<Rightarrow> id list \<Rightarrow> ('q, 'd) world \<Rightarrow> bool" where
  "in_queue B except w \<longleftrightarrow> (\<forall>i j. findById i (s_jobs w) = Some j \<and> j_status j = QUEUED \<longrightarrow>
     i \<in> set except \<or> q_getJob B (bullJobId i) (s_queue w) \<noteq> None)"

lemma enqueueClaimed_in_queue:
  assumes B: "bull_ok B" and inv: "in_queue B (j_id job # rest) w"
    and run: "enqueueClaimed B now job (sc, w) = (sc', w')"
  shows "in_queue B rest w'"
  using B run
proof (cases rule: enqueueClaimed_cases)
  case queued
  have "q_getJob B (bullJobId i) (s_queue w') \<noteq> None"
    if "i = j_id job \<or> q_getJob B (bullJobId i) (s_queue w) \<noteq> None" for i
    using that queued(2,3) by (cases "i = j_id job") (auto split: option.splits)
  with inv show ?thesis by (auto simp: in_queue_def queued(1))
next
  case reverted
  then show ?thesis using inv by (auto simp: in_queue_def findById_setStatus split: if_splits)
qed

lemma enqueueClaimed_rows:
  assumes "bull_ok B" "enqueueClaimed B now job (sc, w) = (sc', w')"
  shows "x \<noteq> j_id job \<Longrightarrow> findById x (s_jobs w') = findById x (s_jobs w)"
    and "findById x (s_jobs w) = Some j \<Longrightarrow> \<exists>j'. findById x (s_jobs w') = Some j' \<and>
      (j' = j \<or> j' = j\<lparr>j_status := PENDING, j_updatedAt := now\<rparr>)"
    and "table_ok (s_jobs w) \<Longrightarrow> table_ok (s_jobs w')"
  using assms
  by (cases rule: enqueueClaimed_cases;
      auto simp: findById_setStatus; auto simp: setStatus_def intro: table_ok_update)+

lemma enqueueClaimed_ids:
  assumes "bull_ok B" "enqueueClaimed B now job (sc, w) = (sc', w')"
  shows "map j_id (s_jobs w') = map j_id (s_jobs w)"
  using assms by (cases rule: enqueueClaimed_cases) (simp_all add: setStatus_def update_def Let_def)

lemma fold_enqueueClaimed_rows:
  assumes B: "bull_ok B" and run: "fold (enqueueClaimed B now) jobs (sc, w) = (sc', w')"
  shows "map j_id (s_jobs w') = map j_id (s_jobs w) \<and>
    (\<forall>x. x \<notin> j_id ` set jobs \<longrightarrow> findById x (s_jobs w') = findById x (s_jobs w)) \<and>
    (\<forall>x j. findById x (s_jobs w) = Some j \<longrightarrow> (\<exists>j'. findById x (s_jobs w') = Some j' \<and>
      (j' = j \<or> j' = j\<lparr>j_status := PENDING, j_updatedAt := now\<rparr>)))"
  using run
proof (induction jobs arbitrary: sc w)
  case (Cons job jobs)
  obtain sc1 w1 where step: "enqueueClaimed B now job (sc, w) = (sc1, w1)" by fastforce
  note rows = enqueueClaimed_rows [OF B step]
  have run1: "fold (enqueueClaimed B now) jobs (sc1, w1) = (sc', w')" using Cons.prems step by simp
  note IH = Cons.IH [OF run1]
  have "\<exists>j'. findById x (s_jobs w') = Some j' \<and> (j' = j \<or> j' = j\<lparr>j_status := PENDING, j_updatedAt := now\<rparr>)"
    if "findById x (s_jobs w) = Some j" for x j
  proof -
    from rows(2) [OF that] obtain j1 where j1: "findById x (s_jobs w1) = Some j1"
      "j1 = j \<or> j1 = j\<lparr>j_status := PENDING, j_updatedAt := now\<rparr>" by blast
    with IH obtain j2 where "findById x (s_jobs w') = Some j2"
      "j2 = j1 \<or> j2 = j1\<lparr>j_status := PENDING, j_updatedAt := now\<rparr>" by blast
    with j1(2) show ?thesis by auto
  qed
  with IH rows(1) enqueueClaimed_ids [OF B step] show ?case by simp
qed auto

lemma fold_enqueueClaimed_in_queue:
  assumes B: "bull_ok B" and "in_queue B (map j_id jobs) w" "fold (enqueueClaimed B now) jobs (sc, w) = (sc', w')"
  shows "in_queue B [] w'"
  using assms(2,3)
proof (induction jobs arbitrary: sc w)
  case (Cons job jobs)
  obtain sc1 w1 where step: "enqueueClaimed B now job (sc, w) = (sc1, w1)" by fastforce
  have "in_queue B (map j_id jobs) w1" using enqueueClaimed_in_queue [OF B _ step] Cons.prems(1) by simp
  with Cons.IH Cons.prems(2) step show ?case by simp
qed (simp add: in_queue_def)

section \<open>Properties\<close>

text \<open>
  C9. A scheduling round strands no job: if every QUEUED job has an entry in the queue
  before, the same holds after; a job claimed in the round is QUEUED with an entry or, when
  the queue refused it, PENDING again; and no other row changes.
\<close>

theorem scheduleReadyJobs_no_orphans:
  assumes B: "bull_ok B" and ok: "table_ok (s_jobs w)"
    and inv: "\<forall>i j. findById i (s_jobs w) = Some j \<and> j_status j = QUEUED \<longrightarrow>
      q_getJob B (bullJobId i) (s_queue w) \<noteq> None"
    and run: "scheduleReadyJobs B cfg now locked (sc, w) = (sc', w')"
  shows "(\<forall>i j. findById i (s_jobs w') = Some j \<and> j_status j = QUEUED \<longrightarrow>
        q_getJob B (bullJobId i) (s_queue w') \<noteq> None) \<and>
    (\<forall>i \<in> set (selectClaim (batchSize cfg) now locked (s_jobs w)).
        \<exists>j. findById i (s_jobs w') = Some j \<and> (j_status j = QUEUED \<or> j_status j = PENDING)) \<and>
    (\<forall>i. i \<notin> set (selectClaim (batchSize cfg) now locked (s_jobs w)) \<longrightarrow>
        findById i (s_jobs w') = findById i (s_jobs w)) \<and> table_ok (s_jobs w')"
proof -
  obtain jobs db where claim: "claimPendingJobs (batchSize cfg) now locked (s_jobs w) = (jobs, db)" by fastforce
  note facts = claim_facts [OF ok claim]
  have ids: "j_id ` set jobs = set (selectClaim (batchSize cfg) now locked (s_jobs w))"
    using ids_claimed [of "batchSize cfg" now locked "s_jobs w"] claim by simp
  have "in_queue B (map j_id jobs) (w\<lparr>s_jobs := db\<rparr>)"
    using inv facts(3) by (fastforce simp: in_queue_def)
  moreover have run: "fold (enqueueClaimed B now) jobs (sc, w\<lparr>s_jobs := db\<rparr>) = (sc', w')"
    using run claim by (simp add: scheduleReadyJobs_def)
  ultimately have queued: "in_queue B [] w'" by (rule fold_enqueueClaimed_in_queue [OF B])
  have rows: "map j_id (s_jobs w') = map j_id db"
    "\<And>x. x \<notin> j_id ` set jobs \<Longrightarrow> findById x (s_jobs w') = findById x db"
    "\<And>x j. findById x db = Some j \<Longrightarrow> \<exists>j'. findById x (s_jobs w') = Some j' \<and>
      (j' = j \<or> j' = j\<lparr>j_status := PENDING, j_updatedAt := now\<rparr>)"
    using fold_enqueueClaimed_rows [OF B run] by simp_all
  have "table_ok (s_jobs w')" using rows(1) facts(5) by (simp add: table_ok_def)
  note after = queued this rows(2,3)
  have "\<exists>j. findById i (s_jobs w') = Some j \<and> (j_status j = QUEUED \<or> j_status j = PENDING)"
    if "i \<in> j_id ` set jobs" for i
  proof -
    from that obtain c where "c \<in> set jobs" "i = j_id c" by blast
    with facts(2) obtain j0 where "findById i db = Some c" "c = j0\<lparr>j_status := QUEUED, j_updatedAt := now\<rparr>" by blast
    with after(4) show ?thesis by fastforce
  qed
  with after facts(3) show ?thesis by (simp add: in_queue_def flip: ids)
qed

definition sample_world :: "jobs \<Rightarrow> ((id \<times> QueueJobPayload) list, (id \<times> DLQEntry) list) world" where
  "sample_world db = \<lparr>s_jobs = db, s_logs = [], s_workers = [], s_queue = [], s_dlq = [], s_metrics = [], s_graph = []\<rparr>"

theorem scheduleReadyJobs_no_orphans_witness:
  "\<exists>sc' w'. scheduleReadyJobs memQueue (DEFAULT_CONFIG 1000 30000) 5 {} (new_Scheduler, sample_world [sample_job ''a'' []])
      = (sc', w') \<and>
    (\<forall>i j. findById i (s_jobs w') = Some j \<and> j_status j = QUEUED \<longrightarrow>
       q_getJob memQueue (bullJobId i) (s_queue w') \<noteq> None)"
proof -
  let ?w = "sample_world [sample_job ''a'' []]"
  obtain sc' w' where run: "scheduleReadyJobs memQueue (DEFAULT_CONFIG 1000 30000) 5 {} (new_Scheduler, ?w) = (sc', w')"
    by fastforce
  have ok: "table_ok (s_jobs ?w)" by (simp add: sample_world_def table_ok_def)
  have "\<forall>i j. findById i (s_jobs ?w) = Some j \<and> j_status j = QUEUED \<longrightarrow>
      q_getJob memQueue (bullJobId i) (s_queue ?w) \<noteq> None"
    by (auto simp: sample_world_def sample_job_def split: if_splits)
  from scheduleReadyJobs_no_orphans [OF memQueue_ok ok this run] run show ?thesis by blast
qed

text \<open>
  A job that is scheduled again while BullMQ still has an entry under its identifier
  (entries of completed jobs are kept for a day) is not added: the old entry stays,
  with its old attempt number, and the row remains QUEUED as if the job had been enqueued.
\<close>

theorem requeue_keeps_old_entry:
  assumes B: "bull_ok B" and old: "q_getJob B (bullJobId (j_id job)) (s_queue w) = Some p"
    and deps: "j_dependencyCount job \<le> j_resolvedDependencyCount job"
    and add: "\<And>n d opts q. \<exists>r. q_add B n d opts q = Inr r"
    and run: "enqueueClaimed B now job (sc, w) = (sc', w')"
  shows "(\<forall>k. q_getJob B k (s_queue w') = q_getJob B k (s_queue w)) \<and> s_jobs w' = s_jobs w \<and>
    EvEnqueued (j_id job) \<in> set (sc_events sc')"
proof -
  have ev: "EvEnqueued (j_id job) \<in> set (sc_events sc')" and jobs: "s_jobs w' = s_jobs w"
    using run deps add
    by (auto simp: enqueueClaimed_def Let_def queueAdd_def emit_def split: sum.splits) (metis Inl_Inr_False)+
  have "q_getJob B k (s_queue w') = q_getJob B k (s_queue w)" for k
    using B run
  proof (cases rule: enqueueClaimed_cases)
    case queued
    then show ?thesis using old by (cases "k = bullJobId (j_id job)") auto
  qed simp
  with ev jobs show ?thesis by blast
qed

theorem requeue_keeps_old_entry_witness:
  "\<exists>sc' w'. enqueueClaimed memQueue 9 ((sample_job ''a'' [])\<lparr>j_retryCount := 1\<rparr>)
      (new_Scheduler, (sample_world [])\<lparr>s_queue := [(''job_a'', jobPayload (sample_job ''a'' []))]\<rparr>) = (sc', w') \<and>
    q_getJob memQueue ''job_a'' (s_queue w') = Some (jobPayload (sample_job ''a'' []))"
proof -
  let ?job = "(sample_job ''a'' [])\<lparr>j_retryCount := 1\<rparr>"
  let ?w = "(sample_world [])\<lparr>s_queue := [(''job_a'', jobPayload (sample_job ''a'' []))]\<rparr>"
  obtain sc' w' where run: "enqueueClaimed memQueue 9 ?job (new_Scheduler, ?w) = (sc', w')" by fastforce
  have old: "q_getJob memQueue (bullJobId (j_id ?job)) (s_queue ?w) = Some (jobPayload (sample_job ''a'' []))"
    by (simp add: memQueue_def bullJobId_def sample_job_def)
  have "\<exists>r. q_add memQueue n d opts q = Inr r" for n opts q and d :: QueueJobPayload
    by (simp add: memQueue_def Let_def)
  from requeue_keeps_old_entry [OF memQueue_ok old _ this run] old run show ?thesis
    by (auto simp: sample_job_def bullJobId_def)
qed

subsection \<open>Stalled jobs\<close>

definition recoveryUpdate :: "time \<Rightarrow> Job \<Rightarrow> UpdateJobDto" where
  "recoveryUpdate now job =
     (if j_retryCount job < j_maxRetries job then empty_update\<lparr>u_status := Some PENDING\<rparr>
      else empty_update\<lparr>u_status := Some FAILED,
        u_errorMessage := Some ''Job stalled: worker did not complete within timeout'',
        u_completedAt := Some now\<rparr>)"

lemma s_jobs_recoverJob: "s_jobs (recoverJob now job w) = snd (update (j_id job) (recoveryUpdate now job) now (s_jobs w))"
  by (simp add: recoverJob_def recoveryUpdate_def empty_update_def)

lemma s_jobs_fold_recoverJob:
  "s_jobs (fold (recoverJob now) js w) =
     fold (\<lambda>(i, dto). \<lambda>db. snd (update i dto now db)) (map (\<lambda>j. (j_id j, recoveryUpdate now j)) js) (s_jobs w)"
  by (induction js arbitrary: w) (simp_all add: s_jobs_recoverJob)

lemma distinct_ids_filter: "table_ok db \<Longrightarrow> distinct (map j_id (filter P db))"
  by (simp add: table_ok_def distinct_map_filter)

lemma map_of_ids:
  "distinct (map j_id js) \<Longrightarrow> map_of (map (\<lambda>j. (j_id j, f j)) js) x = map_option f (findById x js)"
  by (induction js) auto

definition stalled :: "int \<Rightarrow> time \<Rightarrow> Job \<Rightarrow> bool" where
  "stalled threshold now j \<longleftrightarrow> j_status j = RUNNING \<and> (\<exists>t. j_startedAt j = Some t \<and> t \<le> now - threshold)"

lemma findStalledJobs_eq: "findStalledJobs threshold now db = filter (stalled threshold now) db"
  by (auto simp: findStalledJobs_def stalled_def intro!: filter_cong split: option.splits)



subsection \<open>Completion\<close>

lemma fold_resolveDependency: "fold (\<lambda>_. resolveDependency i now) xs db = resolveAll (replicate (length xs) i) now db"
  by (induction xs arbitrary: db) (simp_all add: resolveAll_def)

lemma s_jobs_onJobCompleted:
  "s_jobs (snd (onJobCompleted i st now (sc, w))) =
     resolveAll (replicate (length (fst (onJobStateChange i st (s_graph w)))) i) now (s_jobs w)"
  by (simp add: onJobCompleted_def Let_def fold_resolveDependency split: prod.split)

text \<open>
  C11. When a job finishes, the count of resolved dependencies of a job that waits only
  for it grows by the number of jobs the process's graph releases, so the waiting job
  becomes claimable exactly if one job is released: it stays blocked forever when
  several jobs wait for the same job, and when the process that reports the completion
  does not have the job in its graph.
\<close>

theorem onJobCompleted_releases:
  assumes "findById x (s_jobs w) = Some j" "j_status j = PENDING" "map dep_jobId (j_dependencies j) = [i]"
    and "j_dependencyCount j = 1" "j_resolvedDependencyCount j = 0" "j_scheduledAt j = None"
  shows "\<exists>j'. findById x (s_jobs (snd (onJobCompleted i st now (sc, w)))) = Some j' \<and>
    (claimable t j' \<longleftrightarrow> length (fst (onJobStateChange i st (s_graph w))) = 1) \<and>
    (s_graph w = [] \<longrightarrow> \<not> claimable t j')"
proof -
  let ?n = "length (fst (onJobStateChange i st (s_graph w)))"
  have "filter (\<lambda>c. dependsOn c j) (replicate ?n i) = replicate ?n i"
    using assms(3) by (simp add: dependsOn_def)
  with resolveAll_pending [OF assms(1,2), of "replicate ?n i" now] obtain u where
    "findById x (s_jobs (snd (onJobCompleted i st now (sc, w)))) =
       Some (j\<lparr>j_resolvedDependencyCount := int ?n, j_updatedAt := u\<rparr>)"
    using assms(5) by (auto simp: s_jobs_onJobCompleted)
  moreover have "?n = 0" if "s_graph w = []" using that by (simp add: onJobStateChange_def)
  ultimately show ?thesis using assms by (auto simp: claimable_def)
qed

theorem onJobCompleted_releases_witness:
  "let db = [sample_job ''b'' [completed_dep ''a''], sample_job ''c'' [completed_dep ''a'']];
       g = fold register db (register (sample_job ''a'' []) [])
   in \<exists>j'. findById ''b'' (s_jobs (snd (onJobCompleted ''a'' COMPLETED 7 (new_Scheduler,
          (sample_world db)\<lparr>s_graph := g\<rparr>)))) = Some j' \<and> \<not> claimable 7 j'"
proof -
  let ?db = "[sample_job ''b'' [completed_dep ''a''], sample_job ''c'' [completed_dep ''a'']]"
  let ?g = "fold register ?db (register (sample_job ''a'' []) [])"
  have n: "fst (onJobStateChange ''a'' COMPLETED ?g) = [''b'', ''c'']" by code_simp
  have "\<exists>j'. findById ''b'' (s_jobs (snd (onJobCompleted ''a'' COMPLETED 7 (new_Scheduler, (sample_world ?db)\<lparr>s_graph := ?g\<rparr>)))) = Some j' \<and>
    (claimable 7 j' \<longleftrightarrow> length (fst (onJobStateChange ''a'' COMPLETED (s_graph ((sample_world ?db)\<lparr>s_graph := ?g\<rparr>)))) = 1) \<and>
    (s_graph ((sample_world ?db)\<lparr>s_graph := ?g\<rparr>) = [] \<longrightarrow> \<not> claimable 7 j')"
    by (rule onJobCompleted_releases [of _ _ "sample_job ''b'' [completed_dep ''a'']"])
       (simp_all add: sample_world_def sample_job_def completed_dep_def)
  then show ?thesis using n by (auto simp: Let_def)
qed

subsection \<open>Leadership\<close>

lemma startScheduler_leader:
  assumes R: "redis_ok R" and up: "\<And>t r. r_down R t r = None" and ttl: "0 < lockTtlMs cfg"
  shows "let (sc, ls, r') = startScheduler R prefix token srv cli cfg (new_Scheduler, [], r)
      in (sc_isLeader sc \<longleftrightarrow> r_get R srv (lockKey prefix leaderResource) r = None) \<and>
         (sc_isLeader sc \<longrightarrow> r_get R srv (lockKey prefix leaderResource) r' = Some token)"
proof -
  obtain b ls' r' where acq: "tryAcquire R prefix token srv cli leaderResource (lockTtlMs cfg) ([], r) = Inr (b, ls', r')"
    using lock_life(1) [OF R up ttl] by blast
  note facts = tryAcquire_Inr [OF R ttl acq]
  have "b \<longrightarrow> r_get R srv (lockKey prefix leaderResource) r' = Some token"
    using facts(3) [of "lockKey prefix leaderResource"] ttl by (simp add: redis_get [OF R])
  with facts(1) acq show ?thesis
    by (cases b) (simp_all add: startScheduler_def new_Scheduler_def tryBecomeLeader_def emit_def schedulePoll_def)
qed

lemma renewalTick_leader:
  assumes R: "redis_ok R" and up: "\<And>t r. r_down R t r = None" and ttl: "0 < lockTtlMs cfg"
    and lead: "sc_isLeader sc" and en: "map_of ls leaderResource = Some en"
  shows "let (sc', ls', r') = renewalTick R prefix token srv cli srv2 cli2 cfg (sc, ls, r)
       in if r_get R srv (lockKey prefix leaderResource) r = Some (le_token en)
          then sc_isLeader sc' \<and> r_get R srv (lockKey prefix leaderResource) r' = Some (le_token en)
          else sc_isLeader sc' = (r_get R srv2 (lockKey prefix leaderResource) r' = Some token \<and>
                 isHeld ls' cli2 leaderResource)"
proof -
  obtain b ls1 r1 where ren: "renew R prefix srv cli leaderResource (lockTtlMs cfg) (ls, r) = Inr (b, ls1, r1)"
    using lock_life(2) [OF R up ttl] en by blast
  note facts = renew_Inr [OF R ttl en ren]
  show ?thesis
  proof (cases b)
    case True
    with facts(1) facts(3) [of "lockKey prefix leaderResource"] lead en ren ttl show ?thesis
      by (simp add: renewalTick_def redis_get [OF R])
  next
    case False
    obtain c ls2 r2 where acq: "tryAcquire R prefix token srv2 cli2 leaderResource (lockTtlMs cfg) (ls1, r1) = Inr (c, ls2, r2)"
      using lock_life(1) [OF R up ttl] by blast
    note facts2 = tryAcquire_Inr [OF R ttl acq]
    have c: "c \<longleftrightarrow> r_get R srv2 (lockKey prefix leaderResource) r2 = Some token \<and> isHeld ls2 cli2 leaderResource"
      using facts2(2) facts2(3) [of "lockKey prefix leaderResource"] facts(2) False ttl
      by (auto simp: redis_get [OF R] isHeld_def)
    have "\<exists>sc'. renewalTick R prefix token srv cli srv2 cli2 cfg (sc, ls, r) = (sc', ls2, r2) \<and> sc_isLeader sc' = c"
      using False ren acq by (cases c) (simp_all add: renewalTick_def tryBecomeLeader_def emit_def)
    then obtain sc' where "renewalTick R prefix token srv cli srv2 cli2 cfg (sc, ls, r) = (sc', ls2, r2)"
      "sc_isLeader sc' = c" by blast
    with False facts(1) c show ?thesis by simp
  qed
qed

text \<open>
  With Redis reachable, a scheduler that starts becomes leader exactly when it gets the
  lock, and a leader whose renewal finds the lock gone steps down unless it can take the
  lock anew: afterwards it leads exactly if the server stores its token. The renewal
  period is shorter than the time to live. With Redis unreachable every scheduler
  that starts becomes leader without a lock.
\<close>

theorem leader_iff_lock:
  assumes R: "redis_ok R" and up: "\<And>t r. r_down R t r = None" and ttl: "0 < lockTtlMs cfg"
  shows "(let (sc, ls, r') = startScheduler R prefix token srv cli cfg (new_Scheduler, [], r)
      in (sc_isLeader sc \<longleftrightarrow> r_get R srv (lockKey prefix leaderResource) r = None) \<and>
         (sc_isLeader sc \<longrightarrow> r_get R srv (lockKey prefix leaderResource) r' = Some token)) \<and>
    (\<forall>sc ls en. sc_isLeader sc \<and> map_of ls leaderResource = Some en \<longrightarrow>
      (let (sc', ls', r') = renewalTick R prefix token srv cli srv2 cli2 cfg (sc, ls, r)
       in if r_get R srv (lockKey prefix leaderResource) r = Some (le_token en)
          then sc_isLeader sc' \<and> r_get R srv (lockKey prefix leaderResource) r' = Some (le_token en)
          else sc_isLeader sc' = (r_get R srv2 (lockKey prefix leaderResource) r' = Some token \<and>
                 isHeld ls' cli2 leaderResource))) \<and>
    renewalMs cfg < lockTtlMs cfg \<and>
    (\<forall>D err t. r_down D t r0 = Some err \<longrightarrow>
      sc_isLeader (fst (startScheduler D prefix token t cli cfg (new_Scheduler, [], r0))))"
proof (intro conjI allI impI)
  show "let (sc, ls, r') = startScheduler R prefix token srv cli cfg (new_Scheduler, [], r)
      in (sc_isLeader sc \<longleftrightarrow> r_get R srv (lockKey prefix leaderResource) r = None) \<and>
         (sc_isLeader sc \<longrightarrow> r_get R srv (lockKey prefix leaderResource) r' = Some token)"
    by (rule startScheduler_leader [OF R up ttl])
next
  fix sc :: Scheduler and ls :: locks and en
  assume "sc_isLeader sc \<and> map_of ls leaderResource = Some en"
  then show "let (sc', ls', r') = renewalTick R prefix token srv cli srv2 cli2 cfg (sc, ls, r)
       in if r_get R srv (lockKey prefix leaderResource) r = Some (le_token en)
          then sc_isLeader sc' \<and> r_get R srv (lockKey prefix leaderResource) r' = Some (le_token en)
          else sc_isLeader sc' = (r_get R srv2 (lockKey prefix leaderResource) r' = Some token \<and>
                 isHeld ls' cli2 leaderResource)"
    using renewalTick_leader [OF R up ttl] by blast
next
  have "of_int (lockTtlMs cfg) * (6 / 10 :: number) < of_int (lockTtlMs cfg)" using ttl by simp
  then show "renewalMs cfg < lockTtlMs cfg" by (simp add: renewalMs_def floor_less_iff)
next
  fix D :: "'b Redis" and err t
  assume "r_down D t r0 = Some err"
  then show "sc_isLeader (fst (startScheduler D prefix token t cli cfg (new_Scheduler, [], r0)))"
    by (simp add: startScheduler_def new_Scheduler_def tryBecomeLeader_def tryAcquire_def schedulePoll_def)
qed

theorem leader_iff_lock_witness:
  "let (sc, ls, r') = startScheduler memRedis ''btos:'' ''t1'' 0 1 (DEFAULT_CONFIG 1000 30000) (new_Scheduler, [], [])
   in sc_isLeader sc \<and> r_get memRedis 0 (lockKey ''btos:'' leaderResource) r' = Some ''t1''"
proof -
  have up: "r_down memRedis t r = None" for t r by (simp add: memRedis_def)
  have free: "r_get memRedis 0 (lockKey ''btos:'' leaderResource) [] = None" by (simp add: memRedis_def memGet_def)
  have "0 < lockTtlMs (DEFAULT_CONFIG 1000 30000)" by (simp add: DEFAULT_CONFIG_def)
  from leader_iff_lock [OF memRedis_ok up this, where prefix = "''btos:''" and token = "''t1''"
      and srv = 0 and cli = 1 and r = "[]" and ?srv2.0 = 0 and ?cli2.0 = 0 and ?r0.0 = "()"] free
  show ?thesis by (auto split: prod.splits)
qed

end
