(* ===== verification/JobExecutor.thy ===== *)
theory JobExecutor
  imports Metrics
begin

text \<open>
  \<^verbatim>\<open>src/workers/JobExecutor.ts\<close>: running one job. The HTTP client (axios), the shell
  (\<^verbatim>\<open>child_process.exec\<close>), the registered custom handlers and the printed clock are the
  record \<open>Env\<close>, an argument. A payload field that the source casts to \<^verbatim>\<open>string\<close> is read as
  a string: \<open>None\<close> when it is missing. Whether the work or the timer of the race comes first
  is decided by the time the work takes; a tie goes to the timer.
\<close>

section \<open>Environment and results\<close>

record HttpRequest =
  rq_url :: string
  rq_method :: string
  rq_headers :: obj
  rq_body :: "json option"
  rq_params :: "json option"
  rq_timeout :: int

record HttpResponse =
  rs_status :: int
  rs_headers :: json
  rs_data :: json

record AxiosError =
  ax_message :: string
  ax_code :: "string option"
  ax_response :: "HttpResponse option"

record ShellError =
  sh_code :: "int option"
  sh_stdout :: "string option"
  sh_stderr :: "string option"
  sh_message :: string

record Env =
  env_axios :: "HttpRequest \<Rightarrow> AxiosError + HttpResponse"
  env_exec :: "string \<Rightarrow> string option \<Rightarrow> json option \<Rightarrow> ShellError + string \<times> string"
  env_handlers :: "(string \<times> (obj \<Rightarrow> (string \<times> string) + obj)) list"
  env_nowText :: string
  env_nowIso :: string

record ExecutionResult =
  xr_success :: bool
  xr_exitCode :: "int option"
  xr_stdout :: "string option"
  xr_stderr :: "string option"
  xr_result :: "obj option"
  xr_errorMessage :: "string option"
  xr_errorStack :: "string option"
  xr_errorCode :: "string option"
  xr_durationMs :: int

definition succeeded :: "obj option \<Rightarrow> ExecutionResult" where
  "succeeded res = \<lparr>xr_success = True, xr_exitCode = None, xr_stdout = None, xr_stderr = None,
     xr_result = res, xr_errorMessage = None, xr_errorStack = None, xr_errorCode = None, xr_durationMs = 0\<rparr>"

definition failedWith :: "string \<Rightarrow> string \<Rightarrow> ExecutionResult" where
  "failedWith msg code = \<lparr>xr_success = False, xr_exitCode = None, xr_stdout = None, xr_stderr = None,
     xr_result = None, xr_errorMessage = Some msg, xr_errorStack = None, xr_errorCode = Some code,
     xr_durationMs = 0\<rparr>"

text \<open>An exception is its message and its stack.\<close>

type_synonym thrown = "string \<times> string"

definition strField :: "string \<Rightarrow> obj \<Rightarrow> string option" where
  "strField k payload = (case map_of payload k of Some (JStr s) \<Rightarrow> Some s | _ \<Rightarrow> None)"

definition field :: "string \<Rightarrow> obj \<Rightarrow> obj" where
  "field k payload = (case map_of payload k of None \<Rightarrow> [] | Some v \<Rightarrow> [(k, v)])"

section \<open>The job types\<close>

definition executeHttpRequest :: "Env \<Rightarrow> string \<Rightarrow> obj \<Rightarrow> thrown + ExecutionResult" where
  "executeHttpRequest E stack payload =
     (case strField ''url'' payload of
        None \<Rightarrow> Inl (''HTTP_REQUEST job requires payload.url'', stack)
      | Some url \<Rightarrow>
          if url = [] then Inl (''HTTP_REQUEST job requires payload.url'', stack)
          else
            (case env_axios E \<lparr>rq_url = url, rq_method = nullish (strField ''method'' payload) ''GET'',
                 rq_headers = AList.updates
                   (map fst (js_entries (nullish (map_of payload ''headers'') (JObj []))))
                   (map snd (js_entries (nullish (map_of payload ''headers'') (JObj []))))
                   [(''User-Agent'', JStr ''Backend-Task-Orchestration/1.0'')],
                 rq_body = map_of payload ''body'', rq_params = map_of payload ''params'',
                 rq_timeout = 30000\<rparr> of
               Inr response \<Rightarrow>
                 Inr ((succeeded (Some [(''statusCode'', JNum (of_int (rs_status response))),
                     (''headers'', rs_headers response), (''data'', rs_data response)]))
                   \<lparr>xr_success := rs_status response < 400, xr_exitCode := Some (rs_status response)\<rparr>)
             | Inl err \<Rightarrow>
                 Inr ((failedWith (ax_message err) (nullish (ax_code err) ''HTTP_ERROR''))
                   \<lparr>xr_result := map_option (\<lambda>r. [(''statusCode'', JNum (of_int (rs_status r))),
                      (''data'', rs_data r)]) (ax_response err)\<rparr>)))"

definition dangerousPatterns :: "char list" where
  "dangerousPatterns = '';&|`$(){}[]<>''"

definition executeShellCommand :: "Env \<Rightarrow> string \<Rightarrow> obj \<Rightarrow> thrown + ExecutionResult" where
  "executeShellCommand E stack payload =
     (case strField ''command'' payload of
        None \<Rightarrow> Inl (''SHELL_COMMAND job requires payload.command'', stack)
      | Some command \<Rightarrow>
          if command = [] then Inl (''SHELL_COMMAND job requires payload.command'', stack)
          else if \<exists>c \<in> set command. c \<in> set dangerousPatterns
          then Inr (failedWith ''Command contains disallowed shell characters'' ''SECURITY_VIOLATION'')
          else
            (case env_exec E command (strField ''cwd'' payload) (map_of payload ''env'') of
               Inr (stdout, stderr) \<Rightarrow>
                 Inr ((succeeded None)\<lparr>xr_exitCode := Some 0,
                   xr_stdout := Some (js_slice stdout 0 50000), xr_stderr := Some (js_slice stderr 0 10000)\<rparr>)
             | Inl err \<Rightarrow>
                 Inr ((failedWith (sh_message err) ''SHELL_ERROR'')\<lparr>xr_exitCode := sh_code err,
                   xr_stdout := map_option (\<lambda>s. js_slice s 0 50000) (sh_stdout err),
                   xr_stderr := map_option (\<lambda>s. js_slice s 0 10000) (sh_stderr err)\<rparr>)))"

definition executeWebhook :: "Env \<Rightarrow> string \<Rightarrow> obj \<Rightarrow> thrown + ExecutionResult" where
  "executeWebhook E stack payload =
     (let headers = [(''Content-Type'', JStr ''application/json''), (''X-Webhook-Source'', JStr ''btos-scheduler'')] @
            (case strField ''secret'' payload of
               None \<Rightarrow> [] | Some s \<Rightarrow> if s = [] then [] else [(''X-Webhook-Secret'', JStr s)])
      in executeHttpRequest E stack
           (field ''url'' payload @ [(''method'', JStr ''POST''), (''headers'', JObj headers)] @
            (case map_of payload ''data'' of None \<Rightarrow> [] | Some v \<Rightarrow> [(''body'', v)])))"

definition stepResult :: "json \<Rightarrow> json" where
  "stepResult s = JObj ((case map_of (js_entries s) ''name'' of None \<Rightarrow> [] | Some v \<Rightarrow> [(''step'', v)]) @
     [(''status'', JStr ''completed'')] @ field ''params'' (js_entries s))"

definition stepsOf :: "obj \<Rightarrow> json list" where
  "stepsOf payload = (case map_of payload ''steps'' of Some (JArr xs) \<Rightarrow> xs | _ \<Rightarrow> [])"

definition executeDataPipeline :: "obj \<Rightarrow> ExecutionResult" where
  "executeDataPipeline payload =
     succeeded (Some [(''steps'', JArr (map stepResult (stepsOf payload))),
       (''totalSteps'', JNum (of_nat (length (stepsOf payload))))])"

definition executeEmailNotification :: "Env \<Rightarrow> obj \<Rightarrow> ExecutionResult" where
  "executeEmailNotification E payload =
     succeeded (Some ([(''sent'', JBool True)] @ field ''to'' payload @ field ''subject'' payload @
       [(''messageId'', JStr (''msg_'' @ env_nowText E))]))"

definition executeReportGeneration :: "Env \<Rightarrow> obj \<Rightarrow> ExecutionResult" where
  "executeReportGeneration E payload =
     succeeded (Some (field ''reportType'' payload @ [(''generatedAt'', JStr (env_nowIso E))] @ field ''params'' payload))"

definition executeFileProcessing :: "Env \<Rightarrow> obj \<Rightarrow> ExecutionResult" where
  "executeFileProcessing E payload =
     succeeded (Some (field ''filePath'' payload @ field ''operation'' payload @ [(''processedAt'', JStr (env_nowIso E))]))"

definition executeDatabaseCleanup :: "obj \<Rightarrow> ExecutionResult" where
  "executeDatabaseCleanup payload =
     (let dryRun = nullish (map_of payload ''dryRun'') (JBool True)
      in succeeded (Some [(''rowsAffected'', JNum (if truthy dryRun then 0 else 42)), (''dryRun'', dryRun)]))"

definition executeCustom :: "Env \<Rightarrow> obj \<Rightarrow> thrown + ExecutionResult" where
  "executeCustom E payload =
     (case Option.bind (strField ''handlerName'' payload) (map_of (env_handlers E)) of
        None \<Rightarrow> Inr (failedWith (''No custom handler registered: '' @
            nullish (strField ''handlerName'' payload) ''undefined'') ''HANDLER_NOT_FOUND'')
      | Some handler \<Rightarrow>
          (case handler payload of Inl err \<Rightarrow> Inl err | Inr res \<Rightarrow> Inr (succeeded (Some res))))"

definition registerJobHandler :: "string \<Rightarrow> (obj \<Rightarrow> thrown + obj) \<Rightarrow> Env \<Rightarrow> Env" where
  "registerJobHandler name handler E = E\<lparr>env_handlers := AList.update name handler (env_handlers E)\<rparr>"

section \<open>Dispatch and timeout\<close>

definition dispatch :: "Env \<Rightarrow> string \<Rightarrow> Job \<Rightarrow> thrown + ExecutionResult" where
  "dispatch E stack job =
     (case j_type job of
        HTTP_REQUEST \<Rightarrow> executeHttpRequest E stack (j_payload job)
      | SHELL_COMMAND \<Rightarrow> executeShellCommand E stack (j_payload job)
      | WEBHOOK \<Rightarrow> executeWebhook E stack (j_payload job)
      | DATA_PIPELINE \<Rightarrow> Inr (executeDataPipeline (j_payload job))
      | EMAIL_NOTIFICATION \<Rightarrow> Inr (executeEmailNotification E (j_payload job))
      | REPORT_GENERATION \<Rightarrow> Inr (executeReportGeneration E (j_payload job))
      | FILE_PROCESSING \<Rightarrow> Inr (executeFileProcessing E (j_payload job))
      | DATABASE_CLEANUP \<Rightarrow> Inr (executeDatabaseCleanup (j_payload job))
      | CUSTOM \<Rightarrow> executeCustom E (j_payload job))"

definition show_int :: "int \<Rightarrow> string" where
  "show_int n = (if n < 0 then ''-'' @ show_nat (nat (- n)) else show_nat (nat n))"

text \<open>
  \<open>takes\<close> is the time after which the dispatched work settles, \<open>None\<close> if it never does;
  \<open>durationMs\<close> is the measured duration.
\<close>

definition execute :: "Env \<Rightarrow> string \<Rightarrow> int option \<Rightarrow> int \<Rightarrow> Job \<Rightarrow> ExecutionResult" where
  "execute E stack takes durationMs job =
     (if (case takes of None \<Rightarrow> False | Some d \<Rightarrow> d < j_timeoutMs job)
      then (case dispatch E stack job of
              Inr result \<Rightarrow> result\<lparr>xr_durationMs := durationMs\<rparr>
            | Inl (msg, st) \<Rightarrow>
                (failedWith msg ''EXECUTION_ERROR'')\<lparr>xr_errorStack := Some st, xr_durationMs := durationMs\<rparr>)
      else (failedWith (''Job exceeded timeout of '' @ show_int (j_timeoutMs job) @ ''ms'') ''JOB_TIMEOUT'')
             \<lparr>xr_durationMs := durationMs\<rparr>)"

section \<open>Properties\<close>


definition sample_env :: Env where
  "sample_env = \<lparr>env_axios = (\<lambda>_. Inl \<lparr>ax_message = ''refused'', ax_code = None, ax_response = None\<rparr>),
     env_exec = (\<lambda>c d e. Inr (c, [])), env_handlers = [], env_nowText = ''0'', env_nowIso = ''0''\<rparr>"


text \<open>
  Every job ends in a result, never in an exception, with the measured duration: work
  that settles in time keeps its own outcome, an exception becomes \<^verbatim>\<open>EXECUTION_ERROR\<close>
  with its message, and work that does not settle before the timeout, or ever, becomes
  \<^verbatim>\<open>JOB_TIMEOUT\<close> and is never reported as success.
\<close>

theorem execute_total:
  "xr_durationMs (execute E stack takes dur job) = dur \<and>
   (\<forall>d. takes = Some d \<and> d < j_timeoutMs job \<longrightarrow>
      (\<forall>r. dispatch E stack job = Inr r \<longrightarrow> execute E stack takes dur job = r\<lparr>xr_durationMs := dur\<rparr>) \<and>
      (\<forall>msg st. dispatch E stack job = Inl (msg, st) \<longrightarrow>
         \<not> xr_success (execute E stack takes dur job) \<and>
         xr_errorMessage (execute E stack takes dur job) = Some msg \<and>
         xr_errorCode (execute E stack takes dur job) = Some ''EXECUTION_ERROR'')) \<and>
   (takes = None \<or> (\<exists>d. takes = Some d \<and> j_timeoutMs job \<le> d) \<longrightarrow>
      \<not> xr_success (execute E stack takes dur job) \<and>
      xr_errorCode (execute E stack takes dur job) = Some ''JOB_TIMEOUT'')"
  by (auto simp: execute_def failedWith_def split: option.splits sum.splits)

theorem execute_total_witness:
  "\<not> xr_success (execute sample_env [] None 30000 (sample_job ''a'' [])) \<and>
   xr_errorCode (execute sample_env [] None 30000 (sample_job ''a'' [])) = Some ''JOB_TIMEOUT''"
  using execute_total [of sample_env "[]" None 30000 "sample_job ''a'' []"] by blast

end
