(* ===== verification/WorkerProcess.thy ===== *)
theory WorkerProcess
  imports JobScheduler JobExecutor Helpers
begin

text \<open>
  \<^verbatim>\<open>src/workers/WorkerNode.ts\<close>: the process that takes jobs from the queue and runs
  them. \<^verbatim>\<open>processJob\<close> is split where it awaits the execution, because other processes act
  on the database meanwhile: \<open>beginJob\<close> is the part before, \<open>finishJob\<close> the part after, and
  \<open>processJob\<close> their composition with nothing in between. A pair \<open>(error, state)\<close> is the
  outcome of a call: an error is an exception that reaches BullMQ; what was written
  before it stays written.
\<close>

section \<open>Processing\<close>

record WorkerEnv =
  we_workerId :: id
  we_concurrency :: int

definition isRunnable :: "id \<Rightarrow> ('q, 'd) world \<Rightarrow> Job option" where
  "isRunnable jobId w =
     (case findById jobId (s_jobs w) of
        None \<Rightarrow> None
      | Some job \<Rightarrow> if j_status job = CANCELLED then None else Some job)"

definition beginJob ::
  "WorkerEnv \<Rightarrow> QueueJobPayload \<Rightarrow> int \<Rightarrow> id \<Rightarrow> time \<Rightarrow> ('q, 'd) world \<Rightarrow> (Job \<times> id) option \<times> ('q, 'd) world" where
  "beginJob W data attemptsMade logId now w =
     (case isRunnable (qp_jobId data) w of
        None \<Rightarrow> (None, w)
      | Some job \<Rightarrow>
          (let (execLog, logs) = createLog logId now
                 \<lparr>ce_jobId = qp_jobId data, ce_workerId = we_workerId W,
                  ce_attemptNumber = qp_attemptNumber data, ce_status = EX_RUNNING, ce_startedAt = now\<rparr>
                 (s_logs w);
               db = snd (update (qp_jobId data)
                 (empty_update\<lparr>u_status := Some RUNNING, u_workerId := Some (we_workerId W),
                    u_startedAt := Some now\<rparr>) now (s_jobs w))
           in (Some (job, e_id execLog),
               w\<lparr>s_logs := logs, s_jobs := db,
                 s_metrics := setWorkerLoad (we_workerId W)
                   (of_int attemptsMade / of_int (we_concurrency W)) (s_metrics w)\<rparr>)))"

definition failureLog :: "id \<Rightarrow> ExecutionResult \<Rightarrow> time \<Rightarrow> ExecutionStatus \<Rightarrow> CompleteExecutionLogDto" where
  "failureLog logId result completedAt st =
     \<lparr>ct_id = logId, ct_status = st, ct_completedAt = completedAt, ct_durationMs = xr_durationMs result,
      ct_stdout = xr_stdout result, ct_stderr = xr_stderr result, ct_exitCode = None, ct_result = None,
      ct_errorMessage = xr_errorMessage result, ct_errorStack = xr_errorStack result,
      ct_errorCode = xr_errorCode result, ct_peakMemoryMb = None, ct_cpuPercent = None\<rparr>"

definition successLog :: "id \<Rightarrow> ExecutionResult \<Rightarrow> time \<Rightarrow> CompleteExecutionLogDto" where
  "successLog logId result completedAt =
     \<lparr>ct_id = logId, ct_status = EX_COMPLETED, ct_completedAt = completedAt,
      ct_durationMs = xr_durationMs result, ct_stdout = xr_stdout result, ct_stderr = xr_stderr result,
      ct_exitCode = xr_exitCode result, ct_result = xr_result result, ct_errorMessage = None,
      ct_errorStack = None, ct_errorCode = None, ct_peakMemoryMb = None, ct_cpuPercent = None\<rparr>"

definition dlqEntry :: "id \<Rightarrow> Job \<Rightarrow> ExecutionResult \<Rightarrow> time \<Rightarrow> int \<Rightarrow> DLQEntry" where
  "dlqEntry jobId job result completedAt newRetryCount =
     \<lparr>dl_originalJobId = jobId, dl_type = j_type job, dl_payload = j_payload job,
      dl_organizationId = j_organizationId job,
      dl_failureReason = nullish (xr_errorMessage result) ''Unknown error'',
      dl_failureStack = xr_errorStack result, dl_totalAttempts = newRetryCount,
      dl_firstFailedAt = nullish (j_startedAt job) completedAt, dl_lastFailedAt = completedAt\<rparr>"

definition failPermanently ::
  "(DLQEntry, 'd) BullQueue \<Rightarrow> id \<Rightarrow> Job \<Rightarrow> ExecutionResult \<Rightarrow> time \<Rightarrow> int \<Rightarrow> time \<Rightarrow>
   Scheduler \<times> ('q, 'd) world \<Rightarrow> string option \<times> Scheduler \<times> ('q, 'd) world" where
  "failPermanently D jobId job result completedAt newRetryCount now st =
     (let w = (snd st)\<lparr>s_jobs := snd (update jobId
             (empty_update\<lparr>u_status := Some FAILED, u_completedAt := Some completedAt,
                u_errorMessage := xr_errorMessage result, u_errorStack := xr_errorStack result,
                u_exitCode := xr_exitCode result\<rparr>) now (s_jobs (snd st)))\<rparr>
      in case dlqAdd D (dlqEntry jobId job result completedAt newRetryCount) (s_dlq w, s_metrics w) of
           Inl err \<Rightarrow> (Some err, fst st, w)
         | Inr (_, dlq, ms) \<Rightarrow>
             (let st2 = onJobCompleted jobId FAILED now (fst st, w\<lparr>s_dlq := dlq, s_metrics := ms\<rparr>)
              in (None, fst st2, (snd st2)\<lparr>s_metrics := recordJobFailed (j_type job) (j_priority job)
                    (nullish (xr_errorCode result) ''UNKNOWN'') None (s_metrics (snd st2))\<rparr>)))"

definition handleFailure ::
  "(DLQEntry, 'd) BullQueue \<Rightarrow> id \<Rightarrow> id \<Rightarrow> ExecutionResult \<Rightarrow> time \<Rightarrow> ExecutionStatus \<Rightarrow> time \<Rightarrow>
   Scheduler \<times> ('q, 'd) world \<Rightarrow> string option \<times> Scheduler \<times> ('q, 'd) world" where
  "handleFailure D jobId execLogId result completedAt finalStatus now st =
     (case findById jobId (s_jobs (snd st)) of
        None \<Rightarrow> (None, st)
      | Some job \<Rightarrow>
          (let w = (snd st)\<lparr>s_logs := snd (completeLog (failureLog execLogId result completedAt
                     (if finalStatus = EX_TIMED_OUT then EX_TIMED_OUT else EX_FAILED)) (s_logs (snd st)))\<rparr>;
               newRetryCount = j_retryCount job + 1
           in if newRetryCount \<le> j_maxRetries job
              then (None, fst st, w\<lparr>s_jobs := snd (update jobId
                        (empty_update\<lparr>u_status := Some RETRYING, u_retryCount := Some newRetryCount,
                           u_workerId := None, u_startedAt := None\<rparr>) now (s_jobs w)),
                      s_metrics := recordJobRetried (j_type job) (s_metrics w)\<rparr>)
              else failPermanently D jobId job result completedAt newRetryCount now (fst st, w)))"

definition finishJob ::
  "(DLQEntry, 'd) BullQueue \<Rightarrow> id \<Rightarrow> id \<Rightarrow> ExecutionResult \<Rightarrow> time \<Rightarrow>
   Scheduler \<times> ('q, 'd) world \<Rightarrow> string option \<times> Scheduler \<times> ('q, 'd) world" where
  "finishJob D jobId execLogId result now st =
     (if xr_success result
      then let w = (snd st)\<lparr>s_jobs := snd (update jobId
                      (empty_update\<lparr>u_status := Some COMPLETED, u_completedAt := Some now,
                         u_result := xr_result result, u_exitCode := xr_exitCode result\<rparr>) now (s_jobs (snd st))),
                    s_logs := snd (completeLog (successLog execLogId result now) (s_logs (snd st)))\<rparr>
           in (None, onJobCompleted jobId COMPLETED now (fst st, w))
      else if xr_errorCode result = Some ''JOB_TIMEOUT''
      then (let (err, sc, w) = handleFailure D jobId execLogId result now EX_TIMED_OUT now st
            in (err, sc, if err = None then w\<lparr>s_metrics := recordJobTimedOut (s_metrics w)\<rparr> else w))
      else handleFailure D jobId execLogId result now EX_FAILED now st)"

definition processJob ::
  "(DLQEntry, 'd) BullQueue \<Rightarrow> WorkerEnv \<Rightarrow> (Job \<Rightarrow> ExecutionResult) \<Rightarrow> QueueJobPayload \<Rightarrow> int \<Rightarrow> id \<Rightarrow> time \<Rightarrow> time \<Rightarrow>
   Scheduler \<times> ('q, 'd) world \<Rightarrow> string option \<times> Scheduler \<times> ('q, 'd) world" where
  "processJob D W run data attemptsMade logId now doneAt st =
     (case beginJob W data attemptsMade logId now (snd st) of
        (None, w) \<Rightarrow> (None, fst st, w)
      | (Some (job, execLogId), w) \<Rightarrow> finishJob D (qp_jobId data) execLogId (run job) doneAt (fst st, w))"

section \<open>Registration, heartbeat, shutdown\<close>

definition workerCapabilities :: "int \<Rightarrow> string option \<Rightarrow> string \<Rightarrow> string option \<Rightarrow> WorkerCapabilities" where
  "workerCapabilities concurrency region env version =
     \<lparr>cap_jobTypes = [HTTP_REQUEST, SHELL_COMMAND, DATA_PIPELINE, EMAIL_NOTIFICATION, REPORT_GENERATION,
        FILE_PROCESSING, DATABASE_CLEANUP, WEBHOOK, CUSTOM],
      cap_maxConcurrency = concurrency, cap_gpuEnabled = False,
      cap_region = Some (nullish region ''us-east-1''),
      cap_labels = [(''env'', env), (''version'', nullish version ''1.0.0'')]\<rparr>"

text \<open>The first external IPv4 address of the interfaces, which come with their names as \<^verbatim>\<open>os.networkInterfaces\<close> lists them.\<close>

record NetAddress =
  na_family :: string
  na_internal :: bool
  na_address :: string

definition external :: "NetAddress \<Rightarrow> bool" where
  "external net \<longleftrightarrow> na_family net = ''IPv4'' \<and> \<not> na_internal net"

fun workerLocalIp :: "(string \<times> NetAddress list option) list \<Rightarrow> string" where
  "workerLocalIp [] = ''127.0.0.1''"
| "workerLocalIp ((name, nets) # rest) =
     (case List.find external (nullish nets []) of Some net \<Rightarrow> na_address net | None \<Rightarrow> workerLocalIp rest)"

record BullWorkerOptions =
  bw_concurrency :: int
  bw_lockDuration :: int
  bw_stalledInterval :: int
  bw_maxStalledCount :: int

definition bullWorkerOptions :: "int \<Rightarrow> int \<Rightarrow> BullWorkerOptions" where
  "bullWorkerOptions concurrency jobTimeoutMs =
     \<lparr>bw_concurrency = concurrency, bw_lockDuration = jobTimeoutMs + 10000, bw_stalledInterval = 30000, bw_maxStalledCount = 2\<rparr>"

definition startWorker ::
  "id \<Rightarrow> time \<Rightarrow> string \<Rightarrow> (string \<times> NetAddress list option) list \<Rightarrow> int \<Rightarrow> int \<Rightarrow> string option \<Rightarrow> string \<Rightarrow> string option \<Rightarrow>
   workers \<Rightarrow> WorkerEnv \<times> workers" where
  "startWorker newId now hostname nets pid concurrency region env version ws =
     (let (row, ws') = register_worker newId now
            \<lparr>rw_hostname = hostname, rw_ipAddress = workerLocalIp nets, rw_pid = pid, rw_version = nullish version ''1.0.0'',
             rw_capabilities = workerCapabilities concurrency region env version\<rparr> ws
      in (\<lparr>we_workerId = w_id row, we_concurrency = concurrency\<rparr>, ws'))"

definition heartbeatTick :: "WorkerEnv \<Rightarrow> time \<Rightarrow> int \<Rightarrow> time \<Rightarrow> workers \<Rightarrow> workers" where
  "heartbeatTick W startedAt activeCount now ws =
     heartbeat \<lparr>hb_workerId = we_workerId W, hb_status = (if activeCount > 0 then BUSY else ONLINE),
       hb_currentJobCount = activeCount,
       hb_stats = \<lparr>ws_totalJobsProcessed = None, ws_totalJobsSucceeded = None, ws_totalJobsFailed = None,
         ws_totalJobsTimedOut = None, ws_averageJobDurationMs = None, ws_uptimeMs = Some (now - startedAt),
         ws_currentLoad = Some (of_int activeCount / of_int (we_concurrency W))\<rparr>,
       hb_timestamp = now\<rparr> now ws"

definition shutdownWorker :: "WorkerEnv \<Rightarrow> time \<Rightarrow> time \<Rightarrow> workers \<Rightarrow> workers" where
  "shutdownWorker W now doneAt ws =
     updateStatus (we_workerId W) OFFLINE doneAt (updateStatus (we_workerId W) DRAINING now ws)"

section \<open>Lemmas\<close>

lemma findById_updated [simp]:
  "findById x (snd (update i dto now db)) =
     (if x = i then map_option (applyUpdate dto now) (findById x db) else findById x db)"
  by (rule jobs_table.find_upd)

lemma onJobCompleted_frame [simp]:
  "s_logs (snd (onJobCompleted i st now s)) = s_logs (snd s)"
  "s_dlq (snd (onJobCompleted i st now s)) = s_dlq (snd s)"
  "s_queue (snd (onJobCompleted i st now s)) = s_queue (snd s)"
  by (cases s; simp add: onJobCompleted_def Let_def split: prod.split)+

text \<open>Completion bookkeeping touches only PENDING rows.\<close>

lemma onJobCompleted_not_pending:
  assumes "findById x (s_jobs (snd s)) = Some j" "j_status j \<noteq> PENDING"
  shows "findById x (s_jobs (snd (onJobCompleted i st now s))) = Some j"
proof -
  have "findById x (resolveAll cs now db) = Some j" if "findById x db = Some j" for cs db
    using that assms(2) by (induction cs arbitrary: db) (simp_all add: resolveAll_def findById_resolveDependency)
  then show ?thesis using assms(1) by (cases s) (simp add: s_jobs_onJobCompleted)
qed

lemmas update_record_defs = applyUpdate_def toRow_def empty_update_def

lemma isRunnable_Some: "isRunnable i w = Some j \<longleftrightarrow> findById i (s_jobs w) = Some j \<and> j_status j \<noteq> CANCELLED"
  by (auto simp: isRunnable_def split: option.splits if_splits)

text \<open>What \<^verbatim>\<open>handleFailure\<close> leaves of the row and of the log.\<close>

text \<open>What adding an entry to the dead letter queue leaves: the error, if any, and the queue.\<close>

definition dlqOutcome :: "(DLQEntry, 'd) BullQueue \<Rightarrow> DLQEntry \<Rightarrow> 'd \<Rightarrow> string option \<Rightarrow> 'd \<Rightarrow> bool" where
  "dlqOutcome D entry d err d' =
     (case q_add D ''dlq_entry'' entry
        \<lparr>o_priority = None, o_delay = None, o_jobId = Some (dlqId (dl_originalJobId entry))\<rparr> d of
        Inl e \<Rightarrow> err = Some e \<and> d' = d
      | Inr (_, d2) \<Rightarrow> err = None \<and> d' = d2)"

lemma failPermanently_row:
  assumes job: "findById i (s_jobs w) = Some job"
    and run: "failPermanently D i job result t n now (sc, w) = (err, sc', w')"
  shows "(\<exists>j'. findById i (s_jobs w') = Some j' \<and> j_status j' = FAILED \<and> j_completedAt j' = Some t \<and>
      j_retryCount j' = j_retryCount job) \<and> s_logs w' = s_logs w \<and>
      dlqOutcome D (dlqEntry i job result t n) (s_dlq w) err (s_dlq w')"
proof -
  let ?row = "applyUpdate (empty_update\<lparr>u_status := Some FAILED, u_completedAt := Some t,
      u_errorMessage := xr_errorMessage result, u_errorStack := xr_errorStack result,
      u_exitCode := xr_exitCode result\<rparr>) now job"
  have row: "j_status ?row = FAILED" "j_completedAt ?row = Some t" "j_retryCount ?row = j_retryCount job"
    by (simp_all add: update_record_defs)
  have "findById i (s_jobs w') = Some ?row"
    using run job row(1)
    by (auto simp: failPermanently_def Let_def split: sum.splits intro!: onJobCompleted_not_pending)
  moreover have "s_logs w' = s_logs w"
    using run by (auto simp: failPermanently_def Let_def split: sum.splits)
  moreover have "dlqOutcome D (dlqEntry i job result t n) (s_dlq w) err (s_dlq w')"
    using run by (auto simp: failPermanently_def Let_def dlqAdd_def dlqOutcome_def split: sum.splits)
  ultimately show ?thesis using row by simp
qed

lemma handleFailure_row:
  assumes job: "findById i (s_jobs w) = Some job"
    and run: "handleFailure D i l result t fs now (sc, w) = (err, sc', w')"
  shows "if j_retryCount job + 1 \<le> j_maxRetries job
    then err = None \<and> s_dlq w' = s_dlq w \<and>
      findById i (s_jobs w') = Some (job\<lparr>j_status := RETRYING, j_retryCount := j_retryCount job + 1, j_updatedAt := now\<rparr>)
    else (\<exists>j'. findById i (s_jobs w') = Some j' \<and> j_status j' = FAILED \<and> j_completedAt j' = Some t \<and>
      j_retryCount j' = j_retryCount job) \<and>
      dlqOutcome D (dlqEntry i job result t (j_retryCount job + 1)) (s_dlq w) err (s_dlq w')"
    and "s_logs w' = snd (completeLog (failureLog l result t (if fs = EX_TIMED_OUT then EX_TIMED_OUT else EX_FAILED)) (s_logs w))"
proof -
  let ?w = "w\<lparr>s_logs := snd (completeLog (failureLog l result t (if fs = EX_TIMED_OUT then EX_TIMED_OUT else EX_FAILED)) (s_logs w))\<rparr>"
  have "if j_retryCount job + 1 \<le> j_maxRetries job
    then err = None \<and> w' = ?w\<lparr>s_jobs := snd (update i (empty_update\<lparr>u_status := Some RETRYING,
        u_retryCount := Some (j_retryCount job + 1), u_workerId := None, u_startedAt := None\<rparr>) now (s_jobs w)),
      s_metrics := recordJobRetried (j_type job) (s_metrics w)\<rparr>
    else failPermanently D i job result t (j_retryCount job + 1) now (sc, ?w) = (err, sc', w')"
    using run job by (simp add: handleFailure_def Let_def split: if_splits)
  then show "if j_retryCount job + 1 \<le> j_maxRetries job
    then err = None \<and> s_dlq w' = s_dlq w \<and>
      findById i (s_jobs w') = Some (job\<lparr>j_status := RETRYING, j_retryCount := j_retryCount job + 1, j_updatedAt := now\<rparr>)
    else (\<exists>j'. findById i (s_jobs w') = Some j' \<and> j_status j' = FAILED \<and> j_completedAt j' = Some t \<and>
      j_retryCount j' = j_retryCount job) \<and>
      dlqOutcome D (dlqEntry i job result t (j_retryCount job + 1)) (s_dlq w) err (s_dlq w')"
    and "s_logs w' = snd (completeLog (failureLog l result t (if fs = EX_TIMED_OUT then EX_TIMED_OUT else EX_FAILED)) (s_logs w))"
    using failPermanently_row [of i ?w job D result t "j_retryCount job + 1" now sc err sc' w'] job
    by (simp_all add: update_record_defs split: if_splits)
qed

lemma beginJob_runnable:
  assumes "findById (qp_jobId data) (s_jobs w) = Some job" "j_status job \<noteq> CANCELLED"
    and "findLog logId (s_logs w) = None"
  shows "\<exists>w'. beginJob W data n logId now w = (Some (job, logId), w') \<and>
    findById (qp_jobId data) (s_jobs w') = Some (job\<lparr>j_status := RUNNING, j_workerId := Some (we_workerId W),
      j_startedAt := Some now, j_updatedAt := now\<rparr>) \<and>
    s_dlq w' = s_dlq w \<and> s_queue w' = s_queue w \<and> s_graph w' = s_graph w \<and>
    (\<exists>l. findLog logId (s_logs w') = Some l \<and> e_status l = EX_RUNNING \<and> e_jobId l = qp_jobId data \<and>
       e_workerId l = we_workerId W \<and> e_attemptNumber l = qp_attemptNumber data)"
proof -
  have "isRunnable (qp_jobId data) w = Some job" using assms by (simp add: isRunnable_Some)
  then show ?thesis
    using assms by (simp add: beginJob_def Let_def update_record_defs createLog_def log_rows.look_append)
qed

lemma beginJob_skips:
  "isRunnable (qp_jobId data) w = None \<Longrightarrow> beginJob W data n logId now w = (None, w)"
  by (simp add: beginJob_def)

lemma dlqOutcome_ok:
  assumes "bull_ok D" "dlqOutcome D entry d None d'"
  shows "q_getJob D (dlqId (dl_originalJobId entry)) d' \<noteq> None"
  using assms bull_add_named [OF assms(1)]
  by (fastforce simp: dlqOutcome_def split: sum.splits option.splits)

lemma completedLog_status:
  "findLog l ls = Some e \<Longrightarrow> \<exists>e'. findLog l (snd (completeLog (failureLog l r t st) ls)) = Some e' \<and> e_status e' = st"
  "findLog l ls = Some e \<Longrightarrow> \<exists>e'. findLog l (snd (completeLog (successLog l r t) ls)) = Some e' \<and> e_status e' = EX_COMPLETED"
  by (simp_all add: findLog_complete failureLog_def successLog_def completeRow_def)

text \<open>What is left of a job's row, its log row and the dead letter queue when its run has ended.\<close>

definition run_outcome ::
  "(DLQEntry, 'd) BullQueue \<Rightarrow> ExecutionResult \<Rightarrow> Job \<Rightarrow> 'd \<Rightarrow> string option \<Rightarrow> Job \<Rightarrow> ExecutionLog \<Rightarrow> 'd \<Rightarrow> bool" where
  "run_outcome D r job dlq err j' l dlq' \<longleftrightarrow>
     (if xr_success r
      then err = None \<and> j_status j' = COMPLETED \<and> e_status l = EX_COMPLETED \<and> dlq' = dlq
      else e_status l = (if xr_errorCode r = Some ''JOB_TIMEOUT'' then EX_TIMED_OUT else EX_FAILED) \<and>
        (if j_retryCount job < j_maxRetries job
         then err = None \<and> j_status j' = RETRYING \<and> j_retryCount j' = j_retryCount job + 1 \<and> dlq' = dlq
         else j_status j' = FAILED \<and> j_retryCount j' = j_retryCount job \<and>
           (err = None \<longrightarrow> q_getJob D (dlqId (j_id job)) dlq' \<noteq> None) \<and> (err \<noteq> None \<longrightarrow> dlq' = dlq)))"

lemma run_outcome_started [simp]:
  "run_outcome D r (job\<lparr>j_status := st, j_workerId := wid, j_startedAt := t, j_updatedAt := u\<rparr>) dlq err j' l dlq' =
   run_outcome D r job dlq err j' l dlq'"
  by (simp add: run_outcome_def)

lemma handleFailure_outcome:
  assumes D: "bull_ok D" and job: "findById i (s_jobs w) = Some job" and log: "findLog logId (s_logs w) = Some l"
    and fail: "\<not> xr_success r"
    and fs: "fs = (if xr_errorCode r = Some ''JOB_TIMEOUT'' then EX_TIMED_OUT else EX_FAILED)"
    and run: "handleFailure D i logId r t fs now (sc, w) = (err, sc', w')"
  shows "\<exists>j' l'. findById i (s_jobs w') = Some j' \<and> findLog logId (s_logs w') = Some l' \<and>
    run_outcome D r job (s_dlq w) err j' l' (s_dlq w')"
proof -
  note row = handleFailure_row(1) [OF job run]
  have i: "j_id job = i" using job findById_Some by blast
  have "(if fs = EX_TIMED_OUT then EX_TIMED_OUT else EX_FAILED) = fs" using fs by simp
  then obtain l' where l': "findLog logId (s_logs w') = Some l'" "e_status l' = fs"
    using completedLog_status(1) [OF log, of r t fs] handleFailure_row(2) [OF job run] by auto
  show ?thesis
  proof (cases "j_retryCount job < j_maxRetries job")
    case True
    let ?j = "job\<lparr>j_status := RETRYING, j_retryCount := j_retryCount job + 1, j_updatedAt := now\<rparr>"
    have "findById i (s_jobs w') = Some ?j" "err = None" "s_dlq w' = s_dlq w" using row True by simp_all
    with l' fail fs True show ?thesis
      by (intro exI [of _ ?j] exI [of _ l']) (simp add: run_outcome_def)
  next
    case False
    with row obtain j' where j': "findById i (s_jobs w') = Some j'" "j_status j' = FAILED" "j_retryCount j' = j_retryCount job"
      and out: "dlqOutcome D (dlqEntry i job r t (j_retryCount job + 1)) (s_dlq w) err (s_dlq w')"
      by auto
    have "q_getJob D (dlqId i) (s_dlq w') \<noteq> None" if "err = None"
      using dlqOutcome_ok [OF D out [unfolded that]] by (simp add: dlqEntry_def)
    moreover have "s_dlq w' = s_dlq w" if "err \<noteq> None"
      using out that by (auto simp: dlqOutcome_def split: sum.splits)
    ultimately show ?thesis using False l' fail fs i j'
      by (intro exI [of _ j'] exI [of _ l']) (simp add: run_outcome_def)
  qed
qed

lemma finishJob_outcome:
  assumes D: "bull_ok D" and job: "findById i (s_jobs w) = Some job" and log: "findLog logId (s_logs w) = Some l"
    and run: "finishJob D i logId r now (sc, w) = (err, sc', w')"
  shows "\<exists>j' l'. findById i (s_jobs w') = Some j' \<and> findLog logId (s_logs w') = Some l' \<and>
    run_outcome D r job (s_dlq w) err j' l' (s_dlq w')"
proof (cases "xr_success r")
  case True
  let ?dto = "empty_update\<lparr>u_status := Some COMPLETED, u_completedAt := Some now,
      u_result := xr_result r, u_exitCode := xr_exitCode r\<rparr>"
  let ?w1 = "w\<lparr>s_jobs := snd (update i ?dto now (s_jobs w)),
      s_logs := snd (completeLog (successLog logId r now) (s_logs w))\<rparr>"
  have w': "err = None" "(sc', w') = onJobCompleted i COMPLETED now (sc, ?w1)"
    using True run by (simp_all add: finishJob_def Let_def)
  have st: "j_status (applyUpdate ?dto now job) = COMPLETED" by (simp add: update_record_defs)
  have "findById i (s_jobs (snd (onJobCompleted i COMPLETED now (sc, ?w1)))) = Some (applyUpdate ?dto now job)"
    by (rule onJobCompleted_not_pending) (use job st in simp_all)
  moreover obtain l' where "findLog logId (s_logs (snd (onJobCompleted i COMPLETED now (sc, ?w1)))) = Some l'"
    "e_status l' = EX_COMPLETED"
    using completedLog_status(2) [OF log, of r now] by auto
  moreover have "s_dlq (snd (onJobCompleted i COMPLETED now (sc, ?w1))) = s_dlq w" by simp
  ultimately show ?thesis
    using w'(1) st True unfolding w'(2) [symmetric] snd_conv
    by (intro exI [of _ "applyUpdate ?dto now job"] exI [of _ l']) (simp add: run_outcome_def)
next
  case False
  let ?fs = "if xr_errorCode r = Some ''JOB_TIMEOUT'' then EX_TIMED_OUT else EX_FAILED"
  obtain w1 where h: "handleFailure D i logId r now ?fs now (sc, w) = (err, sc', w1)"
    and w': "s_jobs w' = s_jobs w1" "s_logs w' = s_logs w1" "s_dlq w' = s_dlq w1"
    using False run by (auto simp: finishJob_def Let_def split: if_splits prod.splits)
  from handleFailure_outcome [OF D job log False refl h] show ?thesis by (simp only: w')
qed

section \<open>Properties\<close>

text \<open>
  C6. What running a job leaves behind. A job that is gone or cancelled is skipped and
  nothing changes. Otherwise, after a success the job is COMPLETED and so is its log row;
  after a failure or timeout the log row says which of the two it was, and the job is
  RETRYING with one more retry counted while the count is below its maximum, and FAILED with
  an entry in the dead letter queue once the retries are used up.
\<close>

theorem processJob_outcome:
  assumes D: "bull_ok D"
    and run: "processJob D W exec data n logId now doneAt (sc, w) = (err, sc', w')"
  shows "(isRunnable (qp_jobId data) w = None \<longrightarrow> err = None \<and> sc' = sc \<and> w' = w) \<and>
    (\<forall>job. findById (qp_jobId data) (s_jobs w) = Some job \<and> j_status job \<noteq> CANCELLED \<and> findLog logId (s_logs w) = None \<longrightarrow>
      (\<exists>j' l. findById (qp_jobId data) (s_jobs w') = Some j' \<and> findLog logId (s_logs w') = Some l \<and>
        (if xr_success (exec job)
         then err = None \<and> j_status j' = COMPLETED \<and> e_status l = EX_COMPLETED \<and> s_dlq w' = s_dlq w
         else e_status l = (if xr_errorCode (exec job) = Some ''JOB_TIMEOUT'' then EX_TIMED_OUT else EX_FAILED) \<and>
           (if j_retryCount job < j_maxRetries job
            then err = None \<and> j_status j' = RETRYING \<and> j_retryCount j' = j_retryCount job + 1 \<and> s_dlq w' = s_dlq w
            else j_status j' = FAILED \<and> j_retryCount j' = j_retryCount job \<and>
              (err = None \<longrightarrow> q_getJob D (dlqId (qp_jobId data)) (s_dlq w') \<noteq> None) \<and>
              (err \<noteq> None \<longrightarrow> s_dlq w' = s_dlq w)))))"
proof (intro conjI allI impI)
  assume "isRunnable (qp_jobId data) w = None"
  then show "err = None" "sc' = sc" "w' = w" using run by (simp_all add: processJob_def beginJob_skips)
next
  fix job
  assume a: "findById (qp_jobId data) (s_jobs w) = Some job \<and> j_status job \<noteq> CANCELLED \<and> findLog logId (s_logs w) = None"
  let ?job = "job\<lparr>j_status := RUNNING, j_workerId := Some (we_workerId W), j_startedAt := Some now, j_updatedAt := now\<rparr>"
  from a beginJob_runnable [of data w job logId W n now] obtain w1 l where
    b: "beginJob W data n logId now w = (Some (job, logId), w1)" and
    row: "findById (qp_jobId data) (s_jobs w1) = Some ?job" and
    l: "findLog logId (s_logs w1) = Some l" and dlq: "s_dlq w1 = s_dlq w" by blast
  have fin: "finishJob D (qp_jobId data) logId (exec job) doneAt (sc, w1) = (err, sc', w')"
    using run b by (simp add: processJob_def)
  from finishJob_outcome [OF D row l fin] obtain j' l' where
    found: "findById (qp_jobId data) (s_jobs w') = Some j'" "findLog logId (s_logs w') = Some l'" and
    out: "run_outcome D (exec job) job (s_dlq w) err j' l' (s_dlq w')" unfolding dlq run_outcome_started by blast
  have id: "j_id job = qp_jobId data" using a findById_Some by blast
  from found out [unfolded run_outcome_def id] show "\<exists>j' l. findById (qp_jobId data) (s_jobs w') = Some j' \<and> findLog logId (s_logs w') = Some l \<and>
        (if xr_success (exec job)
         then err = None \<and> j_status j' = COMPLETED \<and> e_status l = EX_COMPLETED \<and> s_dlq w' = s_dlq w
         else e_status l = (if xr_errorCode (exec job) = Some ''JOB_TIMEOUT'' then EX_TIMED_OUT else EX_FAILED) \<and>
           (if j_retryCount job < j_maxRetries job
            then err = None \<and> j_status j' = RETRYING \<and> j_retryCount j' = j_retryCount job + 1 \<and> s_dlq w' = s_dlq w
            else j_status j' = FAILED \<and> j_retryCount j' = j_retryCount job \<and>
              (err = None \<longrightarrow> q_getJob D (dlqId (qp_jobId data)) (s_dlq w') \<noteq> None) \<and>
              (err \<noteq> None \<longrightarrow> s_dlq w' = s_dlq w)))"
    by blast
qed

theorem processJob_outcome_witness:
  "\<exists>err sc' w'. processJob memQueue \<lparr>we_workerId = ''w'', we_concurrency = 10\<rparr> (\<lambda>_. failedWith ''m'' ''SHELL_ERROR'')
      (jobPayload (sample_job ''a'' [])) 0 ''log'' 5 9
      (new_Scheduler, sample_world [(sample_job ''a'' [])\<lparr>j_retryCount := 3\<rparr>]) = (err, sc', w') \<and>
    (\<exists>j'. findById ''a'' (s_jobs w') = Some j' \<and> j_status j' = FAILED)"
proof -
  let ?W = "\<lparr>we_workerId = ''w'', we_concurrency = 10\<rparr>" and ?x = "\<lambda>_ :: Job. failedWith ''m'' ''SHELL_ERROR''"
  let ?w = "sample_world [(sample_job ''a'' [])\<lparr>j_retryCount := 3\<rparr>]"
  obtain err sc' w' where run: "processJob memQueue ?W ?x (jobPayload (sample_job ''a'' [])) 0 ''log'' 5 9 (new_Scheduler, ?w) = (err, sc', w')"
    by (metis prod_cases3)
  have "qp_jobId (jobPayload (sample_job ''a'' [])) = ''a''" "findLog ''log'' (s_logs ?w) = None"
    "findById ''a'' (s_jobs ?w) = Some ((sample_job ''a'' [])\<lparr>j_retryCount := 3\<rparr>)"
    by (simp_all add: jobPayload_def sample_job_def sample_world_def)
  with processJob_outcome [OF memQueue_ok run] run show ?thesis
    by (fastforce simp: sample_job_def failedWith_def)
qed

text \<open>
  A job that is cancelled while it runs does not stay cancelled: whatever its outcome,
  the worker overwrites the status when the run ends.
\<close>

theorem cancel_lost_when_running:
  assumes D: "bull_ok D" and job: "findById i (s_jobs w) = Some job" "j_status job = CANCELLED"
    and log: "findLog logId (s_logs w) = Some l"
    and run: "finishJob D i logId r now (sc, w) = (err, sc', w')"
  shows "\<exists>j'. findById i (s_jobs w') = Some j' \<and> j_status j' \<in> {COMPLETED, RETRYING, FAILED}"
proof -
  from finishJob_outcome [OF D job(1) log run] show ?thesis
    by (auto simp: run_outcome_def split: if_splits)
qed

theorem cancel_lost_when_running_witness:
  "\<exists>err sc' w'. finishJob memQueue ''a'' ''log'' (succeeded None) 9
      (new_Scheduler, (sample_world [(sample_job ''a'' [])\<lparr>j_status := CANCELLED\<rparr>])\<lparr>s_logs := [sample_log ''log'' 1]\<rparr>)
      = (err, sc', w') \<and>
    (\<exists>j'. findById ''a'' (s_jobs w') = Some j' \<and> j_status j' \<in> {COMPLETED, RETRYING, FAILED})"
proof -
  let ?w = "(sample_world [(sample_job ''a'' [])\<lparr>j_status := CANCELLED\<rparr>])\<lparr>s_logs := [sample_log ''log'' 1]\<rparr>"
  obtain err sc' w' where run: "finishJob memQueue ''a'' ''log'' (succeeded None) 9 (new_Scheduler, ?w) = (err, sc', w')"
    by (metis prod_cases3)
  have "findById ''a'' (s_jobs ?w) = Some ((sample_job ''a'' [])\<lparr>j_status := CANCELLED\<rparr>)"
    "findLog ''log'' (s_logs ?w) = Some (sample_log ''log'' 1)"
    by (simp_all add: sample_world_def sample_job_def sample_log_def createLog_def Let_def)
  from cancel_lost_when_running [OF memQueue_ok this(1) _ this(2) run] run show ?thesis by simp
qed


end
