(* ===== verification/CronScheduler.thy ===== *)
theory CronScheduler
  imports JobScheduler
begin

text \<open>
  \<^verbatim>\<open>src/scheduler/CronScheduler.ts\<close>, the \<^verbatim>\<open>Schedule\<close> type of \<^verbatim>\<open>src/models/ExecutionLog.ts\<close>
  and the statements of \<^verbatim>\<open>src/api/routes/schedules.ts\<close> on the \<^verbatim>\<open>schedules\<close> table, a list
  of rows. The parser of cron expressions is an argument: an expression, a
  time zone and the current instant give the next instant, or an error. So are the ISO
  text of the current instant and the identifiers generated for new rows. Templates have
  a job type and a priority of the enumerations, as the \<^verbatim>\<open>jobs\<close> table demands of the rows
  made from them.
\<close>

section \<open>Schedules\<close>

type_synonym cron = "string \<Rightarrow> string \<Rightarrow> time \<Rightarrow> string + time"

record JobTemplate =
  t_type :: JobType
  t_payload :: obj
  t_priority :: "JobPriority option"
  t_timeoutMs :: "int option"
  t_retryConfig :: "PartialRetryConfig option"
  t_tags :: "string list option"

record Schedule =
  sd_id :: id
  sd_name :: string
  sd_description :: "string option"
  sd_cronExpression :: string
  sd_timezone :: string
  sd_jobTemplate :: JobTemplate
  sd_isActive :: bool
  sd_lastTriggeredAt :: "time option"
  sd_nextTriggerAt :: "time option"
  sd_totalTriggeredCount :: int
  sd_organizationId :: id
  sd_createdBy :: id
  sd_createdAt :: time
  sd_updatedAt :: time

type_synonym schedules = "Schedule list"

definition updateSchedules :: "(Schedule \<Rightarrow> bool) \<Rightarrow> (Schedule \<Rightarrow> Schedule) \<Rightarrow> schedules \<Rightarrow> schedules" where
  "updateSchedules p f ss = map (\<lambda>s. if p s then f s else s) ss"

section \<open>CronScheduler.ts\<close>

definition computeNextTrigger :: "cron \<Rightarrow> string \<Rightarrow> string \<Rightarrow> time \<Rightarrow> string + time" where
  "computeNextTrigger nextCron cronExpression timezone now = nextCron cronExpression timezone now"

definition due :: "time \<Rightarrow> Schedule \<Rightarrow> bool" where
  "due now s \<longleftrightarrow> sd_isActive s \<and> (case sd_nextTriggerAt s of None \<Rightarrow> False | Some t \<Rightarrow> t \<le> now)"

definition fetchDueSchedules :: "time \<Rightarrow> id set \<Rightarrow> schedules \<Rightarrow> Schedule list" where
  "fetchDueSchedules now locked ss = filter (\<lambda>s. due now s \<and> sd_id s \<notin> locked) ss"

definition cronDto :: "string \<Rightarrow> Schedule \<Rightarrow> CreateJobDto" where
  "cronDto stamp s =
     \<lparr>c_name = sd_name s @ '' [cron:'' @ stamp @ '']'', c_description = sd_description s,
      c_type = t_type (sd_jobTemplate s), c_payload = t_payload (sd_jobTemplate s),
      c_priority = t_priority (sd_jobTemplate s), c_scheduledAt = None, c_cronExpression = None,
      c_timezone = None, c_timeoutMs = t_timeoutMs (sd_jobTemplate s),
      c_retryConfig = t_retryConfig (sd_jobTemplate s), c_dependencies = None,
      c_tags = Some (nullish (t_tags (sd_jobTemplate s)) [] @ [''cron'', ''schedule:'' @ sd_id s]),
      c_metadata = Some [(''scheduleId'', JStr (sd_id s)), (''triggeredAt'', JStr stamp)],
      c_organizationId = sd_organizationId s, c_createdBy = sd_createdBy s\<rparr>"

definition advanced :: "time \<Rightarrow> time \<Rightarrow> Schedule \<Rightarrow> Schedule" where
  "advanced nextRun now s = s\<lparr>sd_lastTriggeredAt := Some now, sd_nextTriggerAt := Some nextRun,
     sd_totalTriggeredCount := sd_totalTriggeredCount s + 1, sd_updatedAt := now\<rparr>"

datatype cron_error = CronError string | TriggerError db_error

text \<open>\<^verbatim>\<open>triggerSchedule\<close>, where \<^verbatim>\<open>onTrigger\<close> submits the job. A raised error keeps what was written before.\<close>

definition triggerSchedule ::
  "cron \<Rightarrow> string \<Rightarrow> time \<Rightarrow> id \<Rightarrow> Schedule \<Rightarrow> schedules \<times> Scheduler \<times> ('q, 'd) world \<Rightarrow>
   cron_error option \<times> schedules \<times> Scheduler \<times> ('q, 'd) world" where
  "triggerSchedule nextCron stamp now newId s st =
     (case nextCron (sd_cronExpression s) (sd_timezone s) now of
        Inl msg \<Rightarrow> (Some (CronError msg), st)
      | Inr nextRun \<Rightarrow>
          (let ss = updateSchedules (\<lambda>x. sd_id x = sd_id s) (advanced nextRun now) (fst st)
           in case submitJob newId now (cronDto stamp s) (snd st) of
                Inl err \<Rightarrow> (Some (TriggerError err), ss, snd st)
              | Inr (job, st') \<Rightarrow> (None, ss, st')))"

text \<open>The loop of \<^verbatim>\<open>tick\<close>: the first error ends it. \<^verbatim>\<open>tick\<close> itself catches the error.\<close>

fun triggerAll ::
  "cron \<Rightarrow> string \<Rightarrow> time \<Rightarrow> (id \<Rightarrow> id) \<Rightarrow> Schedule list \<Rightarrow> schedules \<times> Scheduler \<times> ('q, 'd) world \<Rightarrow>
   cron_error option \<times> schedules \<times> Scheduler \<times> ('q, 'd) world" where
  "triggerAll nextCron stamp now newId [] st = (None, st)"
| "triggerAll nextCron stamp now newId (s # ss) st =
     (case triggerSchedule nextCron stamp now (newId (sd_id s)) s st of
        (Some err, st') \<Rightarrow> (Some err, st')
      | (None, st') \<Rightarrow> triggerAll nextCron stamp now newId ss st')"

definition cronTick ::
  "cron \<Rightarrow> string \<Rightarrow> time \<Rightarrow> (id \<Rightarrow> id) \<Rightarrow> id set \<Rightarrow> schedules \<times> Scheduler \<times> ('q, 'd) world \<Rightarrow>
   schedules \<times> Scheduler \<times> ('q, 'd) world" where
  "cronTick nextCron stamp now newId locked st =
     snd (triggerAll nextCron stamp now newId (fetchDueSchedules now locked (fst st)) st)"

record Cron =
  cr_isRunning :: bool
  cr_pollInterval :: bool

definition startCron :: "Cron \<Rightarrow> Cron" where
  "startCron c = (if cr_isRunning c then c else c\<lparr>cr_isRunning := True, cr_pollInterval := True\<rparr>)"

definition stopCron :: "Cron \<Rightarrow> Cron" where
  "stopCron c = c\<lparr>cr_pollInterval := False, cr_isRunning := False\<rparr>"

section \<open>routes/schedules.ts\<close>

record CreateScheduleBody =
  b_name :: string
  b_description :: "string option"
  b_cronExpression :: string
  b_timezone :: "string option"
  b_jobTemplate :: JobTemplate

text \<open>
  A response is its status code and its body. \<open>duplicateMsg\<close> is the message of the
  database's error for a taken identifier.
\<close>

definition listSchedules :: "id \<Rightarrow> schedules \<Rightarrow> nat \<times> Schedule list" where
  "listSchedules org ss =
     (200, js_sort (\<lambda>a b. of_int (sd_createdAt b - sd_createdAt a)) (filter (\<lambda>s. sd_organizationId s = org) ss))"

definition createSchedule ::
  "cron \<Rightarrow> (id \<Rightarrow> string) \<Rightarrow> id \<Rightarrow> time \<Rightarrow> id \<Rightarrow> id \<Rightarrow> CreateScheduleBody \<Rightarrow> schedules \<Rightarrow>
   (nat \<times> (string + Schedule)) \<times> schedules" where
  "createSchedule nextCron duplicateMsg newId now org user body ss =
     (let tz = nullish (b_timezone body) ''UTC''
      in case computeNextTrigger nextCron (b_cronExpression body) tz now of
           Inl msg \<Rightarrow> ((422, Inl msg), ss)
         | Inr nextTrigger \<Rightarrow>
             (let row = \<lparr>sd_id = newId, sd_name = b_name body, sd_description = b_description body,
                    sd_cronExpression = b_cronExpression body, sd_timezone = tz,
                    sd_jobTemplate = b_jobTemplate body, sd_isActive = True, sd_lastTriggeredAt = None,
                    sd_nextTriggerAt = Some nextTrigger, sd_totalTriggeredCount = 0, sd_organizationId = org,
                    sd_createdBy = user, sd_createdAt = now, sd_updatedAt = now\<rparr>
              in if newId \<in> set (map sd_id ss) then ((422, Inl (duplicateMsg newId)), ss)
                 else ((201, Inr row), ss @ [row])))"

definition pauseSchedule :: "id \<Rightarrow> id \<Rightarrow> time \<Rightarrow> schedules \<Rightarrow> nat \<times> schedules" where
  "pauseSchedule i org now ss =
     (200, updateSchedules (\<lambda>s. sd_id s = i \<and> sd_organizationId s = org)
        (\<lambda>s. s\<lparr>sd_isActive := False, sd_updatedAt := now\<rparr>) ss)"

text \<open>
  The query builder's \<^verbatim>\<open>first\<close> answers a row or \<^verbatim>\<open>undefined\<close>, neither of which is iterable:
  the array pattern \<^verbatim>\<open>[row]\<close> raises a TypeError for both, and the handler answers 500.
\<close>

definition destructureFirst :: "'a option \<Rightarrow> unit + 'a option" where
  "destructureFirst answer = Inl ()"

definition resumeSchedule :: "cron \<Rightarrow> id \<Rightarrow> id \<Rightarrow> time \<Rightarrow> schedules \<Rightarrow> (nat \<times> time option) \<times> schedules" where
  "resumeSchedule nextCron i org now ss =
     (case destructureFirst (List.find (\<lambda>s. sd_id s = i \<and> sd_organizationId s = org) ss) of
        Inl _ \<Rightarrow> ((500, None), ss)
      | Inr None \<Rightarrow> ((404, None), ss)
      | Inr (Some row) \<Rightarrow>
          (case computeNextTrigger nextCron (sd_cronExpression row) (sd_timezone row) now of
             Inl msg \<Rightarrow> ((500, None), ss)
           | Inr nextTrigger \<Rightarrow>
               ((200, Some nextTrigger), updateSchedules (\<lambda>s. sd_id s = i)
                  (\<lambda>s. s\<lparr>sd_isActive := True, sd_nextTriggerAt := Some nextTrigger, sd_updatedAt := now\<rparr>) ss)))"

definition deleteSchedule :: "id \<Rightarrow> id \<Rightarrow> schedules \<Rightarrow> nat \<times> schedules" where
  "deleteSchedule i org ss = (204, filter (\<lambda>s. \<not> (sd_id s = i \<and> sd_organizationId s = org)) ss)"

section \<open>Lemmas\<close>

definition nextOf :: "cron \<Rightarrow> time \<Rightarrow> Schedule \<Rightarrow> time" where
  "nextOf nextCron now s = (case nextCron (sd_cronExpression s) (sd_timezone s) now of Inr t \<Rightarrow> t | Inl _ \<Rightarrow> now)"

definition cron_ok :: "cron \<Rightarrow> time \<Rightarrow> Schedule \<Rightarrow> bool" where
  "cron_ok nextCron now s =
     (case nextCron (sd_cronExpression s) (sd_timezone s) now of Inl _ \<Rightarrow> False | Inr t \<Rightarrow> now < t)"

definition cronRow :: "string \<Rightarrow> time \<Rightarrow> (id \<Rightarrow> id) \<Rightarrow> Schedule \<Rightarrow> Job" where
  "cronRow stamp now newId s = newRow (newId (sd_id s)) now (cronDto stamp s)"

definition advance :: "cron \<Rightarrow> time \<Rightarrow> Schedule \<Rightarrow> schedules \<Rightarrow> schedules" where
  "advance nextCron now s = updateSchedules (\<lambda>x. sd_id x = sd_id s) (advanced (nextOf nextCron now s) now)"

lemma triggerSchedule_ok:
  assumes "cron_ok nextCron now s" "findById newId (s_jobs w) = None"
  shows "\<exists>sc' w'. triggerSchedule nextCron stamp now newId s (ss, sc, w) = (None, advance nextCron now s ss, sc', w') \<and>
    s_jobs w' = s_jobs w @ [newRow newId now (cronDto stamp s)]"
  using assms by (auto simp: triggerSchedule_def cron_ok_def nextOf_def advance_def Let_def submitJob_def create_fresh
      split: sum.splits)

lemma triggerAll_ok:
  assumes "\<forall>s \<in> set ds. cron_ok nextCron now s" "distinct (map (\<lambda>s. newId (sd_id s)) ds)"
    and "\<forall>s \<in> set ds. findById (newId (sd_id s)) (s_jobs w) = None"
  shows "\<exists>sc' w'. triggerAll nextCron stamp now newId (ds @ rest) (ss, sc, w) =
      triggerAll nextCron stamp now newId rest (fold (advance nextCron now) ds ss, sc', w') \<and>
    s_jobs w' = s_jobs w @ map (cronRow stamp now newId) ds"
  using assms
proof (induction ds arbitrary: ss sc w)
  case (Cons d ds)
  obtain sc1 w1 where one: "triggerSchedule nextCron stamp now (newId (sd_id d)) d (ss, sc, w) =
      (None, advance nextCron now d ss, sc1, w1)" and jobs: "s_jobs w1 = s_jobs w @ [cronRow stamp now newId d]"
    using triggerSchedule_ok [of nextCron now d "newId (sd_id d)" w stamp ss sc] Cons.prems by (auto simp: cronRow_def)
  have "\<forall>s \<in> set ds. findById (newId (sd_id s)) (s_jobs w1) = None"
    using Cons.prems by (auto simp: jobs findById_append cronRow_def)
  with Cons.IH [of w1 "advance nextCron now d ss" sc1] Cons.prems one jobs show ?case by auto
qed auto

lemma advance_eq: "advance nextCron now s ss =
  map (\<lambda>x. if sd_id x = sd_id s then advanced (nextOf nextCron now s) now x else x) ss"
  by (simp add: advance_def updateSchedules_def)

lemma advanced_simps [simp]:
  "sd_id (advanced t now s) = sd_id s" "sd_isActive (advanced t now s) = sd_isActive s"
  "sd_nextTriggerAt (advanced t now s) = Some t"
  by (simp_all add: advanced_def)

lemma fold_advance:
  "distinct (map sd_id ds) \<Longrightarrow> fold (advance nextCron now) ds ss =
   map (\<lambda>x. case List.find (\<lambda>s. sd_id s = sd_id x) ds of None \<Rightarrow> x | Some s \<Rightarrow> advanced (nextOf nextCron now s) now x) ss"
proof (induction ds arbitrary: ss)
  case (Cons d ds)
  have "List.find (\<lambda>s. sd_id s = sd_id d) ds = None"
    using Cons.prems by (auto simp: find_None_iff image_iff)
  then show ?case using Cons by (auto simp: advance_eq split: option.split)
qed simp

interpretation schedule_rows: keyed_table sd_id "\<lambda>i. List.find (\<lambda>s. sd_id s = i)" updateSchedules
  by unfold_locales (simp_all add: updateSchedules_def)

lemma find_self:
  "distinct (map sd_id ss) \<Longrightarrow> x \<in> set (ss :: schedules) \<Longrightarrow>
   List.find (\<lambda>s. sd_id s = sd_id x) (filter p ss) = (if p x then Some x else None)"
  by (simp add: schedule_rows.look_filter schedule_rows.look_mem)

lemma advance_all:
  assumes "distinct (map sd_id ss)"
  shows "fold (advance nextCron now) (filter p ss) ss = map (\<lambda>s. if p s then advanced (nextOf nextCron now s) now s else s) ss"
  using assms distinct_map_filter [of sd_id ss p] by (auto simp: fold_advance find_self)

lemma not_due_advanced: "cron_ok nextCron now s \<Longrightarrow> \<not> due now (advanced (nextOf nextCron now s) now s)"
  by (auto simp: due_def cron_ok_def nextOf_def split: sum.splits)

section \<open>Properties\<close>

text \<open>
  C22. A tick triggers every due schedule once: with readable cron expressions and new
  identifiers, one job is created per due schedule, with the schedule's template, in
  order; each of these schedules is counted once and moved on, no other changes, and a
  second tick at the same instant finds nothing to do.
\<close>

theorem cron_tick_once:
  assumes ids: "distinct (map sd_id ss)" and crons: "\<forall>s \<in> set (fetchDueSchedules now locked ss). cron_ok nextCron now s"
    and new: "distinct (map (\<lambda>s. newId (sd_id s)) (fetchDueSchedules now locked ss))"
      "\<forall>s \<in> set (fetchDueSchedules now locked ss). findById (newId (sd_id s)) (s_jobs w) = None"
    and run: "cronTick nextCron stamp now newId locked (ss, sc, w) = (ss', sc', w')"
  shows "s_jobs w' = s_jobs w @ map (\<lambda>s. newRow (newId (sd_id s)) now (cronDto stamp s)) (fetchDueSchedules now locked ss) \<and>
    ss' = map (\<lambda>s. if due now s \<and> sd_id s \<notin> locked then advanced (nextOf nextCron now s) now s else s) ss \<and>
    fetchDueSchedules now locked ss' = []"
proof -
  let ?ds = "fetchDueSchedules now locked ss"
  obtain sc1 w1 where "triggerAll nextCron stamp now newId ?ds (ss, sc, w) = (None, fold (advance nextCron now) ?ds ss, sc1, w1)"
    and jobs: "s_jobs w1 = s_jobs w @ map (cronRow stamp now newId) ?ds"
    using triggerAll_ok [OF crons new, of stamp "[]" ss sc] by auto
  then have ss': "ss' = map (\<lambda>s. if due now s \<and> sd_id s \<notin> locked then advanced (nextOf nextCron now s) now s else s) ss"
    and w': "w' = w1"
    using run advance_all [OF ids, of nextCron now "\<lambda>s. due now s \<and> sd_id s \<notin> locked"]
    by (simp_all add: cronTick_def fetchDueSchedules_def)
  have "fetchDueSchedules now locked ss' = []"
    using crons not_due_advanced [of nextCron now]
    by (auto simp: ss' fetchDueSchedules_def filter_empty_conv split: if_splits)
  with ss' show ?thesis by (simp add: w' jobs cronRow_def fun_eq_iff [of "cronRow stamp now newId"])
qed

text \<open>
  One unreadable cron expression stops all the schedules behind it: the tick ends there,
  the schedules before it are triggered, and the bad one and all after it are still due
  afterwards, so that every later tick ends at the same place.
\<close>

theorem cron_error_blocks:
  assumes ids: "distinct (map sd_id ss)" and split: "fetchDueSchedules now locked ss = xs @ bad # ys"
    and xs: "\<forall>s \<in> set xs. cron_ok nextCron now s" and bad: "nextCron (sd_cronExpression bad) (sd_timezone bad) now = Inl msg"
    and new: "distinct (map (\<lambda>s. newId (sd_id s)) xs)" "\<forall>s \<in> set xs. findById (newId (sd_id s)) (s_jobs w) = None"
    and run: "cronTick nextCron stamp now newId locked (ss, sc, w) = (ss', sc', w')"
  shows "fetchDueSchedules now locked ss' = bad # ys \<and>
    s_jobs w' = s_jobs w @ map (\<lambda>s. newRow (newId (sd_id s)) now (cronDto stamp s)) xs"
proof -
  obtain sc1 w1 where all: "triggerAll nextCron stamp now newId (xs @ bad # ys) (ss, sc, w) =
      triggerAll nextCron stamp now newId (bad # ys) (fold (advance nextCron now) xs ss, sc1, w1)"
    and jobs: "s_jobs w1 = s_jobs w @ map (cronRow stamp now newId) xs"
    using triggerAll_ok [OF xs new] by blast
  then have res: "ss' = fold (advance nextCron now) xs ss" "w' = w1"
    using run by (simp_all add: cronTick_def split triggerSchedule_def bad)
  let ?d = "\<lambda>s. due now s \<and> sd_id s \<notin> locked"
  have dist: "distinct (map sd_id (xs @ bad # ys))"
    using ids by (simp add: split [symmetric] fetchDueSchedules_def distinct_map_filter)
  have mem: "set (xs @ bad # ys) = {s \<in> set ss. ?d s}"
    by (simp add: split [symmetric] fetchDueSchedules_def)
  define f where "f x = (case List.find (\<lambda>s. sd_id s = sd_id x) xs of None \<Rightarrow> x | Some s \<Rightarrow> advanced (nextOf nextCron now s) now x)" for x
  have f: "?d (f x) \<longleftrightarrow> ?d x \<and> x \<notin> set xs" "?d (f x) \<Longrightarrow> f x = x" if x: "x \<in> set ss" for x
  proof -
    have "List.find (\<lambda>s. sd_id s = sd_id x) xs = (if x \<in> set xs then Some x else None)"
    proof (cases "x \<in> set xs")
      case True
      with dist show ?thesis using find_self [of xs x "\<lambda>_. True"] by simp
    next
      case False
      have "sd_id s \<noteq> sd_id x" if "s \<in> set xs" for s
        using that mem x ids False by (auto simp: distinct_map inj_on_def)
      with False show ?thesis by (auto simp: find_None_iff)
    qed
    then show "?d (f x) \<longleftrightarrow> ?d x \<and> x \<notin> set xs" "?d (f x) \<Longrightarrow> f x = x"
      using xs not_due_advanced [of nextCron now x] by (auto simp: f_def)
  qed
  have "filter ?d (map f ss) = filter (\<lambda>x. x \<notin> set xs) (filter ?d ss)"
    using f by (induction ss) auto
  also have "\<dots> = bad # ys"
    using dist by (auto simp: split [unfolded fetchDueSchedules_def] distinct_map)
      (auto simp: filter_empty_conv filter_id_conv)
  finally have rest: "filter ?d (map f ss) = bad # ys" .
  have "ss' = map f ss" using dist by (simp add: res(1) fold_advance f_def [abs_def])
  then have "fetchDueSchedules now locked ss' = bad # ys" using rest by (simp add: fetchDueSchedules_def)
  then show ?thesis by (simp add: res(2) jobs cronRow_def fun_eq_iff [of "cronRow stamp now newId"])
qed

definition sample_schedule :: "id \<Rightarrow> string \<Rightarrow> Schedule" where
  "sample_schedule i expr = \<lparr>sd_id = i, sd_name = ''nightly'', sd_description = None, sd_cronExpression = expr,
     sd_timezone = ''UTC'', sd_jobTemplate = \<lparr>t_type = WEBHOOK, t_payload = [], t_priority = None, t_timeoutMs = None,
       t_retryConfig = None, t_tags = None\<rparr>, sd_isActive = True, sd_lastTriggeredAt = None, sd_nextTriggerAt = Some 5,
     sd_totalTriggeredCount = 0, sd_organizationId = ''o'', sd_createdBy = ''u'', sd_createdAt = 0, sd_updatedAt = 0\<rparr>"

text \<open>A parser that reads only the expression for every minute.\<close>

definition minutely :: cron where
  "minutely expr tz now = (if expr = ''* * * * *'' then Inr ((now div 60000 + 1) * 60000) else Inl ''bad expression'')"

lemma minutely_ok: "cron_ok minutely now (sample_schedule i ''* * * * *'')"
proof -
  have "now < (now div 60000 + 1) * 60000" by presburger
  then show ?thesis by (simp add: cron_ok_def minutely_def sample_schedule_def)
qed

theorem cron_tick_once_witness:
  "\<exists>ss' sc' w'. cronTick minutely ''s'' 10 (\<lambda>i. ''job-'' @ i) {}
      ([sample_schedule ''a'' ''* * * * *'', sample_schedule ''b'' ''* * * * *''], new_Scheduler, sample_world []) = (ss', sc', w') \<and>
    length (s_jobs w') = 2 \<and> fetchDueSchedules 10 {} ss' = []"
proof -
  let ?ss = "[sample_schedule ''a'' ''* * * * *'', sample_schedule ''b'' ''* * * * *'']" and ?new = "\<lambda>i. ''job-'' @ i"
  obtain ss' sc' w' where run: "cronTick minutely ''s'' 10 ?new {} (?ss, new_Scheduler, sample_world []) = (ss', sc', w')"
    by (metis prod_cases3)
  have due: "fetchDueSchedules 10 {} ?ss = ?ss" by (simp add: fetchDueSchedules_def due_def sample_schedule_def)
  have pre: "distinct (map sd_id ?ss)" "\<forall>s \<in> set (fetchDueSchedules 10 {} ?ss). cron_ok minutely 10 s"
    "distinct (map (\<lambda>s. ?new (sd_id s)) (fetchDueSchedules 10 {} ?ss))"
    "\<forall>s \<in> set (fetchDueSchedules 10 {} ?ss). findById (?new (sd_id s)) (s_jobs (sample_world [])) = None"
    unfolding due by (simp_all add: minutely_ok) (simp_all add: sample_schedule_def sample_world_def)
  note once = cron_tick_once [OF pre run]
  from once have "fetchDueSchedules 10 {} ss' = []" by blast
  moreover from once [THEN conjunct1] have "length (s_jobs w') = 2"
    unfolding due by (simp add: sample_world_def)
  ultimately show ?thesis using run by blast
qed

theorem cron_error_blocks_witness:
  "\<exists>ss' sc' w'. cronTick minutely ''s'' 10 (\<lambda>i. ''job-'' @ i) {}
      ([sample_schedule ''a'' ''bad*'', sample_schedule ''b'' ''* * * * *''], new_Scheduler, sample_world []) = (ss', sc', w') \<and>
    s_jobs w' = s_jobs (sample_world []) \<and> length (fetchDueSchedules 10 {} ss') = 2"
proof -
  let ?ss = "[sample_schedule ''a'' ''bad*'', sample_schedule ''b'' ''* * * * *'']" and ?new = "\<lambda>i. ''job-'' @ i"
  obtain ss' sc' w' where run: "cronTick minutely ''s'' 10 ?new {} (?ss, new_Scheduler, sample_world []) = (ss', sc', w')"
    by (metis prod_cases3)
  have pre: "distinct (map sd_id ?ss)" "fetchDueSchedules 10 {} ?ss = [] @ sample_schedule ''a'' ''bad*'' # [sample_schedule ''b'' ''* * * * *'']"
    "minutely (sd_cronExpression (sample_schedule ''a'' ''bad*'')) (sd_timezone (sample_schedule ''a'' ''bad*'')) 10 = Inl ''bad expression''"
    by (simp_all add: fetchDueSchedules_def due_def sample_schedule_def minutely_def)
  from cron_error_blocks [OF pre(1,2) _ pre(3) _ _ run] run show ?thesis by simp
qed

text \<open>
  The life of the table of schedules: ticks, requests and changes to the rest of the state
  (\<open>others\<close>) in any order. The identifiers generated for new rows differ from \<open>i\<close>, the one
  whose fate is followed.
\<close>

inductive schedule_run ::
  "cron \<Rightarrow> id \<Rightarrow> schedules \<times> Scheduler \<times> ('q, 'd) world \<Rightarrow> schedules \<times> Scheduler \<times> ('q, 'd) world \<Rightarrow> bool"
  for nextCron i st where
  none: "schedule_run nextCron i st st"
| tick: "schedule_run nextCron i st st1 \<Longrightarrow> schedule_run nextCron i st (cronTick nextCron stamp now newId locked st1)"
| create: "schedule_run nextCron i st (ss, rest) \<Longrightarrow> newId \<noteq> i \<Longrightarrow>
    schedule_run nextCron i st (snd (createSchedule nextCron dup newId now org user body ss), rest)"
| pause: "schedule_run nextCron i st (ss, rest) \<Longrightarrow> schedule_run nextCron i st (snd (pauseSchedule k org now ss), rest)"
| resume: "schedule_run nextCron i st (ss, rest) \<Longrightarrow>
    schedule_run nextCron i st (snd (resumeSchedule nextCron k org now ss), rest)"
| delete: "schedule_run nextCron i st (ss, rest) \<Longrightarrow> schedule_run nextCron i st (snd (deleteSchedule k org ss), rest)"
| others: "schedule_run nextCron i st (ss, rest) \<Longrightarrow> schedule_run nextCron i st (ss, rest')"

definition paused :: "id \<Rightarrow> schedules \<Rightarrow> bool" where
  "paused i ss \<longleftrightarrow> (\<forall>s \<in> set ss. sd_id s = i \<longrightarrow> \<not> sd_isActive s)"

lemma paused_trigger:
  assumes "paused i (fst st)" "triggerAll nextCron stamp now newId ds st = (e, st')"
  shows "paused i (fst st')"
  using assms
proof (induction ds arbitrary: st)
  case (Cons d ds)
  obtain e1 st1 where one: "triggerSchedule nextCron stamp now (newId (sd_id d)) d st = (e1, st1)" by (metis surj_pair)
  then have "paused i (fst st1)"
    using Cons.prems(1)
    by (auto simp: triggerSchedule_def Let_def paused_def updateSchedules_def split: sum.splits if_splits)
  with Cons one show ?case by (cases e1) auto
qed simp

text \<open>
  A schedule that has been paused stays paused: no sequence of ticks and requests, resume
  requests included, makes it active again, so it is never triggered again.
\<close>

theorem paused_forever:
  assumes "schedule_run nextCron i (ss, rest) (ss', rest')" "paused i ss"
  shows "(\<forall>s \<in> set ss'. sd_id s = i \<longrightarrow> \<not> sd_isActive s) \<and>
    (\<forall>now locked. i \<notin> sd_id ` set (fetchDueSchedules now locked ss'))"
proof -
  have "paused i (fst st')" if "schedule_run nextCron i st st'" "paused i (fst st)" for st st'
    using that
  proof induction
    case (tick st1 stamp now newId locked)
    obtain e st2 where "triggerAll nextCron stamp now newId (fetchDueSchedules now locked (fst st1)) st1 = (e, st2)" by (metis surj_pair)
    with tick show ?case using paused_trigger by (fastforce simp: cronTick_def)
  qed (auto simp: paused_def createSchedule_def pauseSchedule_def resumeSchedule_def deleteSchedule_def
      destructureFirst_def updateSchedules_def Let_def split: sum.splits if_splits)
  from this [OF assms(1)] assms(2) show ?thesis by (auto simp: paused_def fetchDueSchedules_def due_def)
qed

theorem paused_forever_witness:
  "\<not> sd_isActive (hd (snd (resumeSchedule minutely ''a'' ''o'' 9
      (snd (pauseSchedule ''a'' ''o'' 5 [sample_schedule ''a'' ''* * * * *''])))))"
proof -
  let ?p = "snd (pauseSchedule ''a'' ''o'' 5 [sample_schedule ''a'' ''* * * * *''])"
  let ?w = "(new_Scheduler, sample_world [])"
  have "schedule_run minutely ''a'' (?p, ?w) (snd (resumeSchedule minutely ''a'' ''o'' 9 ?p), ?w)"
    by (intro schedule_run.resume schedule_run.none)
  moreover have "paused ''a'' ?p" by (simp add: paused_def pauseSchedule_def updateSchedules_def sample_schedule_def)
  ultimately have "\<forall>s \<in> set (snd (resumeSchedule minutely ''a'' ''o'' 9 ?p)). sd_id s = ''a'' \<longrightarrow> \<not> sd_isActive s"
    using paused_forever by blast
  then show ?thesis
    by (simp add: resumeSchedule_def destructureFirst_def pauseSchedule_def updateSchedules_def sample_schedule_def)
qed

end
