(* ===== verification/JobService.thy ===== *)
theory JobService
  imports WorkerProcess CronScheduler
begin

text \<open>
  \<^verbatim>\<open>src/services/JobService.ts\<close> and \<^verbatim>\<open>src/services/RetryService.ts\<close>: the operations the
  API offers on jobs, with authorization by organization, and the retry policy with
  the replay of dead letters. The error classes of the source are the constructors of
  \<open>service_error\<close>. The cron parser is an argument: it answers an expression and a time zone
  with the next instant or with its error message.
\<close>

section \<open>JobService.ts\<close>

datatype service_error =
    NotFoundError string | ForbiddenError string | ConflictError string | PlainError string
  | DatabaseError db_error

definition statusCode :: "service_error \<Rightarrow> nat option" where
  "statusCode e = (case e of
     NotFoundError _ \<Rightarrow> Some 404 | ForbiddenError _ \<Rightarrow> Some 403 | ConflictError _ \<Rightarrow> Some 409
   | PlainError _ \<Rightarrow> None | DatabaseError _ \<Rightarrow> None)"

fun statusName :: "JobStatus \<Rightarrow> string" where
  "statusName PENDING = ''PENDING''"
| "statusName QUEUED = ''QUEUED''"
| "statusName RUNNING = ''RUNNING''"
| "statusName COMPLETED = ''COMPLETED''"
| "statusName FAILED = ''FAILED''"
| "statusName RETRYING = ''RETRYING''"
| "statusName CANCELLED = ''CANCELLED''"
| "statusName TIMED_OUT = ''TIMED_OUT''"
| "statusName SKIPPED = ''SKIPPED''"

fun checkDependencies :: "JobDependency list \<Rightarrow> jobs \<Rightarrow> service_error + unit" where
  "checkDependencies [] db = Inr ()"
| "checkDependencies (dep # deps) db =
     (if findById (dep_jobId dep) db = None
      then Inl (PlainError (''Dependency job not found: '' @ dep_jobId dep))
      else checkDependencies deps db)"

definition createJob ::
  "cron \<Rightarrow> id \<Rightarrow> time \<Rightarrow> CreateJobDto \<Rightarrow> Scheduler \<times> ('q, 'd) world \<Rightarrow>
   service_error + Job \<times> Scheduler \<times> ('q, 'd) world" where
  "createJob nextCron newId now dto st =
     (case (case c_cronExpression dto of
              None \<Rightarrow> Inr ()
            | Some e \<Rightarrow> if e = [] then Inr ()
                else (case computeNextTrigger nextCron e (nullish (c_timezone dto) ''UTC'') now of
                        Inl msg \<Rightarrow> Inl (PlainError msg) | Inr _ \<Rightarrow> Inr ())) of
        Inl e \<Rightarrow> Inl e
      | Inr _ \<Rightarrow>
          (case checkDependencies (nullish (c_dependencies dto) []) (s_jobs (snd st)) of
             Inl e \<Rightarrow> Inl e
           | Inr _ \<Rightarrow> (case submitJob newId now dto st of
                 Inl e \<Rightarrow> Inl (DatabaseError e) | Inr r \<Rightarrow> Inr r)))"

definition getJob :: "id \<Rightarrow> id \<Rightarrow> jobs \<Rightarrow> service_error + Job" where
  "getJob i organizationId db =
     (case findById i db of
        None \<Rightarrow> Inl (NotFoundError (''Job not found: '' @ i))
      | Some job \<Rightarrow> if j_organizationId job \<noteq> organizationId then Inl (ForbiddenError ''Access denied'') else Inr job)"

definition listJobs :: "JobFilter \<Rightarrow> jobs \<Rightarrow> db_error + PaginatedJobs" where
  "listJobs flt db = findMany flt db"

definition cancelJob :: "id \<Rightarrow> id \<Rightarrow> time \<Rightarrow> jobs \<Rightarrow> service_error + Job \<times> jobs" where
  "cancelJob i organizationId now db =
     (case getJob i organizationId db of
        Inl e \<Rightarrow> Inl e
      | Inr job \<Rightarrow>
          if j_status job \<in> set [COMPLETED, FAILED, CANCELLED]
          then Inl (ConflictError (''Cannot cancel job in status: '' @ statusName (j_status job)))
          else (case update i (empty_update\<lparr>u_status := Some CANCELLED, u_completedAt := Some now\<rparr>) now db of
                  (None, db') \<Rightarrow> Inl (PlainError ''Failed to cancel job'')
                | (Some updated, db') \<Rightarrow> Inr (updated, db')))"

definition retryJob :: "id \<Rightarrow> id \<Rightarrow> time \<Rightarrow> jobs \<Rightarrow> service_error + Job \<times> jobs" where
  "retryJob i organizationId now db =
     (case getJob i organizationId db of
        Inl e \<Rightarrow> Inl e
      | Inr job \<Rightarrow>
          if j_status job \<notin> set [FAILED, CANCELLED, TIMED_OUT]
          then Inl (ConflictError (''Cannot retry job in status: '' @ statusName (j_status job)))
          else (case update i (empty_update\<lparr>u_status := Some PENDING, u_workerId := None, u_startedAt := None,
                    u_completedAt := None, u_errorMessage := None, u_errorStack := None\<rparr>) now db of
                  (None, db') \<Rightarrow> Inl (PlainError ''Failed to retry job'')
                | (Some updated, db') \<Rightarrow> Inr (updated, db')))"

definition getJobHistory :: "id \<Rightarrow> id \<Rightarrow> jobs \<Rightarrow> execution_logs \<Rightarrow> service_error + ExecutionLog list" where
  "getJobHistory i organizationId db ls =
     (case getJob i organizationId db of Inl e \<Rightarrow> Inl e | Inr _ \<Rightarrow> Inr (findByJobId i ls))"

definition bulkCancelStep :: "id \<Rightarrow> time \<Rightarrow> id \<Rightarrow> (id list \<times> id list) \<times> jobs \<Rightarrow> (id list \<times> id list) \<times> jobs" where
  "bulkCancelStep organizationId now i st =
     (let ((cancelled, skipped), db) = st
      in case cancelJob i organizationId now db of
           Inl e \<Rightarrow> ((cancelled, skipped @ [i]), db)
         | Inr (_, db') \<Rightarrow> ((cancelled @ [i], skipped), db'))"

definition bulkCancel :: "id list \<Rightarrow> id \<Rightarrow> time \<Rightarrow> jobs \<Rightarrow> (id list \<times> id list) \<times> jobs" where
  "bulkCancel ids organizationId now db = fold (bulkCancelStep organizationId now) ids (([], []), db)"

definition no_conditions :: JobFilter where
  "no_conditions = \<lparr>f_status = None, f_priority = None, f_type = None, f_organizationId = None,
     f_createdBy = None, f_tags = None, f_scheduledBefore = None, f_scheduledAfter = None,
     f_createdBefore = None, f_createdAfter = None, f_search = None, f_page = None, f_limit = None,
     f_sortBy = None, f_sortOrder = None\<rparr>"

definition countStatus :: "id \<Rightarrow> jobs \<Rightarrow> JobStatus \<Rightarrow> db_error + nat" where
  "countStatus organizationId db st =
     map_sum id pg_total (findMany (no_conditions\<lparr>f_organizationId := Some organizationId,
        f_status := Some [st], f_limit := Some 1\<rparr>) db)"

text \<open>\<^verbatim>\<open>Promise.all\<close>: the results in order, or the first error.\<close>

fun promiseAll :: "('e + 'a) list \<Rightarrow> 'e + 'a list" where
  "promiseAll [] = Inr []"
| "promiseAll (p # ps) = (case p of Inl e \<Rightarrow> Inl e | Inr x \<Rightarrow> map_sum id ((#) x) (promiseAll ps))"

record JobStats =
  js_total :: nat
  js_byStatus :: "(string \<times> nat) list"
  js_byPriority :: "(string \<times> nat) list"
  js_avgDurationMs :: nat

definition statStatuses :: "JobStatus list" where
  "statStatuses = [PENDING, QUEUED, RUNNING, COMPLETED, FAILED, RETRYING, CANCELLED]"

definition getJobStats :: "id \<Rightarrow> jobs \<Rightarrow> db_error + JobStats" where
  "getJobStats organizationId db =
     (case promiseAll (map (countStatus organizationId db) statStatuses) of
        Inl e \<Rightarrow> Inl e
      | Inr totals \<Rightarrow> Inr \<lparr>js_total = sum_list totals,
          js_byStatus = zip (map statusName statStatuses) totals,
          js_byPriority = [], js_avgDurationMs = 0\<rparr>)"

section \<open>RetryService.ts\<close>

definition PERMANENT_ERRORS :: "string list" where
  "PERMANENT_ERRORS = [''SECURITY_VIOLATION'', ''HANDLER_NOT_FOUND'', ''UNKNOWN_JOB_TYPE'',
     ''PERMISSION_DENIED'', ''RESOURCE_NOT_FOUND'']"

text \<open>An error code that is absent or empty is falsy.\<close>

definition shouldRetry :: "Job \<Rightarrow> string option \<Rightarrow> bool" where
  "shouldRetry job errorCode =
     (let code = (case errorCode of None \<Rightarrow> None | Some c \<Rightarrow> if c = [] then None else Some c)
      in if j_retryCount job \<ge> j_maxRetries job then False
         else if (\<exists>c \<in> set_option code. c \<in> set PERMANENT_ERRORS) then False
         else if length (rc_retryOn (j_retryConfig job)) > 0
         then (case code of None \<Rightarrow> False | Some c \<Rightarrow> c \<in> set (rc_retryOn (j_retryConfig job)))
         else True)"

definition getRetryDelay :: "Job \<Rightarrow> number \<Rightarrow> number" where
  "getRetryDelay job rnd =
     computeRetryDelay (of_int (rc_retryDelay (j_retryConfig job))) (j_retryCount job + 1)
       (rc_retryBackoff (j_retryConfig job)) rnd"

definition manualRetry :: "id \<Rightarrow> time \<Rightarrow> ('q, 'd) world \<Rightarrow> service_error + ('q, 'd) world" where
  "manualRetry jobId now w =
     (case findById jobId (s_jobs w) of
        None \<Rightarrow> Inl (PlainError (''Job not found: '' @ jobId))
      | Some job \<Rightarrow> Inr (w\<lparr>s_jobs := snd (update jobId
            (empty_update\<lparr>u_status := Some PENDING, u_retryCount := Some (j_retryCount job), u_workerId := None,
               u_startedAt := None, u_completedAt := None, u_errorMessage := None\<rparr>) now (s_jobs w)),
          s_metrics := recordJobRetried (j_type job) (s_metrics w)\<rparr>))"

definition replayStep ::
  "(DLQEntry, 'd) BullQueue \<Rightarrow> (QueueJobPayload, 'q) BullQueue \<Rightarrow> id \<times> DLQEntry \<Rightarrow> nat \<times> 'd \<times> 'q \<Rightarrow> nat \<times> 'd \<times> 'q" where
  "replayStep D B entry st =
     (case replayJob D B (fst entry) (snd st) of Inl _ \<Rightarrow> st | Inr s \<Rightarrow> (fst st + 1, s))"

definition replayAllDLQ ::
  "(DLQEntry, 'd) BullQueue \<Rightarrow> (QueueJobPayload, 'q) BullQueue \<Rightarrow> 'd \<times> 'q \<Rightarrow> nat \<times> 'd \<times> 'q" where
  "replayAllDLQ D B st = fold (replayStep D B) (listEntries D 0 100 (fst st)) (0, st)"

definition replayDLQEntry ::
  "(DLQEntry, 'd) BullQueue \<Rightarrow> (QueueJobPayload, 'q) BullQueue \<Rightarrow> id \<Rightarrow> 'd \<times> 'q \<Rightarrow> string + 'd \<times> 'q" where
  "replayDLQEntry D B dlqJobId st = replayJob D B dlqJobId st"

record DLQSummaryEntry =
  se_id :: id
  se_originalJobId :: id
  se_failureReason :: string
  se_totalAttempts :: int

definition getDLQSummary :: "(DLQEntry, 'd) BullQueue \<Rightarrow> 'd \<Rightarrow> nat \<times> DLQSummaryEntry list" where
  "getDLQSummary D d =
     (dlqCount D d, map (\<lambda>(i, e). \<lparr>se_id = i, se_originalJobId = dl_originalJobId e,
        se_failureReason = dl_failureReason e, se_totalAttempts = dl_totalAttempts e\<rparr>) (listEntries D 0 20 d))"

section \<open>Lemmas\<close>

definition cancellable :: "id \<Rightarrow> Job \<Rightarrow> bool" where
  "cancellable org j \<longleftrightarrow> j_organizationId j = org \<and> j_status j \<notin> {COMPLETED, FAILED, CANCELLED}"

definition retryable :: "id \<Rightarrow> Job \<Rightarrow> bool" where
  "retryable org j \<longleftrightarrow> j_organizationId j = org \<and> j_status j \<in> {FAILED, CANCELLED, TIMED_OUT}"

lemma getJob_Inr: "getJob i org db = Inr j \<longleftrightarrow> findById i db = Some j \<and> j_organizationId j = org"
  by (auto simp: getJob_def split: option.splits)

lemma update_pair: "update i dto now db = (findById i (snd (update i dto now db)), snd (update i dto now db))"
  by (simp add: update_def Let_def)

lemma cancelJob_eq:
  "cancelJob i org now db =
     (case findById i db of
        None \<Rightarrow> Inl (NotFoundError (''Job not found: '' @ i))
      | Some j \<Rightarrow>
          if j_organizationId j \<noteq> org then Inl (ForbiddenError ''Access denied'')
          else if \<not> cancellable org j
          then Inl (ConflictError (''Cannot cancel job in status: '' @ statusName (j_status j)))
          else Inr (j\<lparr>j_status := CANCELLED, j_completedAt := Some now, j_updatedAt := now\<rparr>,
            snd (update i (empty_update\<lparr>u_status := Some CANCELLED, u_completedAt := Some now\<rparr>) now db)))"
  unfolding cancelJob_def getJob_def cancellable_def
  by (subst update_pair) (simp add: update_record_defs split: option.split)

lemma retryJob_eq:
  "retryJob i org now db =
     (case findById i db of
        None \<Rightarrow> Inl (NotFoundError (''Job not found: '' @ i))
      | Some j \<Rightarrow>
          if j_organizationId j \<noteq> org then Inl (ForbiddenError ''Access denied'')
          else if \<not> retryable org j
          then Inl (ConflictError (''Cannot retry job in status: '' @ statusName (j_status j)))
          else Inr (j\<lparr>j_status := PENDING, j_updatedAt := now\<rparr>,
            snd (update i (empty_update\<lparr>u_status := Some PENDING\<rparr>) now db)))"
  unfolding retryJob_def getJob_def retryable_def
  by (subst update_pair) (simp add: update_record_defs split: option.split)

lemma cancelJob_rows:
  assumes "cancelJob i org now db = Inr (r, db')"
  shows "\<exists>j. findById i db = Some j \<and> cancellable org j \<and>
      r = j\<lparr>j_status := CANCELLED, j_completedAt := Some now, j_updatedAt := now\<rparr> \<and>
      (\<forall>x. findById x db' = (if x = i then Some r else findById x db))"
  using assms by (auto simp: cancelJob_eq update_record_defs split: option.splits if_splits)

lemma retryJob_rows:
  assumes "retryJob i org now db = Inr (r, db')"
  shows "\<exists>j. findById i db = Some j \<and> retryable org j \<and> r = j\<lparr>j_status := PENDING, j_updatedAt := now\<rparr> \<and>
      (\<forall>x. findById x db' = (if x = i then Some r else findById x db))"
  using assms by (auto simp: retryJob_eq update_record_defs split: option.splits if_splits)

text \<open>
  The abstract effect of a bulk cancellation: an identifier is cancelled when it is the
  first of its kind in the list and its row may be cancelled.
\<close>

fun firstOccurrences :: "'a set \<Rightarrow> 'a list \<Rightarrow> ('a \<times> bool) list" where
  "firstOccurrences seen [] = []"
| "firstOccurrences seen (x # xs) = (x, x \<notin> seen) # firstOccurrences (insert x seen) xs"

definition canCancel :: "id \<Rightarrow> jobs \<Rightarrow> id \<Rightarrow> bool" where
  "canCancel org db i = (case findById i db of None \<Rightarrow> False | Some j \<Rightarrow> cancellable org j)"

lemma bulkCancelStep_eq:
  "bulkCancelStep org now i ((cs, ss), db) =
     (if canCancel org db i
      then ((cs @ [i], ss), snd (update i (empty_update\<lparr>u_status := Some CANCELLED, u_completedAt := Some now\<rparr>) now db))
      else ((cs, ss @ [i]), db))"
  by (auto simp: bulkCancelStep_def cancelJob_eq canCancel_def cancellable_def split: option.split)

lemma canCancel_after:
  "canCancel org (snd (update i (empty_update\<lparr>u_status := Some CANCELLED, u_completedAt := Some t\<rparr>) now db)) x
   = (x \<noteq> i \<and> canCancel org db x)"
  by (auto simp: canCancel_def cancellable_def update_record_defs split: option.split)

lemma bulkCancel_fold:
  assumes "\<And>x. canCancel org db x = (x \<notin> seen \<and> canCancel org db0 x)"
    and "\<And>x. findById x db = (if x \<in> seen \<and> canCancel org db0 x
       then map_option (\<lambda>j. j\<lparr>j_status := CANCELLED, j_completedAt := Some now, j_updatedAt := now\<rparr>) (findById x db0)
       else findById x db0)"
    and "fold (bulkCancelStep org now) ids ((cs, ss), db) = ((cs', ss'), db')"
  shows "cs' = cs @ map fst (filter (\<lambda>(i, new). new \<and> canCancel org db0 i) (firstOccurrences seen ids)) \<and>
    ss' = ss @ map fst (filter (\<lambda>(i, new). \<not> (new \<and> canCancel org db0 i)) (firstOccurrences seen ids)) \<and>
    (\<forall>x. findById x db' = (if x \<in> seen \<union> set ids \<and> canCancel org db0 x
       then map_option (\<lambda>j. j\<lparr>j_status := CANCELLED, j_completedAt := Some now, j_updatedAt := now\<rparr>) (findById x db0)
       else findById x db0))"
  using assms
proof (induction ids arbitrary: seen cs ss db)
  case (Cons i ids)
  let ?upd = "snd (update i (empty_update\<lparr>u_status := Some CANCELLED, u_completedAt := Some now\<rparr>) now db)"
  show ?case
  proof (cases "canCancel org db i")
    case True
    have run: "fold (bulkCancelStep org now) ids ((cs @ [i], ss), ?upd) = ((cs', ss'), db')"
      using Cons.prems(3) True by (simp add: bulkCancelStep_eq)
    have "canCancel org ?upd x = (x \<notin> insert i seen \<and> canCancel org db0 x)" for x
      using Cons.prems(1) by (auto simp: canCancel_after)
    moreover have "findById x ?upd = (if x \<in> insert i seen \<and> canCancel org db0 x
       then map_option (\<lambda>j. j\<lparr>j_status := CANCELLED, j_completedAt := Some now, j_updatedAt := now\<rparr>) (findById x db0)
       else findById x db0)" for x
      using Cons.prems(1) [of i] Cons.prems(2) [of x] True
      by (cases "findById x db0") (auto simp: update_record_defs)
    ultimately show ?thesis
      using Cons.IH [OF _ _ run, of "insert i seen"] Cons.prems(1) [of i] True by simp
  next
    case False
    have run: "fold (bulkCancelStep org now) ids ((cs, ss @ [i]), db) = ((cs', ss'), db')"
      using Cons.prems(3) False by (simp add: bulkCancelStep_eq)
    have "canCancel org db x = (x \<notin> insert i seen \<and> canCancel org db0 x)" for x
      using Cons.prems(1) False by auto
    moreover have "findById x db = (if x \<in> insert i seen \<and> canCancel org db0 x
       then map_option (\<lambda>j. j\<lparr>j_status := CANCELLED, j_completedAt := Some now, j_updatedAt := now\<rparr>) (findById x db0)
       else findById x db0)" for x
      using Cons.prems(1) [of i] Cons.prems(2) [of x] False by auto
    ultimately show ?thesis
      using Cons.IH [OF _ _ run, of "insert i seen"] Cons.prems(1) [of i] False by auto
  qed
qed auto

lemma length_firstOccurrences [simp]: "length (firstOccurrences seen xs) = length xs"
  by (induction xs arbitrary: seen) auto

lemma firstOccurrences_new:
  "map fst (filter (\<lambda>(i, new). new \<and> P i) (firstOccurrences seen xs)) =
   rev (remdups (rev (filter (\<lambda>i. i \<notin> seen \<and> P i) xs)))"
proof (induction xs arbitrary: seen)
  case (Cons x xs)
  have "filter (\<lambda>i. i \<notin> insert x seen \<and> P i) xs = filter (\<lambda>i. i \<noteq> x) (filter (\<lambda>i. i \<notin> seen \<and> P i) xs)"
    by (induction xs) auto
  moreover have "rev (remdups (rev (x # ys))) = x # rev (remdups (rev (filter (\<lambda>i. i \<noteq> x) ys)))" for ys :: "'a list"
    by (induction ys rule: rev_induct) (auto simp: remdups_append2 rev_filter remdups_filter)
  moreover have "filter (\<lambda>i. i \<notin> seen \<and> P i) xs = filter (\<lambda>i. i \<noteq> x) (filter (\<lambda>i. i \<notin> seen \<and> P i) xs)"
    if "x \<in> seen \<or> \<not> P x"
    using that by (induction xs) auto
  ultimately show ?case using Cons by auto
qed simp

lemma promiseAll_Inr: "promiseAll (map (\<lambda>x. Inr (f x)) xs) = Inr (map f xs)"
  by (induction xs) auto

lemma countStatus_eq:
  "countStatus org db st = Inr (length (filter (\<lambda>j. (org \<noteq> [] \<longrightarrow> j_organizationId j = org) \<and> j_status j = st) db))"
  by (auto simp: countStatus_def findMany_def no_conditions_def matches_def optionally_def Let_def
      intro!: arg_cong [of _ _ length] filter_cong)

lemma count_by_status:
  "distinct ss \<Longrightarrow> sum_list (map (\<lambda>s. length (filter (\<lambda>j. P j \<and> f j = s) xs)) ss) =
   length (filter (\<lambda>j. P j \<and> f j \<in> set ss) xs)"
proof (induction ss)
  case (Cons s ss)
  have "length (filter (\<lambda>j. P j \<and> f j \<in> set (s # ss)) xs) =
      length (filter (\<lambda>j. P j \<and> f j = s) xs) + length (filter (\<lambda>j. P j \<and> f j \<in> set ss) xs)"
    using Cons.prems by (induction xs) auto
  then show ?case using Cons by simp
qed simp

lemma bulkCancel_other:
  assumes "findById x db = Some other" "j_organizationId other \<noteq> org"
  shows "findById x (snd (bulkCancel ids org now db)) = Some other"
proof -
  obtain cs ss db' where run: "fold (bulkCancelStep org now) ids (([], []), db) = ((cs, ss), db')"
    by (metis surj_pair)
  show ?thesis
    using bulkCancel_fold [of org db "{}" db, OF _ _ run] assms run
    by (simp add: bulkCancel_def canCancel_def cancellable_def)
qed

lemma cancelJob_other:
  "cancelJob i org now db = Inr (r, db') \<Longrightarrow> findById x db = Some other \<Longrightarrow> j_organizationId other \<noteq> org \<Longrightarrow>
   findById x db' = Some other"
  by (auto dest!: cancelJob_rows simp: cancellable_def)

lemma retryJob_other:
  "retryJob i org now db = Inr (r, db') \<Longrightarrow> findById x db = Some other \<Longrightarrow> j_organizationId other \<noteq> org \<Longrightarrow>
   findById x db' = Some other"
  by (auto dest!: retryJob_rows simp: retryable_def)

section \<open>Properties\<close>

text \<open>
  Tenants are isolated: a job is returned only to its own organization, and cancelling,
  retrying and bulk cancelling on behalf of an organization leave every row of every
  other organization exactly as it was.
\<close>

theorem tenant_isolation:
  "(getJob i org db = Inr j \<longrightarrow> j_organizationId j = org) \<and>
   (getJobHistory i org db ls = Inr logs \<longrightarrow> (\<exists>j. findById i db = Some j \<and> j_organizationId j = org)) \<and>
   (findById x db = Some other \<and> j_organizationId other \<noteq> org \<longrightarrow>
      (\<forall>r db'. cancelJob i org now db = Inr (r, db') \<longrightarrow> findById x db' = Some other) \<and>
      (\<forall>r db'. retryJob i org now db = Inr (r, db') \<longrightarrow> findById x db' = Some other) \<and>
      findById x (snd (bulkCancel ids org now db)) = Some other)"
proof (intro conjI impI allI)
  assume "getJob i org db = Inr j"
  then show "j_organizationId j = org" by (simp add: getJob_Inr)
next
  assume "getJobHistory i org db ls = Inr logs"
  then show "\<exists>j. findById i db = Some j \<and> j_organizationId j = org"
    by (auto simp: getJobHistory_def getJob_Inr split: sum.splits)
qed (auto intro: bulkCancel_other cancelJob_other retryJob_other)

theorem tenant_isolation_witness:
  "findById ''b'' (snd (bulkCancel [''a'', ''b''] ''o2'' 5
     [(sample_job ''a'' [])\<lparr>j_organizationId := ''o2''\<rparr>, sample_job ''b'' []])) = Some (sample_job ''b'' [])"
  using tenant_isolation [of i "''o2''" "[(sample_job ''a'' [])\<lparr>j_organizationId := ''o2''\<rparr>, sample_job ''b'' []]"
      j ls logs "''b''" "sample_job ''b'' []" 5 "[''a'', ''b'']"]
  by (simp add: sample_job_def)

text \<open>
  C20. A bulk cancellation does exactly what its specification says: it cancels, once
  each and in order of first mention, the listed jobs of the organization that are neither
  completed, failed nor cancelled; every other mention, a repeated one included, is
  reported as skipped; exactly the cancelled rows change.
\<close>

theorem bulkCancel_refines:
  assumes "bulkCancel ids org now db = ((cancelled, skipped), db')"
  shows "cancelled = rev (remdups (rev (filter (canCancel org db) ids))) \<and>
    mset skipped + mset cancelled = mset ids \<and>
    findById x db' = (if x \<in> set cancelled
       then map_option (\<lambda>j. j\<lparr>j_status := CANCELLED, j_completedAt := Some now, j_updatedAt := now\<rparr>) (findById x db)
       else findById x db)"
proof -
  let ?xs = "firstOccurrences {} ids" and ?P = "\<lambda>(i, new). new \<and> canCancel org db i"
  have run: "fold (bulkCancelStep org now) ids (([], []), db) = ((cancelled, skipped), db')"
    using assms by (simp add: bulkCancel_def)
  have eqs: "cancelled = map fst (filter ?P ?xs)" "skipped = map fst (filter (\<lambda>p. \<not> ?P p) ?xs)"
    "findById x db' = (if x \<in> set ids \<and> canCancel org db x
       then map_option (\<lambda>j. j\<lparr>j_status := CANCELLED, j_completedAt := Some now, j_updatedAt := now\<rparr>) (findById x db)
       else findById x db)"
    using bulkCancel_fold [of org db "{}" db, OF _ _ run] by (auto simp: case_prod_unfold)
  have c: "cancelled = rev (remdups (rev (filter (canCancel org db) ids)))"
    by (simp add: eqs(1) firstOccurrences_new)
  have ids: "map fst (firstOccurrences s xs) = xs" for s :: "id set" and xs
    by (induction xs arbitrary: s) auto
  have "filter_mset (\<lambda>p. \<not> ?P p) (mset ?xs) + filter_mset ?P (mset ?xs) = mset ?xs"
    by (subst add.commute) (rule multiset_partition [symmetric])
  then have "mset skipped + mset cancelled = image_mset fst (mset ?xs)"
    by (simp add: eqs(1,2) flip: image_mset_union)
  also have "\<dots> = mset ids" by (simp flip: mset_map add: ids)
  finally have "mset skipped + mset cancelled = mset ids" .
  then show ?thesis using c eqs(3) by simp
qed

theorem bulkCancel_refines_witness:
  "fst (fst (bulkCancel [''a'', ''zz'', ''a''] ''o'' 5 [(sample_job ''a'' [])\<lparr>j_organizationId := ''o''\<rparr>])) = [''a'']"
proof -
  let ?db = "[(sample_job ''a'' [])\<lparr>j_organizationId := ''o''\<rparr>]"
  obtain cs ss db' where run: "bulkCancel [''a'', ''zz'', ''a''] ''o'' 5 ?db = ((cs, ss), db')"
    by (metis surj_pair)
  have "canCancel ''o'' ?db ''a''" "\<not> canCancel ''o'' ?db ''zz''"
    by (simp_all add: canCancel_def cancellable_def sample_job_def)
  then show ?thesis using bulkCancel_refines [OF run] run by simp
qed

text \<open>
  The statistics of an organization never fail. Their total counts its jobs in every
  status but TIMED\_OUT and SKIPPED, and each entry counts the jobs in its status.
\<close>

theorem getJobStats_counts:
  assumes "org \<noteq> []"
  shows "\<exists>st. getJobStats org db = Inr st \<and>
    js_total st = length (filter (\<lambda>j. j_organizationId j = org \<and> j_status j \<notin> {TIMED_OUT, SKIPPED}) db) \<and>
    (\<forall>s \<in> set statStatuses. map_of (js_byStatus st) (statusName s) =
       Some (length (filter (\<lambda>j. j_organizationId j = org \<and> j_status j = s) db)))"
proof -
  let ?n = "\<lambda>s. length (filter (\<lambda>j. j_organizationId j = org \<and> j_status j = s) db)"
  have c: "countStatus org db = (\<lambda>s. Inr (?n s))" using assms by (simp add: fun_eq_iff countStatus_eq)
  have "s \<in> set statStatuses \<longleftrightarrow> s \<notin> {TIMED_OUT, SKIPPED}" for s
    by (cases s) (simp_all add: statStatuses_def)
  then have "sum_list (map ?n statStatuses) =
      length (filter (\<lambda>j. j_organizationId j = org \<and> j_status j \<notin> {TIMED_OUT, SKIPPED}) db)"
    by (subst count_by_status) (simp_all add: statStatuses_def)
  moreover have "\<forall>s \<in> set statStatuses.
      map_of (zip (map statusName statStatuses) (map ?n statStatuses)) (statusName s) = Some (?n s)"
    by (simp add: statStatuses_def)
  ultimately show ?thesis
    by (simp add: getJobStats_def c promiseAll_Inr)
qed

theorem getJobStats_counts_witness:
  "\<exists>st. getJobStats ''o'' [(sample_job ''a'' [])\<lparr>j_organizationId := ''o''\<rparr>] = Inr st \<and> js_total st = 1"
  using getJobStats_counts [of "''o''" "[(sample_job ''a'' [])\<lparr>j_organizationId := ''o''\<rparr>]"]
  by (auto simp: sample_job_def)

text \<open>
  The retry policy, and what the worker makes of it. A retry is allowed exactly when
  retries are left, the error is not a permanent one and, when the job lists error codes,
  is one of those. The worker does not ask: a failure with a permanent error sets a
  job that has retries left to RETRYING all the same.
\<close>

theorem worker_ignores_retry_policy:
  assumes D: "bull_ok D" and job: "findById i (s_jobs w) = Some job" and log: "findLog logId (s_logs w) = Some l"
    and fail: "\<not> xr_success r" and left: "j_retryCount job < j_maxRetries job"
    and run: "finishJob D i logId r now (sc, w) = (err, sc', w')"
  shows "(shouldRetry job (Some c) \<longleftrightarrow> c \<notin> set PERMANENT_ERRORS \<and>
      (rc_retryOn (j_retryConfig job) \<noteq> [] \<longrightarrow> c \<noteq> [] \<and> c \<in> set (rc_retryOn (j_retryConfig job)))) \<and>
    (\<exists>j'. findById i (s_jobs w') = Some j' \<and> j_status j' = RETRYING \<and> j_retryCount j' = j_retryCount job + 1)"
proof
  show "shouldRetry job (Some c) \<longleftrightarrow> c \<notin> set PERMANENT_ERRORS \<and>
      (rc_retryOn (j_retryConfig job) \<noteq> [] \<longrightarrow> c \<noteq> [] \<and> c \<in> set (rc_retryOn (j_retryConfig job)))"
    using left by (auto simp: shouldRetry_def Let_def PERMANENT_ERRORS_def)
  from finishJob_outcome [OF D job log run] fail left
  show "\<exists>j'. findById i (s_jobs w') = Some j' \<and> j_status j' = RETRYING \<and> j_retryCount j' = j_retryCount job + 1"
    by (auto simp: run_outcome_def)
qed

theorem worker_ignores_retry_policy_witness:
  "\<not> shouldRetry (sample_job ''a'' []) (Some ''SECURITY_VIOLATION'') \<and>
   (\<exists>err sc' w'. finishJob memQueue ''a'' ''log'' (failedWith ''m'' ''SECURITY_VIOLATION'') 9
      (new_Scheduler, (sample_world [sample_job ''a'' []])\<lparr>s_logs := [sample_log ''log'' 1]\<rparr>) = (err, sc', w') \<and>
    (\<exists>j'. findById ''a'' (s_jobs w') = Some j' \<and> j_status j' = RETRYING))"
proof -
  let ?w = "(sample_world [sample_job ''a'' []])\<lparr>s_logs := [sample_log ''log'' 1]\<rparr>"
  let ?r = "failedWith ''m'' ''SECURITY_VIOLATION''"
  obtain err sc' w' where run: "finishJob memQueue ''a'' ''log'' ?r 9 (new_Scheduler, ?w) = (err, sc', w')"
    by (metis prod_cases3)
  have "findById ''a'' (s_jobs ?w) = Some (sample_job ''a'' [])"
    "findLog ''log'' (s_logs ?w) = Some (sample_log ''log'' 1)"
    "\<not> xr_success ?r" "j_retryCount (sample_job ''a'' []) < j_maxRetries (sample_job ''a'' [])"
    by (simp_all add: sample_world_def sample_job_def sample_log_def createLog_def Let_def failedWith_def)
  from worker_ignores_retry_policy [OF memQueue_ok this run, of "''SECURITY_VIOLATION''"] run
  show ?thesis by (auto simp: PERMANENT_ERRORS_def)
qed

text \<open>
  One replay keeps everything that the replays before it kept: nothing leaves the dead
  letter queue without its job being in the main queue, and nothing leaves the main queue.
\<close>

definition nothing_lost ::
  "(DLQEntry, 'd) BullQueue \<Rightarrow> (QueueJobPayload, 'q) BullQueue \<Rightarrow> 'd \<times> 'q \<Rightarrow> 'd \<times> 'q \<Rightarrow> bool" where
  "nothing_lost D B s t \<longleftrightarrow>
     (\<forall>k e. q_getJob D k (fst s) = Some e \<longrightarrow> q_getJob D k (fst t) = Some e \<or>
        q_getJob D k (fst t) = None \<and> (\<exists>new. q_getJob B new (snd s) = None \<and> q_getJob B new (snd t) = Some (replayPayload e))) \<and>
     (\<forall>k p. q_getJob B k (snd s) = Some p \<longrightarrow> q_getJob B k (snd t) = Some p) \<and>
     (\<forall>k. q_getJob D k (fst s) = None \<longrightarrow> q_getJob D k (fst t) = None)"

lemma nothing_lost_refl: "nothing_lost D B s s"
  by (simp add: nothing_lost_def)

lemma nothing_lost_trans:
  assumes "nothing_lost D B r s" "nothing_lost D B s t"
  shows "nothing_lost D B r t"
proof -
  have none: "q_getJob B k (snd r) = None" if "q_getJob B k (snd s) = None" for k
    using assms(1) that by (cases "q_getJob B k (snd r)") (auto simp: nothing_lost_def)
  have "q_getJob D k (fst t) = Some e \<or> q_getJob D k (fst t) = None \<and>
      (\<exists>new. q_getJob B new (snd r) = None \<and> q_getJob B new (snd t) = Some (replayPayload e))"
    if e: "q_getJob D k (fst r) = Some e" for k e
  proof (cases "q_getJob D k (fst s) = Some e")
    case True
    then show ?thesis using assms(2) none unfolding nothing_lost_def by blast
  next
    case False
    then show ?thesis using assms e unfolding nothing_lost_def by blast
  qed
  then show ?thesis using assms unfolding nothing_lost_def by blast
qed

lemma replayJob_nothing_lost:
  assumes "bull_ok D" "bull_ok B" "replayJob D B i s = Inr t"
  shows "nothing_lost D B s t"
proof -
  obtain entry new q where e: "q_getJob D i (fst s) = Some entry"
    and add: "q_add B (jobTypeName (dl_type entry)) (replayPayload entry)
      \<lparr>o_priority = None, o_delay = None, o_jobId = None\<rparr> (snd s) = Inr (new, q)"
    and t: "t = (q_remove D i (fst s), q)"
    using assms(3) by (auto simp: replayJob_def split: option.splits sum.splits)
  note fresh = bull_add_fresh [OF assms(2) add] and other = bull_add_other [OF assms(2) add]
  have keep: "q_getJob B k q = Some p" if "q_getJob B k (snd s) = Some p" for k p
    using that fresh other [of k] by (cases "k = new") auto
  show ?thesis
    using e fresh keep by (auto simp: nothing_lost_def t bull_remove [OF assms(1)])
qed



end
