(* ===== verification/Lifecycle.thy ===== *)
theory Lifecycle
  imports JobService
begin

text \<open>
  The job table under everything that acts on it: the scheduler's polls, the workers, the
  submissions and the requests of users, in any order and interleaving. Each operation is
  that of its component; this theory says what they may do to a row, whoever acts, and
  what holds of every row in every reachable state.
\<close>

section \<open>What may happen to a row\<close>

datatype actor = ScheduleActor | BeginActor | FinishActor | UserActor | CronActor

fun edge :: "actor \<Rightarrow> JobStatus \<Rightarrow> JobStatus \<Rightarrow> bool" where
  "edge ScheduleActor a b \<longleftrightarrow> a = b \<or> (a, b) \<in> {(PENDING, QUEUED), (RUNNING, PENDING), (RUNNING, FAILED)}"
| "edge BeginActor a b \<longleftrightarrow> a = b \<or> a \<noteq> CANCELLED \<and> b = RUNNING"
| "edge FinishActor a b \<longleftrightarrow> a = b \<or> b \<in> {COMPLETED, RETRYING, FAILED}"
| "edge UserActor a b \<longleftrightarrow> a = b \<or> a \<notin> {COMPLETED, FAILED, CANCELLED} \<and> b = CANCELLED \<or>
     a \<in> {FAILED, CANCELLED, TIMED_OUT} \<and> b = PENDING"
| "edge CronActor a b \<longleftrightarrow> a = b"

definition same_identity :: "Job \<Rightarrow> Job \<Rightarrow> bool" where
  "same_identity j j' \<longleftrightarrow> j_id j' = j_id j \<and> j_name j' = j_name j \<and> j_type j' = j_type j \<and> j_payload j' = j_payload j \<and>
     j_priority j' = j_priority j \<and> j_organizationId j' = j_organizationId j \<and> j_createdBy j' = j_createdBy j \<and>
     j_maxRetries j' = j_maxRetries j \<and> j_retryConfig j' = j_retryConfig j \<and> j_timeoutMs j' = j_timeoutMs j \<and>
     j_dependencies j' = j_dependencies j \<and> j_dependencyCount j' = j_dependencyCount j \<and> j_createdAt j' = j_createdAt j"

definition row_ok :: "Job \<Rightarrow> bool" where
  "row_ok j \<longleftrightarrow> j_status j \<notin> {TIMED_OUT, SKIPPED} \<and>
     0 \<le> j_retryCount j \<and> j_retryCount j \<le> max 0 (j_maxRetries j) \<and>
     (j_status j \<in> {COMPLETED, FAILED, CANCELLED} \<longrightarrow> j_completedAt j \<noteq> None) \<and>
     (j_status j = RUNNING \<longrightarrow> j_startedAt j \<noteq> None \<and> j_workerId j \<noteq> None)"

definition row_step :: "actor \<Rightarrow> Job \<Rightarrow> Job \<Rightarrow> bool" where
  "row_step a j j' \<longleftrightarrow> same_identity j j' \<and> edge a (j_status j) (j_status j') \<and> (row_ok j \<longrightarrow> row_ok j')"

definition evolves :: "actor \<Rightarrow> jobs \<Rightarrow> jobs \<Rightarrow> bool" where
  "evolves a db db' \<longleftrightarrow> (\<forall>x j. findById x db = Some j \<longrightarrow> (\<exists>j'. findById x db' = Some j' \<and> row_step a j j'))"

text \<open>Most operations neither add nor remove rows.\<close>

abbreviation same_ids :: "jobs \<Rightarrow> jobs \<Rightarrow> bool" where
  "same_ids db db' \<equiv> map j_id db' = map j_id db"

lemma same_ids_update: "same_ids db (snd (update i dto now db))"
  by (simp add: update_def Let_def)

lemma same_ids_table_ok: "same_ids db db' \<Longrightarrow> table_ok db' = table_ok db"
  by (simp add: table_ok_def)

lemma same_ids_absent: "same_ids db db' \<Longrightarrow> findById x db' = None \<longleftrightarrow> findById x db = None"
  by (metis findById_None list.set_map)

lemmas row_defs = row_step_def same_identity_def row_ok_def

lemma row_step_refl [simp]: "row_step a j j"
  by (cases a) (simp_all add: row_defs)

lemma evolves_refl [simp]: "evolves a db db"
  by (simp add: evolves_def)

text \<open>An update of one row evolves the table if the row it writes is a legal successor.\<close>

lemma evolves_update:
  assumes "\<And>j. findById i db = Some j \<Longrightarrow> row_step a j (applyUpdate dto now j)"
  shows "evolves a db (snd (update i dto now db))"
  using assms by (auto simp: evolves_def)

lemma row_step_resolved [simp]:
  "row_step a j (j'\<lparr>j_resolvedDependencyCount := n, j_updatedAt := u\<rparr>) = row_step a j j'"
  by (cases a) (simp_all add: row_defs)

section \<open>The scheduler\<close>

lemma scheduleReadyJobs_rows:
  assumes B: "bull_ok B" and ok: "table_ok (s_jobs w)" and run: "scheduleReadyJobs B cfg now locked (sc, w) = (sc', w')"
  shows "same_ids (s_jobs w) (s_jobs w')"
    and "findById x (s_jobs w) = Some j \<Longrightarrow> \<exists>j'. findById x (s_jobs w') = Some j' \<and>
      (j' = j \<or> j_status j = PENDING \<and> (\<exists>s \<in> {QUEUED, PENDING}. j' = j\<lparr>j_status := s, j_updatedAt := now\<rparr>))"
proof -
  obtain jobs db where claim: "claimPendingJobs (batchSize cfg) now locked (s_jobs w) = (jobs, db)" by fastforce
  note facts = claim_facts [OF ok claim]
  have "fold (enqueueClaimed B now) jobs (sc, w\<lparr>s_jobs := db\<rparr>) = (sc', w')"
    using run claim by (simp add: scheduleReadyJobs_def)
  note rows = fold_enqueueClaimed_rows [OF B this, simplified]
  have "same_ids (s_jobs w) db"
    using claimed_table [of "batchSize cfg" now locked "s_jobs w"] claim by simp
  with rows show "same_ids (s_jobs w) (s_jobs w')" by simp
  show "\<exists>j'. findById x (s_jobs w') = Some j' \<and>
      (j' = j \<or> j_status j = PENDING \<and> (\<exists>s \<in> {QUEUED, PENDING}. j' = j\<lparr>j_status := s, j_updatedAt := now\<rparr>))"
    if j: "findById x (s_jobs w) = Some j"
  proof (cases "x \<in> j_id ` set jobs")
    case True
    then obtain c where c: "c \<in> set jobs" "x = j_id c" by blast
    from facts(2) [OF c(1)] j c(2) have "claimable now j" "findById x db = Some (j\<lparr>j_status := QUEUED, j_updatedAt := now\<rparr>)" by auto
    with rows show ?thesis by (fastforce simp: claimable_def)
  next
    case False
    with rows facts(3) j show ?thesis by auto
  qed
qed

lemma findById_recover:
  assumes "table_ok (s_jobs w)"
  shows "findById x (s_jobs (recoverStalledJobs cfg now w)) =
    map_option (\<lambda>j. if stalled (stalledJobThresholdMs cfg) now j then applyUpdate (recoveryUpdate now j) now j else j)
      (findById x (s_jobs w))"
proof -
  let ?js = "filter (stalled (stalledJobThresholdMs cfg) now) (s_jobs w)"
  have d: "distinct (map j_id ?js)" by (rule distinct_ids_filter [OF assms])
  then have "distinct (map fst (map (\<lambda>j. (j_id j, recoveryUpdate now j)) ?js))" by (simp add: comp_def)
  from jobs_table.find_upd_all [OF this] show ?thesis
    by (auto simp: recoverStalledJobs_def s_jobs_fold_recoverJob findStalledJobs_eq map_of_ids [OF d] findById_filter [OF assms]
        split: option.split)
qed

lemma same_ids_recover: "same_ids (s_jobs w) (s_jobs (recoverStalledJobs cfg now w))"
proof -
  have "same_ids (s_jobs v) (s_jobs (fold (recoverJob now) js v))" for js v
    by (induction js arbitrary: v) (simp_all add: s_jobs_recoverJob same_ids_update)
  then show ?thesis by (simp add: recoverStalledJobs_def)
qed

lemma row_step_recovered:
  "j_status j = RUNNING \<Longrightarrow> row_step ScheduleActor j (applyUpdate (recoveryUpdate now j) now j)"
  by (auto simp: row_defs recoveryUpdate_def update_record_defs)

lemma poll_evolves:
  assumes B: "bull_ok B" and ok: "table_ok (s_jobs w)" and run: "poll B cfg now locked (sc, w) = (sc', w')"
  shows "same_ids (s_jobs w) (s_jobs w')" "evolves ScheduleActor (s_jobs w) (s_jobs w')"
proof -
  obtain w1 where s: "scheduleReadyJobs B cfg now locked (sc, w) = (sc', w1)" and w': "w' = recoverStalledJobs cfg now w1"
    using run by (auto simp: poll_def Let_def split: prod.splits)
  note rows = scheduleReadyJobs_rows [OF B ok s]
  show "same_ids (s_jobs w) (s_jobs w')" using same_ids_recover [of cfg now w1] rows(1) w' by simp
  have ok1: "table_ok (s_jobs w1)" using same_ids_table_ok [OF rows(1)] ok by simp
  show "evolves ScheduleActor (s_jobs w) (s_jobs w')"
    unfolding evolves_def
  proof (intro allI impI)
    fix x j assume j: "findById x (s_jobs w) = Some j"
    from rows(2) [OF j] obtain j1 where j1: "findById x (s_jobs w1) = Some j1"
      "j1 = j \<or> j_status j = PENDING \<and> (\<exists>s \<in> {QUEUED, PENDING}. j1 = j\<lparr>j_status := s, j_updatedAt := now\<rparr>)" by blast
    from j1(2) have "row_step ScheduleActor j (if stalled (stalledJobThresholdMs cfg) now j1
        then applyUpdate (recoveryUpdate now j1) now j1 else j1)"
      by (auto simp: stalled_def row_step_recovered) (auto simp: row_defs)
    with j1(1) show "\<exists>j'. findById x (s_jobs w') = Some j' \<and> row_step ScheduleActor j j'"
      by (simp add: w' findById_recover [OF ok1])
  qed
qed

section \<open>The workers\<close>

lemma beginJob_evolves:
  assumes "beginJob W data n logId now w = (Some (job, l), w')"
  shows "evolves BeginActor (s_jobs w) (s_jobs w')" "same_ids (s_jobs w) (s_jobs w')"
proof -
  from assms have run: "findById (qp_jobId data) (s_jobs w) = Some job" "j_status job \<noteq> CANCELLED"
    and w': "s_jobs w' = snd (update (qp_jobId data) (empty_update\<lparr>u_status := Some RUNNING,
      u_workerId := Some (we_workerId W), u_startedAt := Some now\<rparr>) now (s_jobs w))"
    by (auto simp: beginJob_def Let_def isRunnable_Some split: option.splits prod.splits)
  show "evolves BeginActor (s_jobs w) (s_jobs w')"
    unfolding w' by (rule evolves_update) (use run in \<open>auto simp: row_defs update_record_defs\<close>)
  show "same_ids (s_jobs w) (s_jobs w')" by (simp add: w' same_ids_update)
qed

lemma resolveAll_row:
  "findById x db = Some j \<Longrightarrow> \<exists>n u. findById x (resolveAll cs now db) = Some (j\<lparr>j_resolvedDependencyCount := n, j_updatedAt := u\<rparr>)"
proof (induction cs arbitrary: db j)
  case Nil
  then show ?case
    by (intro exI [of _ "j_resolvedDependencyCount j"] exI [of _ "j_updatedAt j"]) (simp add: resolveAll_def)
next
  case (Cons c cs)
  show ?case
  proof (cases "dependsOn c j \<and> j_status j = PENDING")
    case True
    then have "findById x (resolveDependency c now db) =
        Some (j\<lparr>j_resolvedDependencyCount := j_resolvedDependencyCount j + 1, j_updatedAt := now\<rparr>)"
      using Cons.prems by (simp add: findById_resolveDependency)
    from Cons.IH [OF this] show ?thesis by simp
  next
    case False
    then have "findById x (resolveDependency c now db) = Some j"
      using Cons.prems by (auto simp: findById_resolveDependency)
    from Cons.IH [OF this] show ?thesis by simp
  qed
qed

lemma same_ids_resolveAll: "same_ids db (resolveAll cs now db)"
  by (induction cs arbitrary: db) (simp_all add: resolveAll_def resolveDependency_def)

lemma evolves_resolved:
  assumes "evolves a db db1"
  shows "evolves a db (resolveAll cs now db1)"
  unfolding evolves_def
proof (intro allI impI)
  fix x j assume "findById x db = Some j"
  with assms obtain j1 where j1: "findById x db1 = Some j1" "row_step a j j1" by (auto simp: evolves_def)
  from resolveAll_row [OF j1(1)] j1(2) show "\<exists>j'. findById x (resolveAll cs now db1) = Some j' \<and> row_step a j j'"
    by fastforce
qed

text \<open>What the end of a run writes to the row of its job, before the bookkeeping of the dependents.\<close>

definition finishes :: "Job \<Rightarrow> UpdateJobDto \<Rightarrow> bool" where
  "finishes job dto \<longleftrightarrow>
     u_status dto = Some COMPLETED \<and> u_completedAt dto \<noteq> None \<and> u_retryCount dto = None \<or>
     u_status dto = Some FAILED \<and> u_completedAt dto \<noteq> None \<and> u_retryCount dto = None \<or>
     u_status dto = Some RETRYING \<and> u_retryCount dto = Some (j_retryCount job + 1) \<and> j_retryCount job + 1 \<le> j_maxRetries job"

lemma handleFailure_jobs:
  assumes "handleFailure D i l r t fs now (sc, w) = (err, sc', w')"
  shows "findById i (s_jobs w) = None \<and> s_jobs w' = s_jobs w \<or>
    (\<exists>job dto cs. findById i (s_jobs w) = Some job \<and> finishes job dto \<and>
       s_jobs w' = resolveAll cs now (snd (update i dto now (s_jobs w))))"
proof (cases "findById i (s_jobs w)")
  case None
  with assms show ?thesis by (simp add: handleFailure_def)
next
  case (Some job)
  have nil: "resolveAll [] now db = db" for db by (simp add: resolveAll_def)
  show ?thesis
  proof (cases "j_retryCount job + 1 \<le> j_maxRetries job")
    case True
    with assms Some have "s_jobs w' = resolveAll [] now (snd (update i (empty_update\<lparr>u_status := Some RETRYING,
        u_retryCount := Some (j_retryCount job + 1), u_workerId := None, u_startedAt := None\<rparr>) now (s_jobs w)))"
      by (auto simp: handleFailure_def Let_def nil)
    with True Some show ?thesis by (auto simp: finishes_def intro!: exI)
  next
    case False
    let ?dto = "empty_update\<lparr>u_status := Some FAILED, u_completedAt := Some t, u_errorMessage := xr_errorMessage r,
      u_errorStack := xr_errorStack r, u_exitCode := xr_exitCode r\<rparr>"
    have "\<exists>cs. s_jobs w' = resolveAll cs now (snd (update i ?dto now (s_jobs w)))"
      using assms Some False
      by (auto simp: handleFailure_def failPermanently_def Let_def s_jobs_onJobCompleted split: sum.splits) (metis nil)
    with Some show ?thesis by (auto simp: finishes_def empty_update_def intro!: exI)
  qed
qed

lemma finishJob_jobs:
  assumes "finishJob D i l r now (sc, w) = (err, sc', w')"
  shows "(\<exists>dto cs. s_jobs w' = resolveAll cs now (snd (update i dto now (s_jobs w))) \<and>
    (\<forall>job. findById i (s_jobs w) = Some job \<longrightarrow> finishes job dto)) \<or> s_jobs w' = s_jobs w"
proof (cases "xr_success r")
  case True
  let ?dto = "empty_update\<lparr>u_status := Some COMPLETED, u_completedAt := Some now,
      u_result := xr_result r, u_exitCode := xr_exitCode r\<rparr>"
  have "\<exists>cs. s_jobs w' = resolveAll cs now (snd (update i ?dto now (s_jobs w)))"
  proof -
    have "(sc', w') = onJobCompleted i COMPLETED now (sc, w\<lparr>s_jobs := snd (update i ?dto now (s_jobs w)),
        s_logs := snd (completeLog (successLog l r now) (s_logs w))\<rparr>)"
      using assms True by (simp add: finishJob_def Let_def)
    then have "s_jobs w' = s_jobs (snd (onJobCompleted i COMPLETED now (sc, w\<lparr>s_jobs := snd (update i ?dto now (s_jobs w)),
        s_logs := snd (completeLog (successLog l r now) (s_logs w))\<rparr>)))" by (metis snd_conv)
    then show ?thesis by (auto simp: s_jobs_onJobCompleted)
  qed
  then show ?thesis by (auto simp: finishes_def empty_update_def)
next
  case False
  obtain fs w1 where h: "handleFailure D i l r now fs now (sc, w) = (err, sc', w1)" and w': "s_jobs w' = s_jobs w1"
    using False assms by (auto simp: finishJob_def Let_def split: if_splits prod.splits)
  from handleFailure_jobs [OF h] show ?thesis unfolding w' by auto
qed

lemma row_step_finishes: "finishes j dto \<Longrightarrow> row_step FinishActor j (applyUpdate dto now j)"
  by (cases "u_completedAt dto") (auto simp: finishes_def row_defs applyUpdate_def toRow_def)

lemma finishJob_evolves:
  assumes "finishJob D i l r now (sc, w) = (err, sc', w')"
  shows "evolves FinishActor (s_jobs w) (s_jobs w')" "same_ids (s_jobs w) (s_jobs w')"
  using finishJob_jobs [OF assms]
  by (auto simp: same_ids_resolveAll same_ids_update intro!: evolves_resolved evolves_update row_step_finishes)

section \<open>The users\<close>

lemma createJob_table:
  assumes "createJob nextCron i now dto (sc, w) = Inr (job, sc', w')"
  shows "findById i (s_jobs w) = None \<and> s_jobs w' = s_jobs w @ [newRow i now dto]"
  using assms by (auto simp: createJob_def submitJob_def create_def Let_def split: option.splits sum.splits if_splits)

lemma evolves_append: "evolves a db (db @ js)"
  by (auto simp: evolves_def findById_append)

lemma newRow_ok: "row_ok (newRow i now dto)" "j_status (newRow i now dto) = PENDING"
  by (simp_all add: row_ok_def newRow_def)

lemma cancelled_evolves:
  assumes "findById i db = Some j" "cancellable org j"
  shows "evolves UserActor db (snd (update i (empty_update\<lparr>u_status := Some CANCELLED, u_completedAt := Some now\<rparr>) now db))"
  by (rule evolves_update) (use assms in \<open>auto simp: row_defs update_record_defs cancellable_def\<close>)

lemma cancelJob_evolves:
  assumes "cancelJob i org now db = Inr (r, db')"
  shows "evolves UserActor db db'" "same_ids db db'"
  using assms
  by (auto simp: cancelJob_eq same_ids_update intro: cancelled_evolves split: option.splits if_splits)

lemma retryJob_evolves:
  assumes "retryJob i org now db = Inr (r, db')"
  shows "evolves UserActor db db'" "same_ids db db'"
proof -
  from assms obtain j where j: "findById i db = Some j" "retryable org j"
    and db': "db' = snd (update i (empty_update\<lparr>u_status := Some PENDING\<rparr>) now db)"
    by (auto simp: retryJob_eq split: option.splits if_splits)
  show "evolves UserActor db db'"
    unfolding db' by (rule evolves_update) (use j in \<open>auto simp: row_defs update_record_defs retryable_def\<close>)
  show "same_ids db db'" by (simp add: db' same_ids_update)
qed

lemma same_ids_bulkCancel: "same_ids db (snd (fold (bulkCancelStep org now) ids (acc, db)))"
proof (induction ids arbitrary: acc db)
  case (Cons i ids)
  obtain cs ss where "acc = (cs, ss)" by (metis surj_pair)
  then show ?case
    using Cons.IH [of "(cs @ [i], ss)" "snd (update i (empty_update\<lparr>u_status := Some CANCELLED, u_completedAt := Some now\<rparr>) now db)"]
      Cons.IH [of "(cs, ss @ [i])" db]
    by (simp add: bulkCancelStep_eq same_ids_update)
qed simp

lemma bulkCancel_evolves:
  assumes "bulkCancel ids org now db = (answer, db')"
  shows "evolves UserActor db db'" "same_ids db db'"
proof -
  obtain cs ss where run: "fold (bulkCancelStep org now) ids (([], []), db) = ((cs, ss), db')"
    using assms by (metis bulkCancel_def surj_pair)
  then show "same_ids db db'" using same_ids_bulkCancel [of org now ids "([], [])" db] by simp
  have "findById x db' = (if x \<in> set ids \<and> canCancel org db x
      then map_option (\<lambda>j. j\<lparr>j_status := CANCELLED, j_completedAt := Some now, j_updatedAt := now\<rparr>) (findById x db)
      else findById x db)" for x
    using bulkCancel_fold [where seen = "{}" and ?db0.0 = db, OF _ _ run] by simp
  then show "evolves UserActor db db'"
    by (auto simp: evolves_def canCancel_def cancellable_def row_defs)
qed

section \<open>The cron scheduler\<close>

lemma triggerAll_jobs:
  assumes "triggerAll nextCron stamp now newId ds (ss, sc, w) = (e, ss', sc', w')" "table_ok (s_jobs w)"
  shows "\<exists>js. s_jobs w' = s_jobs w @ js \<and> table_ok (s_jobs w') \<and> (\<forall>j \<in> set js. row_ok j \<and> j_status j = PENDING)"
  using assms
proof (induction ds arbitrary: ss sc w)
  case (Cons d ds)
  obtain e1 ss1 sc1 w1 where one: "triggerSchedule nextCron stamp now (newId (sd_id d)) d (ss, sc, w) = (e1, ss1, sc1, w1)"
    by (metis surj_pair)
  have "s_jobs w1 = s_jobs w \<or>
      (\<exists>dto. findById (newId (sd_id d)) (s_jobs w) = None \<and> s_jobs w1 = s_jobs w @ [newRow (newId (sd_id d)) now dto])"
    using one by (auto simp: triggerSchedule_def submitJob_def create_def Let_def split: sum.splits if_splits)
  then obtain js where js: "s_jobs w1 = s_jobs w @ js" "table_ok (s_jobs w1)" "\<forall>j \<in> set js. row_ok j \<and> j_status j = PENDING"
    using Cons.prems(2) table_ok_snoc [of "s_jobs w"] by (fastforce simp: newRow_ok)
  show ?case
  proof (cases e1)
    case None
    with Cons.prems(1) one have "triggerAll nextCron stamp now newId ds (ss1, sc1, w1) = (e, ss', sc', w')" by simp
    from Cons.IH [OF this js(2)] js show ?thesis by auto
  next
    case (Some err)
    with Cons.prems(1) one js show ?thesis by auto
  qed
qed simp

section \<open>The system\<close>

text \<open>
  The state: the runs under way, as pairs of job and log row, and what the components
  share. One step is one operation of one actor. The step \<open>other\<close> is any operation that leaves
  the job table alone: those on workers, queues and metrics, a change to another process with its
  own scheduler object and dependency graph, and the death of workers, whose runs end nowhere.
  \<^verbatim>\<open>RetryService.manualRetry\<close> is called by no code and is not a step.
\<close>

type_synonym ('q, 'd) system = "(id \<times> id) set \<times> Scheduler \<times> ('q, 'd) world"

inductive sys_step ::
  "(QueueJobPayload, 'q) BullQueue \<Rightarrow> (DLQEntry, 'd) BullQueue \<Rightarrow> actor \<Rightarrow> ('q, 'd) system \<Rightarrow> ('q, 'd) system \<Rightarrow> bool"
  for B D where
  submit: "createJob nextCron i now dto (sc, w) = Inr (job, sc', w') \<Longrightarrow>
    sys_step B D UserActor (runs, sc, w) (runs, sc', w')"
| cancel: "cancelJob i org now (s_jobs w) = Inr (job, db) \<Longrightarrow>
    sys_step B D UserActor (runs, sc, w) (runs, sc, w\<lparr>s_jobs := db\<rparr>)"
| retry: "retryJob i org now (s_jobs w) = Inr (job, db) \<Longrightarrow>
    sys_step B D UserActor (runs, sc, w) (runs, sc, w\<lparr>s_jobs := db\<rparr>)"
| poll: "poll B cfg now locked (sc, w) = (sc', w') \<Longrightarrow> sys_step B D ScheduleActor (runs, sc, w) (runs, sc', w')"
| begin_run: "beginJob W data n logId now w = (Some (job, l), w') \<Longrightarrow>
    sys_step B D BeginActor (runs, sc, w) (insert (qp_jobId data, l) runs, sc, w')"
| bulk_cancel: "bulkCancel ids org now (s_jobs w) = (answer, db) \<Longrightarrow>
    sys_step B D UserActor (runs, sc, w) (runs, sc, w\<lparr>s_jobs := db\<rparr>)"
| cron: "cronTick nextCron stamp now newId locked (ss, sc, w) = (ss', sc', w') \<Longrightarrow>
    sys_step B D CronActor (runs, sc, w) (runs, sc', w')"
| other: "s_jobs w' = s_jobs w \<Longrightarrow> runs' \<subseteq> runs \<Longrightarrow> sys_step B D a (runs, sc, w) (runs', sc', w')"
| finish_run: "(i, l) \<in> runs \<Longrightarrow> finishJob D i l r now (sc, w) = (err, sc', w') \<Longrightarrow>
    sys_step B D FinishActor (runs, sc, w) (runs - {(i, l)}, sc', w')"

inductive sys_reach ::
  "(QueueJobPayload, 'q) BullQueue \<Rightarrow> (DLQEntry, 'd) BullQueue \<Rightarrow> ('q, 'd) system \<Rightarrow> ('q, 'd) system \<Rightarrow> bool"
  for B D s0 where
  refl: "sys_reach B D s0 s0"
| step: "sys_reach B D s0 s1 \<Longrightarrow> sys_step B D a s1 s2 \<Longrightarrow> sys_reach B D s0 s2"

definition rows_ok :: "jobs \<Rightarrow> bool" where
  "rows_ok db \<longleftrightarrow> (\<forall>x j. findById x db = Some j \<longrightarrow> row_ok j)"

text \<open>Every step evolves the rows there are; only submissions and the cron scheduler add some.\<close>

definition step_ok :: "actor \<Rightarrow> jobs \<Rightarrow> jobs \<Rightarrow> bool" where
  "step_ok a db db' \<longleftrightarrow> evolves a db db' \<and> table_ok db' \<and>
     (\<forall>x j. findById x db' = Some j \<and> findById x db = None \<longrightarrow>
        a \<in> {UserActor, CronActor} \<and> row_ok j \<and> j_status j = PENDING)"

lemma step_ok_append:
  assumes "table_ok (db @ js)" "\<forall>j \<in> set js. row_ok j \<and> j_status j = PENDING" "a \<in> {UserActor, CronActor}"
  shows "step_ok a db (db @ js)"
  using assms by (auto simp: step_ok_def evolves_append findById_append dest!: findById_Some)

lemma step_ok_same:
  assumes "table_ok db" "same_ids db db'" "evolves a db db'"
  shows "step_ok a db db'"
  using same_ids_table_ok [OF assms(2)] same_ids_absent [OF assms(2)] assms(1,3)
  by (simp add: step_ok_def) (metis option.distinct(1))

lemma sys_step_ok:
  assumes B: "bull_ok B" and step: "sys_step B D a s s'" and ok: "table_ok (s_jobs (snd (snd s)))"
  shows "step_ok a (s_jobs (snd (snd s))) (s_jobs (snd (snd s')))"
  using step ok
proof induction
  case (submit nextCron i now dto sc w job sc' w' runs)
  from createJob_table [OF submit(1)] submit(2) show ?case
    using table_ok_snoc [of "s_jobs w" "newRow i now dto"] by (auto simp: newRow_ok intro!: step_ok_append)
next
  case (bulk_cancel ids org now w answer db runs sc)
  with bulkCancel_evolves [OF bulk_cancel(1)] show ?case by (simp add: step_ok_same)
next
  case (cron nextCron stamp now newId locked ss sc w ss' sc' w' runs)
  obtain e where "triggerAll nextCron stamp now newId (fetchDueSchedules now locked ss) (ss, sc, w) = (e, ss', sc', w')"
    using cron(1) by (metis cronTick_def fst_conv prod.collapse)
  from triggerAll_jobs [OF this] cron(2) show ?case by (auto intro: step_ok_append)
next
  case (other w' w runs' runs a sc sc')
  then show ?case by (simp add: step_ok_same)
next
  case (cancel i org now w job db runs sc)
  with cancelJob_evolves [OF cancel(1)] show ?case by (simp add: step_ok_same)
next
  case (retry i org now w job db runs sc)
  with retryJob_evolves [OF retry(1)] show ?case by (simp add: step_ok_same)
next
  case (poll cfg now locked sc w sc' w' runs)
  with poll_evolves [OF B _ poll(1)] show ?case by (simp add: step_ok_same)
next
  case (begin_run W data n logId now w job l w' runs sc)
  with beginJob_evolves [OF begin_run(1)] show ?case by (simp add: step_ok_same)
next
  case (finish_run i l runs r now sc w err sc' w')
  with finishJob_evolves [OF finish_run(2)] show ?case by (simp add: step_ok_same)
qed

lemma rows_ok_step:
  assumes "step_ok a db db'" "rows_ok db"
  shows "rows_ok db'"
  unfolding rows_ok_def
proof (intro allI impI)
  fix x j assume j: "findById x db' = Some j"
  show "row_ok j"
  proof (cases "findById x db")
    case None
    then show ?thesis using assms(1) j by (auto simp: step_ok_def)
  next
    case (Some i)
    then have "row_step a i j" using assms(1) j by (fastforce simp: step_ok_def evolves_def)
    then show ?thesis using assms(2) Some by (auto simp: row_step_def rows_ok_def)
  qed
qed

section \<open>Properties\<close>



text \<open>
  C4. The type of a job row, in every state the system reaches: the statuses TIMED\_OUT and
  SKIPPED never occur; the retry count stays between zero and the maximum; a job that is
  over has its time of completion; a RUNNING job has its worker and its start; and
  identifiers stay unique.
\<close>

theorem job_rows_well_formed:
  assumes B: "bull_ok B" and reach: "sys_reach B D (runs, sc, w) (runs', sc', w')"
    and init: "table_ok (s_jobs w)" "\<forall>x j. findById x (s_jobs w) = Some j \<longrightarrow> row_ok j"
  shows "table_ok (s_jobs w') \<and> (\<forall>x j. findById x (s_jobs w') = Some j \<longrightarrow>
     j_status j \<notin> {TIMED_OUT, SKIPPED} \<and> 0 \<le> j_retryCount j \<and> j_retryCount j \<le> max 0 (j_maxRetries j) \<and>
     (j_status j \<in> {COMPLETED, FAILED, CANCELLED} \<longrightarrow> j_completedAt j \<noteq> None) \<and>
     (j_status j = RUNNING \<longrightarrow> j_startedAt j \<noteq> None \<and> j_workerId j \<noteq> None))"
proof -
  have "table_ok (s_jobs (snd (snd s'))) \<and> rows_ok (s_jobs (snd (snd s')))"
    if "sys_reach B D s s'" "table_ok (s_jobs (snd (snd s)))" "rows_ok (s_jobs (snd (snd s)))" for s s'
    using that
  proof induction
    case (step s1 a s2)
    then have "step_ok a (s_jobs (snd (snd s1))) (s_jobs (snd (snd s2)))" using sys_step_ok [OF B] by blast
    with step show ?case using rows_ok_step by (auto simp: step_ok_def)
  qed simp
  from this [OF reach] init have "table_ok (s_jobs w')" "rows_ok (s_jobs w')" by (simp_all add: rows_ok_def)
  then show ?thesis unfolding rows_ok_def row_ok_def by blast
qed

theorem job_rows_well_formed_witness:
  "\<exists>sc' w'. poll memQueue (DEFAULT_CONFIG 1000 30000) 5 {} (new_Scheduler, sample_world [sample_job ''a'' []]) = (sc', w') \<and>
    table_ok (s_jobs w')"
proof -
  let ?w = "sample_world [sample_job ''a'' []]"
  obtain sc' w' where run: "poll memQueue (DEFAULT_CONFIG 1000 30000) 5 {} (new_Scheduler, ?w) = (sc', w')" by fastforce
  have reach: "sys_reach memQueue memQueue ({}, new_Scheduler, ?w) ({}, sc', w')"
    by (rule sys_reach.step [OF sys_reach.refl sys_step.poll [OF run]])
  have init: "table_ok (s_jobs ?w)" "\<forall>x j. findById x (s_jobs ?w) = Some j \<longrightarrow> row_ok j"
    by (auto simp: sample_world_def table_ok_def row_ok_def sample_job_def split: if_splits)
  from job_rows_well_formed [OF memQueue_ok reach init] run show ?thesis by blast
qed

end
