(* ===== verification/EndToEnd.thy ===== *)
theory EndToEnd
  imports Lifecycle
begin

text \<open>
  The way of a job through the components: submission by \<^verbatim>\<open>JobService.createJob\<close>, the polls
  of \<^verbatim>\<open>JobScheduler\<close>, the queue, and the run on a worker. The operations are those of the
  other theories; this one shows that together they get the work done: polls drain a
  backlog, and a submitted job that can run ends as COMPLETED.
\<close>

section \<open>One poll\<close>

text \<open>What is asked of the queue beyond \<open>bull_ok\<close>: it is reachable, so that adding an entry does not fail.\<close>

definition queue_accepts :: "('d, 'q) BullQueue \<Rightarrow> bool" where
  "queue_accepts B \<longleftrightarrow> (\<forall>n d opts q. \<exists>r. q_add B n d opts q = Inr r)"

lemma memQueue_accepts: "queue_accepts memQueue"
  by (simp add: queue_accepts_def memQueue_def Let_def)

lemma enqueueClaimed_accepted:
  assumes B: "bull_ok B" "queue_accepts B" and deps: "j_dependencyCount job \<le> j_resolvedDependencyCount job"
  obtains q ms where
    "enqueueClaimed B now job (sc, w) = (emit (EvEnqueued (j_id job)) sc, w\<lparr>s_queue := q, s_metrics := ms\<rparr>)"
    "q_getJob B (bullJobId (j_id job)) q = Some (nullish (q_getJob B (bullJobId (j_id job)) (s_queue w)) (jobPayload job))"
    "\<And>x. x \<noteq> j_id job \<Longrightarrow> q_getJob B (bullJobId x) q = q_getJob B (bullJobId x) (s_queue w)"
proof -
  let ?opts = "\<lparr>ao_priority = Some (j_priority job),
     ao_delayMs = Some (case j_scheduledAt job of None \<Rightarrow> 0 | Some t \<Rightarrow> max 0 (t - now)),
     ao_jobId = Some (bullJobId (j_id job))\<rparr>"
  have "\<exists>r. queueAdd B (jobPayload job) ?opts (s_queue w, s_metrics w) = Inr r"
    using B(2) by (auto simp: queue_accepts_def queueAdd_def Let_def split: sum.split) (metis sum.distinct(1))
  then obtain i q ms where add: "queueAdd B (jobPayload job) ?opts (s_queue w, s_metrics w) = Inr (i, q, ms)"
    by (metis prod_cases3)
  then have "enqueueClaimed B now job (sc, w) = (emit (EvEnqueued (j_id job)) sc, w\<lparr>s_queue := q, s_metrics := ms\<rparr>)"
    using deps by (simp add: enqueueClaimed_def Let_def)
  with queueAdd_Inr [OF B(1) add] show thesis by (auto intro!: that split: option.split)
qed

text \<open>The claimed jobs all get their entries, and nothing but the queue and the metrics changes.\<close>

lemma fold_enqueueClaimed_accepted:
  assumes B: "bull_ok B" "queue_accepts B" and "distinct (map j_id jobs)"
    and "\<forall>job \<in> set jobs. j_dependencyCount job \<le> j_resolvedDependencyCount job"
    and "fold (enqueueClaimed B now) jobs (sc, w) = (sc', w')"
  shows "(\<exists>q ms. w' = w\<lparr>s_queue := q, s_metrics := ms\<rparr>) \<and>
    (\<forall>job \<in> set jobs. q_getJob B (bullJobId (j_id job)) (s_queue w') =
       Some (nullish (q_getJob B (bullJobId (j_id job)) (s_queue w)) (jobPayload job))) \<and>
    (\<forall>x. x \<notin> j_id ` set jobs \<longrightarrow> q_getJob B (bullJobId x) (s_queue w') = q_getJob B (bullJobId x) (s_queue w))"
  using assms(3-)
proof (induction jobs arbitrary: sc w)
  case Nil
  then show ?case by (auto intro!: exI [of _ "s_queue w"] exI [of _ "s_metrics w"])
next
  case (Cons job jobs)
  obtain q ms where step: "enqueueClaimed B now job (sc, w) =
      (emit (EvEnqueued (j_id job)) sc, w\<lparr>s_queue := q, s_metrics := ms\<rparr>)"
    and entry: "q_getJob B (bullJobId (j_id job)) q =
      Some (nullish (q_getJob B (bullJobId (j_id job)) (s_queue w)) (jobPayload job))"
    "\<And>x. x \<noteq> j_id job \<Longrightarrow> q_getJob B (bullJobId x) q = q_getJob B (bullJobId x) (s_queue w)"
    using enqueueClaimed_accepted [OF B] Cons.prems(2) by (metis list.set_intros(1))
  have "fold (enqueueClaimed B now) jobs (emit (EvEnqueued (j_id job)) sc, w\<lparr>s_queue := q, s_metrics := ms\<rparr>) = (sc', w')"
    using Cons.prems(3) step by simp
  note rest = Cons.IH [OF _ _ this, simplified]
  have "q_getJob B (bullJobId (j_id job')) q = q_getJob B (bullJobId (j_id job')) (s_queue w)" if "job' \<in> set jobs" for job'
    using that Cons.prems(1) entry(2) by (metis distinct.simps(2) image_eqI list.set_map list.simps(9))
  with rest Cons.prems(1,2) entry show ?case by auto
qed

text \<open>
  A poll while the queue accepts entries and no run is overdue: the table is the one the
  claim leaves, and each claimed job has its entry.
\<close>

lemma poll_accepted:
  assumes B: "bull_ok B" "queue_accepts B" and ok: "table_ok (s_jobs w)"
    and fresh: "findStalledJobs (stalledJobThresholdMs cfg) T (s_jobs w) = []" "now \<le> T"
    and claim: "claimPendingJobs (batchSize cfg) now {} (s_jobs w) = (jobs, db)"
    and run: "poll B cfg now {} (sc, w) = (sc', w')"
  shows "s_jobs w' = db" "s_logs w' = s_logs w" "s_dlq w' = s_dlq w" "s_graph w' = s_graph w"
    "findStalledJobs (stalledJobThresholdMs cfg) T db = []"
    "job \<in> set jobs \<Longrightarrow> q_getJob B (bullJobId (j_id job)) (s_queue w') =
       Some (nullish (q_getJob B (bullJobId (j_id job)) (s_queue w)) (jobPayload job))"
    "x \<notin> j_id ` set jobs \<Longrightarrow> q_getJob B (bullJobId x) (s_queue w') = q_getJob B (bullJobId x) (s_queue w)"
proof -
  note facts = claim_facts [OF ok claim]
  obtain w1 where sched: "fold (enqueueClaimed B now) jobs (sc, w\<lparr>s_jobs := db\<rparr>) = (sc', w1)"
    and w': "w' = recoverStalledJobs cfg now w1"
    using run claim by (auto simp: poll_def scheduleReadyJobs_def Let_def split: prod.splits)
  have deps: "\<forall>job \<in> set jobs. j_dependencyCount job \<le> j_resolvedDependencyCount job"
    using facts(2) by (fastforce simp: claimable_def)
  have "distinct (map j_id jobs)"
    using claim ok facts(5) by (auto simp: claimPendingJobs_def Let_def table_ok_def distinct_map_filter)
  note out = fold_enqueueClaimed_accepted [OF B this deps sched, simplified]
  show stalled: "findStalledJobs (stalledJobThresholdMs cfg) T db = []"
    using fresh(1) claim by (auto simp: findStalledJobs_def claimPendingJobs_def updateWhere_def Let_def filter_empty_conv split: if_splits)
  then have "findStalledJobs (stalledJobThresholdMs cfg) now db = []"
    using fresh(2) by (fastforce simp: findStalledJobs_def filter_empty_conv split: option.splits)
  with out have "w' = w1" by (auto simp: w' recoverStalledJobs_def)
  with out show "s_jobs w' = db" "s_logs w' = s_logs w" "s_dlq w' = s_dlq w" "s_graph w' = s_graph w"
    "job \<in> set jobs \<Longrightarrow> q_getJob B (bullJobId (j_id job)) (s_queue w') =
       Some (nullish (q_getJob B (bullJobId (j_id job)) (s_queue w)) (jobPayload job))"
    "x \<notin> j_id ` set jobs \<Longrightarrow> q_getJob B (bullJobId x) (s_queue w') = q_getJob B (bullJobId x) (s_queue w)"
    by auto
qed

section \<open>Polls drain a backlog\<close>

lemma claimable_later: "claimable t j \<Longrightarrow> t \<le> T \<Longrightarrow> claimable T j"
  by (auto simp: claimable_def split: option.splits)

text \<open>A claim lowers the number of jobs that can still be claimed by the number it takes.\<close>

lemma length_filter_removed:
  assumes "\<forall>x \<in> set xs. Q x \<longrightarrow> P x" "\<And>x. \<not> P (f x)"
  shows "length (filter P (map (\<lambda>x. if Q x then f x else x) xs)) + length (filter Q xs) = length (filter P xs)"
  using assms(1) by (induction xs) (auto simp: assms(2))

lemma claim_backlog:
  assumes ok: "table_ok db" and claim: "claimPendingJobs limit t {} db = (jobs, db')" and later: "t \<le> T"
  shows "length (filter (claimable T) db') + length jobs = length (filter (claimable T) db)"
proof -
  let ?Q = "\<lambda>j. j_id j \<in> set (selectClaim limit t {} db)"
  have eqs: "db' = map (\<lambda>j. if ?Q j then toQueued t j else j) db" "jobs = map (toQueued t) (filter ?Q db)"
    using claim claimed_eq [of limit t "{}" db] claimed_table [of limit t "{}" db] by (simp_all add: updateWhere_def)
  have "claimable T j" if "j \<in> set db" "?Q j" for j
  proof -
    from selectClaim_mem [OF that(2)] obtain k where "k \<in> set db" "j_id k = j_id j" "claimable t k" by blast
    moreover from this ok that(1) have "k = j" by (auto simp: table_ok_def distinct_map dest: inj_onD)
    ultimately show ?thesis using later by (simp add: claimable_later)
  qed
  then have "length (filter (claimable T) db') + length (filter ?Q db) = length (filter (claimable T) db)"
    unfolding eqs(1) by (intro length_filter_removed) (auto simp: claimable_def)
  then show ?thesis by (simp add: eqs(2))
qed

text \<open>What has become of a job that could be claimed: it is QUEUED, with an entry in the queue.\<close>

definition enqueued :: "(QueueJobPayload, 'q) BullQueue \<Rightarrow> 'q \<Rightarrow> id \<Rightarrow> Job \<Rightarrow> ('q, 'd) world \<Rightarrow> bool" where
  "enqueued B q0 i j w \<longleftrightarrow> (\<exists>t. findById i (s_jobs w) = Some (toQueued t j)) \<and>
     q_getJob B (bullJobId i) (s_queue w) = Some (nullish (q_getJob B (bullJobId i) q0) (jobPayload j))"

lemma jobPayload_queued [simp]: "jobPayload (toQueued t j) = jobPayload j"
  by (simp add: jobPayload_def)

lemma poll_row:
  assumes B: "bull_ok B" "queue_accepts B" and ok: "table_ok (s_jobs w)"
    and fresh: "findStalledJobs (stalledJobThresholdMs cfg) T (s_jobs w) = []" "now \<le> T"
    and claim: "claimPendingJobs (batchSize cfg) now {} (s_jobs w) = (jobs, db)"
    and run: "poll B cfg now {} (sc, w) = (sc', w')" and row: "findById i (s_jobs w) = Some j"
  shows "if i \<in> j_id ` set jobs then enqueued B (s_queue w) i j w'
    else findById i (s_jobs w') = Some j \<and> q_getJob B (bullJobId i) (s_queue w') = q_getJob B (bullJobId i) (s_queue w)"
proof -
  note facts = claim_facts [OF ok claim] and out = poll_accepted [OF B ok fresh claim run]
  show ?thesis
  proof (cases "i \<in> j_id ` set jobs")
    case True
    then obtain c where c: "c \<in> set jobs" "i = j_id c" by blast
    from facts(2) [OF c(1)] row c(2) have "c = toQueued now j" "findById i db = Some c" by auto
    with c out(1) out(6) [OF c(1)] True show ?thesis by (auto simp: enqueued_def)
  next
    case False
    with facts(3) row out(1,7) show ?thesis by simp
  qed
qed

lemma claimed_all:
  assumes ok: "table_ok db" and claim: "claimPendingJobs limit t {} db = (jobs, db')"
    and room: "length (filter (claimable t) db) \<le> limit" and j: "findById i db = Some j" "claimable t j"
  shows "i \<in> j_id ` set jobs"
proof -
  have "length (filter (claimable t) db') = 0"
    using claim_backlog [OF ok claim order.refl] claim_facts(1) [OF ok claim] room by simp
  then have none: "\<forall>k \<in> set db'. \<not> claimable t k" by (simp add: filter_empty_conv)
  show ?thesis
  proof (rule ccontr)
    assume "i \<notin> j_id ` set jobs"
    then have "findById i db' = Some j" using claim_facts(3) [OF ok claim] j(1) by simp
    with none j(2) show False using findById_Some by blast
  qed
qed

lemma polls_keep_enqueued:
  assumes B: "bull_ok B" "queue_accepts B" and "table_ok (s_jobs w)"
    and "findStalledJobs (stalledJobThresholdMs cfg) T (s_jobs w) = []" "\<forall>t \<in> set ts. t \<le> T"
    and "fold (\<lambda>t. poll B cfg t {}) ts (sc, w) = (sc', w')" "enqueued B q0 i j w"
  shows "enqueued B q0 i j w' \<and> s_logs w' = s_logs w \<and> s_dlq w' = s_dlq w \<and> s_graph w' = s_graph w"
  using assms(3-)
proof (induction ts arbitrary: sc w)
  case (Cons t ts)
  obtain jobs db where claim: "claimPendingJobs (batchSize cfg) t {} (s_jobs w) = (jobs, db)" by fastforce
  obtain sc1 w1 where run: "poll B cfg t {} (sc, w) = (sc1, w1)" by fastforce
  have le: "t \<le> T" using Cons.prems(3) by simp
  note out = poll_accepted [OF B Cons.prems(1,2) le claim run]
  from Cons.prems(5) obtain u where row: "findById i (s_jobs w) = Some (toQueued u j)" by (auto simp: enqueued_def)
  have "i \<notin> j_id ` set jobs"
    using claim_facts(2) [OF Cons.prems(1) claim] row by (force simp: claimable_def)
  then have "enqueued B q0 i j w1"
    using poll_row [OF B Cons.prems(1,2) le claim run row] Cons.prems(5) by (auto simp: enqueued_def)
  then show ?case
    using Cons.IH [of w1 sc1] Cons.prems(3,4) run out(1-5) claim_facts(5) [OF Cons.prems(1) claim] by simp
qed simp

lemma polls_drain:
  assumes B: "bull_ok B" "queue_accepts B" and "table_ok (s_jobs w)"
    and "findStalledJobs (stalledJobThresholdMs cfg) T (s_jobs w) = []" "t0 \<le> T" "\<forall>t \<in> set ts. t0 \<le> t \<and> t \<le> T"
    and "length (filter (claimable T) (s_jobs w)) \<le> length ts * batchSize cfg"
    and "fold (\<lambda>t. poll B cfg t {}) ts (sc, w) = (sc', w')"
    and "findById i (s_jobs w) = Some j" "claimable t0 j"
  shows "enqueued B (s_queue w) i j w' \<and> s_logs w' = s_logs w \<and> s_dlq w' = s_dlq w \<and> s_graph w' = s_graph w"
  using assms(3-)
proof (induction ts arbitrary: sc w)
  case Nil
  then have "claimable T j" "j \<in> set (s_jobs w)" using claimable_later findById_Some by blast+
  with Nil.prems(5) show ?case by (auto simp: filter_empty_conv)
next
  case (Cons t ts)
  obtain jobs db where claim: "claimPendingJobs (batchSize cfg) t {} (s_jobs w) = (jobs, db)" by fastforce
  obtain sc1 w1 where run: "poll B cfg t {} (sc, w) = (sc1, w1)" by fastforce
  have t: "t0 \<le> t" "t \<le> T" "\<forall>t \<in> set ts. t0 \<le> t \<and> t \<le> T" using Cons.prems(4) by simp_all
  note facts = claim_facts [OF Cons.prems(1) claim]
    and out = poll_accepted [OF B Cons.prems(1,2) t(2) claim run]
    and row = poll_row [OF B Cons.prems(1,2) t(2) claim run Cons.prems(7)]
  have rest: "fold (\<lambda>t. poll B cfg t {}) ts (sc1, w1) = (sc', w')" using Cons.prems(6) run by simp
  have ok1: "table_ok (s_jobs w1)" "findStalledJobs (stalledJobThresholdMs cfg) T (s_jobs w1) = []"
    using out(1,5) facts(5) by simp_all
  show ?case
  proof (cases "i \<in> j_id ` set jobs")
    case True
    then have "enqueued B (s_queue w) i j w1" using row by simp
    from polls_keep_enqueued [OF B ok1 _ rest this] t(3) out(2-4) show ?thesis by simp
  next
    case False
    then have "batchSize cfg < length (filter (claimable t) (s_jobs w))"
      using claimed_all [OF Cons.prems(1) claim _ Cons.prems(7)] Cons.prems(8) claimable_later t(1) by (metis not_le)
    then have "length jobs = batchSize cfg" using facts(1) by simp
    then have "length (filter (claimable T) (s_jobs w1)) \<le> length ts * batchSize cfg"
      using claim_backlog [OF Cons.prems(1) claim t(2)] Cons.prems(5) out(1) by simp
    from Cons.IH [OF ok1 Cons.prems(3) t(3) this rest] row False Cons.prems(8) out(2-4) show ?thesis
      by (auto simp: enqueued_def)
  qed
qed

section \<open>Submission and run\<close>

lemma createJob_plain:
  assumes "findById i (s_jobs w) = None" "c_cronExpression dto = None" "nullish (c_dependencies dto) [] = []"
  obtains sc' w' where "createJob nextCron i now dto (sc, w) = Inr (newRow i now dto, sc', w')"
    "s_jobs w' = s_jobs w @ [newRow i now dto]" "s_queue w' = s_queue w" "s_logs w' = s_logs w" "s_dlq w' = s_dlq w"
  using assms by (simp add: createJob_def submitJob_def create_fresh)

text \<open>What a successful run leaves of the row and of the log.\<close>

lemma processJob_success:
  assumes row: "findById (qp_jobId data) (s_jobs w) = Some j" "j_status j \<noteq> CANCELLED"
    and log: "findLog logId (s_logs w) = None" and success: "xr_success (exec j)"
  obtains sc' w' l where "processJob D W exec data n logId t1 t2 (sc, w) = (None, sc', w')"
    "findById (qp_jobId data) (s_jobs w') = Some (j\<lparr>j_status := COMPLETED, j_workerId := Some (we_workerId W),
       j_startedAt := Some t1, j_completedAt := Some t2, j_result := orKeep (xr_result (exec j)) (j_result j),
       j_exitCode := orKeep (xr_exitCode (exec j)) (j_exitCode j), j_updatedAt := t2\<rparr>)"
    "findLog logId (s_logs w') = Some l" "e_status l = EX_COMPLETED" "e_jobId l = qp_jobId data"
    "e_result l = xr_result (exec j)"
proof -
  let ?i = "qp_jobId data" and ?r = "exec j"
  obtain w1 l where b: "beginJob W data n logId t1 w = (Some (j, logId), w1)"
    and row1: "findById ?i (s_jobs w1) = Some (j\<lparr>j_status := RUNNING, j_workerId := Some (we_workerId W),
      j_startedAt := Some t1, j_updatedAt := t1\<rparr>)"
    and l: "findLog logId (s_logs w1) = Some l" "e_jobId l = ?i"
    using beginJob_runnable [OF row log] by blast
  let ?w2 = "w1\<lparr>s_jobs := snd (update ?i (empty_update\<lparr>u_status := Some COMPLETED, u_completedAt := Some t2,
        u_result := xr_result ?r, u_exitCode := xr_exitCode ?r\<rparr>) t2 (s_jobs w1)),
      s_logs := snd (completeLog (successLog logId ?r t2) (s_logs w1))\<rparr>"
  obtain sc' w' where fin: "onJobCompleted ?i COMPLETED t2 (sc, ?w2) = (sc', w')" by fastforce
  have "findById ?i (s_jobs (snd (onJobCompleted ?i COMPLETED t2 (sc, ?w2)))) = Some (j\<lparr>j_status := COMPLETED,
      j_workerId := Some (we_workerId W), j_startedAt := Some t1, j_completedAt := Some t2,
      j_result := orKeep (xr_result ?r) (j_result j), j_exitCode := orKeep (xr_exitCode ?r) (j_exitCode j), j_updatedAt := t2\<rparr>)"
    by (rule onJobCompleted_not_pending) (simp_all add: row1 update_record_defs)
  then have row2: "findById ?i (s_jobs w') = Some (j\<lparr>j_status := COMPLETED, j_workerId := Some (we_workerId W),
      j_startedAt := Some t1, j_completedAt := Some t2, j_result := orKeep (xr_result ?r) (j_result j),
      j_exitCode := orKeep (xr_exitCode ?r) (j_exitCode j), j_updatedAt := t2\<rparr>)"
    by (simp only: fin snd_conv)
  have "s_logs w' = s_logs ?w2" using onJobCompleted_frame(1) [of ?i COMPLETED t2 "(sc, ?w2)"] by (simp only: fin snd_conv)
  then have "findLog logId (s_logs w') = Some (completeRow (successLog logId ?r t2) l)"
    by (simp add: findLog_complete l(1) successLog_def)
  moreover have "processJob D W exec data n logId t1 t2 (sc, w) = (None, sc', w')"
    using b success fin by (simp add: processJob_def finishJob_def Let_def)
  ultimately show thesis
    using row2 l(2) by (intro that [of sc' w' "completeRow (successLog logId ?r t2) l"]) (simp_all add: completeRow_def successLog_def)
qed

section \<open>Properties\<close>

text \<open>
  C8. Polls drain a backlog: when the queue takes entries and no run is overdue, as many polls as
  there are batches among the jobs due leave every job that was due at the first poll
  QUEUED, otherwise as it was, and with an entry in the queue (its own, unless one of
  the same identifier was there already), whatever priorities compete.
\<close>

theorem backlog_drained:
  assumes "bull_ok B" "queue_accepts B" "table_ok (s_jobs w)"
    and "findStalledJobs (stalledJobThresholdMs cfg) T (s_jobs w) = []" "t0 \<le> T" "\<forall>t \<in> set ts. t0 \<le> t \<and> t \<le> T"
    and "length (filter (claimable T) (s_jobs w)) \<le> length ts * batchSize cfg"
    and "fold (\<lambda>t. poll B cfg t {}) ts (sc, w) = (sc', w')"
  shows "\<forall>i j. findById i (s_jobs w) = Some j \<and> claimable t0 j \<longrightarrow>
    (\<exists>t. findById i (s_jobs w') = Some (j\<lparr>j_status := QUEUED, j_updatedAt := t\<rparr>)) \<and>
    q_getJob B (bullJobId i) (s_queue w') =
      Some (case q_getJob B (bullJobId i) (s_queue w) of None \<Rightarrow> jobPayload j | Some old \<Rightarrow> old)"
  using polls_drain [OF assms] by (auto simp: enqueued_def nullish_def)

theorem backlog_drained_witness:
  "\<exists>sc' w'. fold (\<lambda>t. poll memQueue ((DEFAULT_CONFIG 1000 30000)\<lparr>batchSize := 1\<rparr>) t {}) [5, 6]
      (new_Scheduler, sample_world [sample_job ''a'' [], sample_job ''b'' []]) = (sc', w') \<and>
    q_getJob memQueue ''job_b'' (s_queue w') = Some (jobPayload (sample_job ''b'' []))"
proof -
  let ?cfg = "(DEFAULT_CONFIG 1000 30000)\<lparr>batchSize := 1\<rparr>" and ?w = "sample_world [sample_job ''a'' [], sample_job ''b'' []]"
  obtain sc' w' where run: "fold (\<lambda>t. poll memQueue ?cfg t {}) [5, 6] (new_Scheduler, ?w) = (sc', w')" by fastforce
  have "table_ok (s_jobs ?w)" "findStalledJobs (stalledJobThresholdMs ?cfg) 6 (s_jobs ?w) = []"
    "length (filter (claimable 6) (s_jobs ?w)) \<le> length [5, 6 :: time] * batchSize ?cfg"
    by (simp_all add: sample_world_def sample_job_def table_ok_def findStalledJobs_def claimable_def)
  from backlog_drained [OF memQueue_ok memQueue_accepts this(1,2) _ _ this(3) run, of 5]
  have "\<forall>i j. findById i (s_jobs ?w) = Some j \<and> claimable 5 j \<longrightarrow> q_getJob memQueue (bullJobId i) (s_queue w') = Some (jobPayload j)"
    by (simp add: sample_world_def memQueue_def)
  moreover have "findById ''b'' (s_jobs ?w) = Some (sample_job ''b'' [])" "claimable 5 (sample_job ''b'' [])"
    by (simp_all add: sample_world_def sample_job_def claimable_def)
  ultimately show ?thesis using run by (auto simp: bullJobId_def)
qed

text \<open>
  C7. From submission to completion. A job without dependencies that is due is accepted
  and stored; after as many polls as there are batches among the jobs due, it is in the queue
  with its type, payload and attempt number one; and the worker that takes the entry, if
  the run succeeds, leaves the job COMPLETED with the result of the run, its identity as
  submitted, the worker and the times, and a COMPLETED log row with the same result.
\<close>

theorem submitted_job_completes:
  assumes B: "bull_ok B" "queue_accepts B" and ok: "table_ok (s_jobs w)"
    and new: "findById i (s_jobs w) = None" "q_getJob B (bullJobId i) (s_queue w) = None" "findLog logId (s_logs w) = None"
    and dto: "c_cronExpression dto = None" "nullish (c_dependencies dto) [] = []" "\<forall>s. c_scheduledAt dto = Some s \<longrightarrow> s \<le> t0"
    and times: "findStalledJobs (stalledJobThresholdMs cfg) T (s_jobs w) = []" "t0 \<le> T" "\<forall>t \<in> set ts. t0 \<le> t \<and> t \<le> T"
    and room: "length (filter (claimable T) (s_jobs w)) < length ts * batchSize cfg"
    and success: "\<And>job. j_id job = i \<Longrightarrow> xr_success (exec job)"
  shows "\<exists>sc1 w1 sc2 w2 entry t sc3 w3 l. let row = newRow i now dto; job = row\<lparr>j_status := QUEUED, j_updatedAt := t\<rparr> in
    createJob nextCron i now dto (sc, w) = Inr (row, sc1, w1) \<and>
    fold (\<lambda>t. poll B cfg t {}) ts (sc1, w1) = (sc2, w2) \<and>
    q_getJob B (bullJobId i) (s_queue w2) = Some entry \<and> qp_jobId entry = i \<and> qp_attemptNumber entry = 1 \<and>
    qp_type entry = c_type dto \<and> qp_payload entry = c_payload dto \<and>
    processJob D W exec entry n logId t1 t2 (sc2, w2) = (None, sc3, w3) \<and>
    findById i (s_jobs w3) = Some (row\<lparr>j_status := COMPLETED, j_workerId := Some (we_workerId W), j_startedAt := Some t1,
      j_completedAt := Some t2, j_result := xr_result (exec job), j_exitCode := xr_exitCode (exec job), j_updatedAt := t2\<rparr>) \<and>
    findLog logId (s_logs w3) = Some l \<and> e_status l = EX_COMPLETED \<and> e_jobId l = i \<and> e_result l = xr_result (exec job)"
proof -
  let ?row = "newRow i now dto"
  obtain sc1 w1 where create: "createJob nextCron i now dto (sc, w) = Inr (?row, sc1, w1)"
    and w1: "s_jobs w1 = s_jobs w @ [?row]" "s_queue w1 = s_queue w" "s_logs w1 = s_logs w" "s_dlq w1 = s_dlq w"
    using createJob_plain [OF new(1) dto(1,2)] by blast
  obtain sc2 w2 where polls: "fold (\<lambda>t. poll B cfg t {}) ts (sc1, w1) = (sc2, w2)" by fastforce
  have id: "j_id ?row = i" by (simp add: newRow_def)
  have due: "claimable t0 ?row" using dto(2,3) by (auto simp: claimable_newRow nullish_def split: option.splits)
  have "table_ok (s_jobs w1)" "findStalledJobs (stalledJobThresholdMs cfg) T (s_jobs w1) = []"
    using table_ok_snoc [OF ok] new(1) times(1) id by (simp_all add: w1 findStalledJobs_def newRow_ok)
  moreover have "length (filter (claimable T) (s_jobs w1)) \<le> length ts * batchSize cfg"
    using room by (simp add: w1)
  moreover have "findById i (s_jobs w1) = Some ?row" using new(1) id by (simp add: w1 findById_append)
  ultimately have "enqueued B (s_queue w1) i ?row w2" and frame: "s_logs w2 = s_logs w"
    using polls_drain [OF B _ _ times(2,3) _ polls] due by (simp_all add: w1)
  then obtain t where row2: "findById i (s_jobs w2) = Some (toQueued t ?row)"
    and entry: "q_getJob B (bullJobId i) (s_queue w2) = Some (jobPayload ?row)"
    using new(2) by (auto simp: enqueued_def w1)
  have "qp_jobId (jobPayload ?row) = i" by (simp add: jobPayload_def id)
  with row2 have found: "findById (qp_jobId (jobPayload ?row)) (s_jobs w2) = Some (toQueued t ?row)" by simp
  obtain sc3 w3 l where run: "processJob D W exec (jobPayload ?row) n logId t1 t2 (sc2, w2) = (None, sc3, w3)"
    and out: "findById i (s_jobs w3) = Some ((toQueued t ?row)\<lparr>j_status := COMPLETED, j_workerId := Some (we_workerId W),
       j_startedAt := Some t1, j_completedAt := Some t2, j_result := orKeep (xr_result (exec (toQueued t ?row))) (j_result ?row),
       j_exitCode := orKeep (xr_exitCode (exec (toQueued t ?row))) (j_exitCode ?row), j_updatedAt := t2\<rparr>)"
      "findLog logId (s_logs w3) = Some l" "e_status l = EX_COMPLETED" "e_jobId l = i" "e_result l = xr_result (exec (toQueued t ?row))"
    using processJob_success [OF found, of logId exec D W n t1 t2 sc2] new(3) frame success id by (auto simp: jobPayload_def)
  have "j_result ?row = None" "j_exitCode ?row = None" by (simp_all add: newRow_def)
  moreover have "qp_attemptNumber (jobPayload ?row) = 1" "qp_type (jobPayload ?row) = c_type dto" "qp_payload (jobPayload ?row) = c_payload dto"
    by (simp_all add: jobPayload_def newRow_def)
  ultimately show ?thesis
    using create polls entry run out id unfolding Let_def
    by (intro exI [of _ sc1] exI [of _ w1] exI [of _ sc2] exI [of _ w2] exI [of _ "jobPayload ?row"] exI [of _ t]
        exI [of _ sc3] exI [of _ w3] exI [of _ l]) (auto simp: jobPayload_def orKeep_def split: option.splits)
qed

theorem submitted_job_completes_witness:
  "\<exists>sc2 w2 entry sc3 w3 job. q_getJob memQueue ''job_a'' (s_queue w2) = Some entry \<and>
    processJob memQueue \<lparr>we_workerId = ''w'', we_concurrency = 10\<rparr> (\<lambda>_. succeeded (Some [])) entry 0 ''log'' 7 9 (sc2, w2) = (None, sc3, w3) \<and>
    findById ''a'' (s_jobs w3) = Some job \<and> j_status job = COMPLETED \<and> j_result job = Some [] \<and> j_completedAt job = Some 9"
proof -
  let ?W = "\<lparr>we_workerId = ''w'', we_concurrency = 10\<rparr>" and ?x = "\<lambda>_ :: Job. succeeded (Some [])" and ?w = "sample_world []"
  let ?cfg = "DEFAULT_CONFIG 1000 30000"
  have "table_ok (s_jobs ?w)" "findById ''a'' (s_jobs ?w) = None" "q_getJob memQueue (bullJobId ''a'') (s_queue ?w) = None"
    "findLog ''log'' (s_logs ?w) = None" "c_cronExpression (sample_dto None) = None" "nullish (c_dependencies (sample_dto None)) [] = []"
    "\<forall>s. c_scheduledAt (sample_dto None) = Some s \<longrightarrow> s \<le> 5" "findStalledJobs (stalledJobThresholdMs ?cfg) 5 (s_jobs ?w) = []"
    "length (filter (claimable 5) (s_jobs ?w)) < length [5 :: time] * batchSize ?cfg"
    "\<And>job. j_id job = ''a'' \<Longrightarrow> xr_success (?x job)"
    by (simp_all add: sample_world_def table_ok_def memQueue_def sample_dto_def findStalledJobs_def DEFAULT_CONFIG_def succeeded_def)
  from submitted_job_completes [where nextCron = "\<lambda>_ _ _. Inl []" and now = 3 and sc = new_Scheduler and D = memQueue
      and W = ?W and n = 0 and ?t1.0 = 7 and ?t2.0 = 9, OF memQueue_ok memQueue_accepts this(1-8) order.refl _ this(9,10)]
  show ?thesis by (fastforce simp: Let_def bullJobId_def succeeded_def)
qed

text \<open>
  A job that is RETRYING stays so, without a new entry in the queue, however often the
  schedulers poll. Its run has ended without an error, so that the old entry counts as
  done: nothing in the program runs the job again unless a user cancels and retries it.
\<close>

lemma poll_retrying:
  assumes B: "bull_ok B" and ok: "table_ok (s_jobs w)" and run: "poll B cfg now locked (sc, w) = (sc', w')"
    and j: "findById i (s_jobs w) = Some j" "j_status j = RETRYING"
  shows "findById i (s_jobs w') = Some j \<and> q_getJob B (bullJobId i) (s_queue w') = q_getJob B (bullJobId i) (s_queue w)"
proof -
  obtain w1 where s: "scheduleReadyJobs B cfg now locked (sc, w) = (sc', w1)" and w': "w' = recoverStalledJobs cfg now w1"
    using run by (auto simp: poll_def Let_def split: prod.splits)
  obtain jobs db where claim: "claimPendingJobs (batchSize cfg) now locked (s_jobs w) = (jobs, db)" by fastforce
  have ok1: "table_ok (s_jobs w1)" using same_ids_table_ok [OF scheduleReadyJobs_rows(1) [OF B ok s]] ok by simp
  have "findById i (s_jobs w1) = Some j" using scheduleReadyJobs_rows(2) [OF B ok s j(1)] j(2) by auto
  then have row: "findById i (s_jobs w') = Some j" using j(2) by (simp add: w' findById_recover [OF ok1] stalled_def)
  have out: "i \<notin> j_id ` set jobs" using claim_facts(2) [OF ok claim] j by (force simp: claimable_def)
  have "q_getJob B (bullJobId i) (s_queue v') = q_getJob B (bullJobId i) (s_queue v)"
    if "fold (enqueueClaimed B now) js (c, v) = (c', v')" "i \<notin> j_id ` set js" for js c v c' v'
    using that
  proof (induction js arbitrary: c v)
    case (Cons job js)
    obtain c1 v1 where step: "enqueueClaimed B now job (c, v) = (c1, v1)" by fastforce
    have "q_getJob B (bullJobId i) (s_queue v1) = q_getJob B (bullJobId i) (s_queue v)"
      using B step by (cases rule: enqueueClaimed_cases) (use Cons.prems(2) in auto)
    with Cons step show ?case by simp
  qed simp
  from this [of jobs sc "w\<lparr>s_jobs := db\<rparr>"] s claim out
  have "q_getJob B (bullJobId i) (s_queue w1) = q_getJob B (bullJobId i) (s_queue w)" by (simp add: scheduleReadyJobs_def)
  moreover have "s_queue (recoverStalledJobs cfg now w1) = s_queue w1"
  proof -
    have "s_queue (fold (recoverJob now) js v) = s_queue v" for js v
      by (induction js arbitrary: v) (simp_all add: recoverJob_def)
    then show ?thesis by (simp add: recoverStalledJobs_def)
  qed
  ultimately show ?thesis using row by (simp add: w')
qed

theorem retrying_never_scheduled:
  assumes "bull_ok B" "table_ok (s_jobs w)" "findById i (s_jobs w) = Some j" "j_status j = RETRYING"
    and "fold (\<lambda>(t, locked). poll B cfg t locked) ts (sc, w) = (sc', w')"
  shows "findById i (s_jobs w') = Some j \<and> q_getJob B (bullJobId i) (s_queue w') = q_getJob B (bullJobId i) (s_queue w)"
  using assms(2,3,5)
proof (induction ts arbitrary: sc w)
  case (Cons p ts)
  obtain t locked where p: "p = (t, locked)" by fastforce
  obtain sc1 w1 where run: "poll B cfg t locked (sc, w) = (sc1, w1)" by fastforce
  have "table_ok (s_jobs w1)" using same_ids_table_ok [OF poll_evolves(1) [OF assms(1) Cons.prems(1) run]] Cons.prems(1) by simp
  with Cons poll_retrying [OF assms(1) Cons.prems(1) run Cons.prems(2) assms(4)] p run show ?case by simp
qed simp

theorem retrying_never_scheduled_witness:
  "\<exists>sc' w'. fold (\<lambda>(t, locked). poll memQueue (DEFAULT_CONFIG 1000 30000) t locked) [(5, {}), (99999, {})]
      (new_Scheduler, sample_world [(sample_job ''a'' [])\<lparr>j_status := RETRYING\<rparr>]) = (sc', w') \<and>
    q_getJob memQueue ''job_a'' (s_queue w') = None"
proof -
  let ?w = "sample_world [(sample_job ''a'' [])\<lparr>j_status := RETRYING\<rparr>]"
  obtain sc' w' where run: "fold (\<lambda>(t, locked). poll memQueue (DEFAULT_CONFIG 1000 30000) t locked) [(5, {}), (99999, {})]
      (new_Scheduler, ?w) = (sc', w')" by fastforce
  have "table_ok (s_jobs ?w)" "findById ''a'' (s_jobs ?w) = Some ((sample_job ''a'' [])\<lparr>j_status := RETRYING\<rparr>)"
    "q_getJob memQueue (bullJobId ''a'') (s_queue ?w) = None"
    by (simp_all add: sample_world_def table_ok_def sample_job_def memQueue_def)
  with retrying_never_scheduled [OF memQueue_ok this(1,2) _ run] run show ?thesis by (simp add: bullJobId_def)
qed

text \<open>
  A run may take up to the timeout of its job, five minutes unless the submission says
  otherwise, but a poll takes every run of two minutes for stalled: between the two a job
  that is being executed is PENDING again and can be claimed a second time.
\<close>

theorem healthy_run_recovered:
  assumes B: "bull_ok B" and ok: "table_ok (s_jobs w)"
    and j: "findById i (s_jobs w) = Some j" "j_status j = RUNNING" "j_startedAt j = Some t1" "j_retryCount j < j_maxRetries j"
    and now: "t1 + 120000 \<le> now" "now < t1 + j_timeoutMs j"
    and run: "poll B (DEFAULT_CONFIG pollMs ttlMs) now locked (sc, w) = (sc', w')"
  shows "findById i (s_jobs w') = Some (j\<lparr>j_status := PENDING, j_updatedAt := now\<rparr>)"
proof -
  let ?cfg = "DEFAULT_CONFIG pollMs ttlMs"
  obtain w1 where s: "scheduleReadyJobs B ?cfg now locked (sc, w) = (sc', w1)" and w': "w' = recoverStalledJobs ?cfg now w1"
    using run by (auto simp: poll_def Let_def split: prod.splits)
  have ok1: "table_ok (s_jobs w1)" using same_ids_table_ok [OF scheduleReadyJobs_rows(1) [OF B ok s]] ok by simp
  have "findById i (s_jobs w1) = Some j" using scheduleReadyJobs_rows(2) [OF B ok s j(1)] j(2) by auto
  with j now(1) show ?thesis
    by (simp add: w' findById_recover [OF ok1] stalled_def DEFAULT_CONFIG_def recoveryUpdate_def update_record_defs)
qed

theorem healthy_run_recovered_witness:
  "\<exists>sc' w'. poll memQueue (DEFAULT_CONFIG 1000 30000) 150000 {} (new_Scheduler,
      sample_world [(newRow ''a'' 0 (sample_dto None))\<lparr>j_status := RUNNING, j_startedAt := Some 9\<rparr>]) = (sc', w') \<and>
    (\<exists>j. findById ''a'' (s_jobs w') = Some j \<and> j_status j = PENDING \<and> claimable 150000 j)"
proof -
  let ?j = "(newRow ''a'' 0 (sample_dto None))\<lparr>j_status := RUNNING, j_startedAt := Some 9\<rparr>"
  let ?w = "sample_world [?j]"
  obtain sc' w' where run: "poll memQueue (DEFAULT_CONFIG 1000 30000) 150000 {} (new_Scheduler, ?w) = (sc', w')" by fastforce
  have "table_ok (s_jobs ?w)" "findById ''a'' (s_jobs ?w) = Some ?j" "j_status ?j = RUNNING" "j_startedAt ?j = Some 9"
    "j_retryCount ?j < j_maxRetries ?j" "(9 :: time) + 120000 \<le> 150000" "150000 < 9 + j_timeoutMs ?j"
    by (simp_all add: sample_world_def table_ok_def newRow_def sample_dto_def)
  from healthy_run_recovered [OF memQueue_ok this run] run show ?thesis
    by (auto simp: claimable_def newRow_def sample_dto_def)
qed

end
