(* ===== verification/Autoscaling.thy ===== *)
theory Autoscaling
  imports WorkerRepository Queues
begin

text \<open>
  \<^verbatim>\<open>src/workers/WorkerPool.ts\<close>: the pool of in-process workers and its autoscaling. A worker
  instance is the number of its creation; the constructor has no effect outside the
  instance. \<^verbatim>\<open>autoScale\<close> is one firing of its timer.
\<close>

section \<open>WorkerPool.ts\<close>

record WorkerPoolConfig =
  minWorkers :: int
  maxWorkers :: int
  scaleCheckIntervalMs :: int
  scaleUpThreshold :: number
  scaleDownThreshold :: number

definition DEFAULT_POOL_CONFIG :: WorkerPoolConfig where
  "DEFAULT_POOL_CONFIG = \<lparr>minWorkers = 1, maxWorkers = 10, scaleCheckIntervalMs = 15000,
     scaleUpThreshold = 20, scaleDownThreshold = 5\<rparr>"

record WorkerPool =
  wp_workers :: "nat list"
  wp_created :: nat
  wp_scaleInterval :: bool

definition new_WorkerPool :: WorkerPool where
  "new_WorkerPool = \<lparr>wp_workers = [], wp_created = 0, wp_scaleInterval = False\<rparr>"

definition addWorker :: "WorkerPool \<Rightarrow> WorkerPool" where
  "addWorker p = p\<lparr>wp_workers := wp_workers p @ [wp_created p], wp_created := wp_created p + 1\<rparr>"

text \<open>The loop \<^verbatim>\<open>for (let i = 0; i < n; i++) await this.addWorker()\<close>.\<close>

definition addWorkers :: "int \<Rightarrow> WorkerPool \<Rightarrow> WorkerPool" where
  "addWorkers n p = (addWorker ^^ nat n) p"

definition poolSize :: "WorkerPool \<Rightarrow> int" where
  "poolSize p = int (length (wp_workers p))"

definition startPool :: "WorkerPoolConfig \<Rightarrow> WorkerPool \<Rightarrow> WorkerPool" where
  "startPool cfg p = (addWorkers (minWorkers cfg) p)\<lparr>wp_scaleInterval := True\<rparr>"

definition stopPool :: "WorkerPool \<Rightarrow> WorkerPool" where
  "stopPool p = p\<lparr>wp_workers := [], wp_scaleInterval := False\<rparr>"

definition jobsPerWorker :: "nat \<Rightarrow> int \<Rightarrow> number" where
  "jobsPerWorker depth current = (if current > 0 then of_nat depth / of_int current else of_nat depth)"

text \<open>A quotient by a zero threshold is infinite, so that the minimum is its other argument.\<close>

definition toAdd :: "WorkerPoolConfig \<Rightarrow> nat \<Rightarrow> int \<Rightarrow> int" where
  "toAdd cfg depth current =
     (if scaleUpThreshold cfg = 0 then maxWorkers cfg - current
      else min (\<lceil>jobsPerWorker depth current / scaleUpThreshold cfg\<rceil> - current) (maxWorkers cfg - current))"

text \<open>\<^verbatim>\<open>workers.splice(-n, n)\<close> for a positive \<open>n\<close>.\<close>

definition spliceEnd :: "int \<Rightarrow> 'a list \<Rightarrow> 'a list" where
  "spliceEnd n xs = take (length xs - nat n) xs"

definition scale :: "WorkerPoolConfig \<Rightarrow> nat \<Rightarrow> WorkerPool \<Rightarrow> WorkerPool" where
  "scale cfg depth p =
     (let current = poolSize p; perWorker = jobsPerWorker depth current
      in if perWorker > scaleUpThreshold cfg \<and> current < maxWorkers cfg
         then addWorkers (toAdd cfg depth current) p
         else if perWorker < scaleDownThreshold cfg \<and> current > minWorkers cfg
         then p\<lparr>wp_workers := spliceEnd (current - minWorkers cfg) (wp_workers p)\<rparr>
         else p)"

text \<open>The load of a worker row without capacity is not a finite number; rows have one.\<close>

definition autoScale ::
  "(QueueJobPayload, 'q) BullQueue \<Rightarrow> WorkerPoolConfig \<Rightarrow> 'q \<Rightarrow> workers \<Rightarrow> WorkerPool \<times> metrics \<Rightarrow>
   WorkerPool \<times> metrics" where
  "autoScale B cfg q ws st =
     (let depth = getQueueDepth B q
      in (scale cfg depth (fst st),
          setQueueDepth ''main'' (of_nat depth)
            (fold (\<lambda>w. setWorkerLoad (w_id w) (of_int (w_currentJobCount w) / of_int (w_maxConcurrency w)))
               (findAll (Some [ONLINE, BUSY]) ws) (snd st))))"

section \<open>Lemmas\<close>

lemma addWorkers_0 [simp]: "n \<le> 0 \<Longrightarrow> addWorkers n p = p"
  by (simp add: addWorkers_def)

lemma poolSize_addWorkers [simp]: "poolSize (addWorkers n p) = poolSize p + max 0 n"
proof -
  have "length (wp_workers ((addWorker ^^ k) p)) = length (wp_workers p) + k" for k
    by (induction k) (simp_all add: addWorker_def)
  then show ?thesis by (simp add: poolSize_def addWorkers_def)
qed

lemma poolSize_scale:
  "poolSize (scale cfg depth p) =
     (if jobsPerWorker depth (poolSize p) > scaleUpThreshold cfg \<and> poolSize p < maxWorkers cfg
      then poolSize p + max 0 (toAdd cfg depth (poolSize p))
      else if jobsPerWorker depth (poolSize p) < scaleDownThreshold cfg \<and> poolSize p > minWorkers cfg
      then max 0 (minWorkers cfg) else poolSize p)"
  by (auto simp: scale_def Let_def) (auto simp: poolSize_def spliceEnd_def)

inductive pool_reach :: "WorkerPoolConfig \<Rightarrow> WorkerPool \<Rightarrow> bool" for cfg where
  started: "pool_reach cfg (startPool cfg new_WorkerPool)"
| tick: "pool_reach cfg p \<Longrightarrow> pool_reach cfg (scale cfg depth p)"

section \<open>Properties\<close>



end
