(* ===== verification/Election.thy ===== *)
theory Election
  imports DistributedLock
begin

text \<open>
  \<^verbatim>\<open>src/distributed/LeaderElection.ts\<close>: one instance that campaigns for a lock, as a state
  machine. A campaign awaits a reply, and the instance can be stopped meanwhile, so it is two steps:
  \<open>campaign\<close> up to the request and \<open>campaignReply\<close> from the reply on. The other
  awaits in the class end in code that looks at nothing but the lock map.
\<close>

section \<open>LeaderElection.ts\<close>

datatype LeaderRole = LEADER | FOLLOWER | CANDIDATE

datatype election_event = LeaderAcquired id | LeaderLost id | Follower id

record Election =
  el_role :: LeaderRole
  el_lockKey :: string
  el_ttlMs :: int
  el_campaignIntervalMs :: int
  el_renewalIntervalMs :: int
  el_instanceId :: id
  el_isRunning :: bool
  el_campaignTimer :: bool
  el_renewalTimer :: bool
  el_campaigning :: bool
  el_pause :: bool
  el_emitted :: "election_event list"

text \<open>\<open>el_campaigning\<close> and \<open>el_pause\<close> are the pending awaits: of the lock, and of \<^verbatim>\<open>sleep(2000)\<close>.\<close>

definition new_Election :: "string option \<Rightarrow> int option \<Rightarrow> id option \<Rightarrow> id \<Rightarrow> Election" where
  "new_Election key ttl iid randomId =
     (let ttlMs = nullish ttl 10000
      in \<lparr>el_role = FOLLOWER, el_lockKey = nullish key ''scheduler:leader'', el_ttlMs = ttlMs,
          el_campaignIntervalMs = \<lfloor>of_int ttlMs * (8 / 10 :: number)\<rfloor>,
          el_renewalIntervalMs = \<lfloor>of_int ttlMs * (5 / 10 :: number)\<rfloor>,
          el_instanceId = nullish iid (''instance_'' @ randomId),
          el_isRunning = False, el_campaignTimer = False, el_renewalTimer = False, el_campaigning = False,
          el_pause = False, el_emitted = []\<rparr>)"

definition campaign :: "Election \<Rightarrow> Election" where
  "campaign e = (if \<not> el_isRunning e then e else e\<lparr>el_role := CANDIDATE, el_campaigning := True\<rparr>)"

definition startElection :: "Election \<Rightarrow> Election" where
  "startElection e = campaign (e\<lparr>el_isRunning := True\<rparr>)"

definition becomeLeader :: "Election \<Rightarrow> Election" where
  "becomeLeader e = e\<lparr>el_role := LEADER, el_emitted := el_emitted e @ [LeaderAcquired (el_instanceId e)],
     el_renewalTimer := True\<rparr>"

definition becomeFollower :: "Election \<Rightarrow> Election" where
  "becomeFollower e =
     (if el_role e \<noteq> FOLLOWER
      then e\<lparr>el_role := FOLLOWER, el_emitted := el_emitted e @ [Follower (el_instanceId e)]\<rparr> else e)"

definition campaignReply ::
  "'r Redis \<Rightarrow> string \<Rightarrow> string \<Rightarrow> time \<Rightarrow> time \<Rightarrow> Election \<times> locks \<times> 'r \<Rightarrow> Election \<times> locks \<times> 'r" where
  "campaignReply R prefix token srv cli st =
     (let e = (fst st)\<lparr>el_campaigning := False\<rparr>
      in case tryAcquire R prefix token srv cli (el_lockKey e) (el_ttlMs e) (snd st) of
           Inr (True, ls) \<Rightarrow> (becomeLeader e, ls)
         | Inr (False, ls) \<Rightarrow> ((becomeFollower e)\<lparr>el_campaignTimer := True\<rparr>, ls)
         | Inl err \<Rightarrow> (e\<lparr>el_role := FOLLOWER, el_campaignTimer := True\<rparr>, snd st))"

text \<open>The campaign timer fires, and the pause after a lost lock ends: both campaign.\<close>

definition campaignTick :: "Election \<Rightarrow> Election" where
  "campaignTick e = campaign (e\<lparr>el_campaignTimer := False\<rparr>)"

definition pauseOver :: "Election \<Rightarrow> Election" where
  "pauseOver e = campaign (e\<lparr>el_pause := False\<rparr>)"

text \<open>The renewal timer fires. An error of \<^verbatim>\<open>renew\<close> is not caught: nothing changes.\<close>

definition renewTick :: "'r Redis \<Rightarrow> string \<Rightarrow> time \<Rightarrow> time \<Rightarrow> Election \<times> locks \<times> 'r \<Rightarrow> Election \<times> locks \<times> 'r" where
  "renewTick R prefix srv cli st =
     (case renew R prefix srv cli (el_lockKey (fst st)) (el_ttlMs (fst st)) (snd st) of
        Inl err \<Rightarrow> st
      | Inr (True, ls) \<Rightarrow> (fst st, ls)
      | Inr (False, ls) \<Rightarrow>
          ((fst st)\<lparr>el_renewalTimer := False, el_role := FOLLOWER,
             el_emitted := el_emitted (fst st) @ [LeaderLost (el_instanceId (fst st))], el_pause := True\<rparr>, ls))"

text \<open>\<^verbatim>\<open>stop\<close>; an error of the release leaves the role as it is.\<close>

definition stopElection ::
  "'r Redis \<Rightarrow> string \<Rightarrow> time \<Rightarrow> Election \<times> locks \<times> 'r \<Rightarrow> string option \<times> Election \<times> locks \<times> 'r" where
  "stopElection R prefix srv st =
     (let e = (fst st)\<lparr>el_isRunning := False, el_campaignTimer := False, el_renewalTimer := False\<rparr>
      in if el_role e = LEADER
         then (case release R prefix srv (el_lockKey e) (snd st) of
                 Inl err \<Rightarrow> (Some err, e, snd st)
               | Inr ls \<Rightarrow> (None, e\<lparr>el_role := FOLLOWER\<rparr>, ls))
         else (None, e, snd st))"

definition isLeader :: "Election \<Rightarrow> bool" where
  "isLeader e \<longleftrightarrow> el_role e = LEADER"

section \<open>The states of an instance\<close>

text \<open>
  An instance is started once; then its timers fire, its replies arrive and it is stopped in
  any order, while other processes change the server (\<open>others\<close>).
\<close>

inductive el_reach :: "'r Redis \<Rightarrow> string \<Rightarrow> Election \<Rightarrow> Election \<times> locks \<times> 'r \<Rightarrow> bool" for R prefix e0 where
  start: "el_reach R prefix e0 (startElection e0, [], r)"
| reply: "el_reach R prefix e0 (e, lr) \<Longrightarrow> el_campaigning e \<Longrightarrow>
    el_reach R prefix e0 (campaignReply R prefix token srv cli (e, lr))"
| timer: "el_reach R prefix e0 (e, lr) \<Longrightarrow> el_campaignTimer e \<Longrightarrow> el_reach R prefix e0 (campaignTick e, lr)"
| pause: "el_reach R prefix e0 (e, lr) \<Longrightarrow> el_pause e \<Longrightarrow> el_reach R prefix e0 (pauseOver e, lr)"
| renewal: "el_reach R prefix e0 (e, lr) \<Longrightarrow> el_renewalTimer e \<Longrightarrow>
    el_reach R prefix e0 (renewTick R prefix srv cli (e, lr))"
| stop: "el_reach R prefix e0 (e, lr) \<Longrightarrow> el_reach R prefix e0 (snd (stopElection R prefix srv (e, lr)))"
| others: "el_reach R prefix e0 (e, ls, r) \<Longrightarrow> el_reach R prefix e0 (e, ls, r')"

text \<open>
  What is pending in each role. At most one campaign is under way or planned, and while the
  instance runs something is.
\<close>

definition election_inv :: "Election \<Rightarrow> bool" where
  "election_inv e \<longleftrightarrow>
     (case el_role e of
        CANDIDATE \<Rightarrow> el_campaigning e \<and> \<not> el_renewalTimer e \<and> \<not> el_campaignTimer e \<and> \<not> el_pause e
      | LEADER \<Rightarrow> \<not> el_campaigning e \<and> \<not> el_campaignTimer e \<and> \<not> el_pause e \<and> (el_isRunning e \<longrightarrow> el_renewalTimer e)
      | FOLLOWER \<Rightarrow> \<not> el_campaigning e \<and> \<not> el_renewalTimer e \<and> \<not> (el_campaignTimer e \<and> el_pause e) \<and>
          (el_isRunning e \<longrightarrow> el_campaignTimer e \<or> el_pause e))"

lemmas election_defs = campaign_def becomeLeader_def becomeFollower_def campaignTick_def pauseOver_def
  election_inv_def

lemma election_inv_reply:
  "election_inv e \<Longrightarrow> el_campaigning e \<Longrightarrow> election_inv (fst (campaignReply R prefix token srv cli (e, lr)))"
  by (auto simp: campaignReply_def Let_def election_defs split: sum.splits bool.splits LeaderRole.splits)

lemma election_inv_renewal:
  "election_inv e \<Longrightarrow> el_renewalTimer e \<Longrightarrow> election_inv (fst (renewTick R prefix srv cli (e, lr)))"
  by (auto simp: renewTick_def election_defs split: sum.splits bool.splits LeaderRole.splits)

lemma election_inv_stop:
  "election_inv e \<Longrightarrow> election_inv (fst (snd (stopElection R prefix srv (e, lr))))"
  by (auto simp: stopElection_def Let_def election_defs split: sum.splits LeaderRole.splits)

lemma el_reach_inv:
  assumes "el_reach R prefix (new_Election key ttl iid rid) st"
  shows "election_inv (fst st)"
  using assms
proof induction
  case (start r)
  then show ?case by (simp add: startElection_def new_Election_def Let_def election_defs)
next
  case (timer e lr)
  then show ?case by (auto simp: election_defs split: LeaderRole.splits if_splits)
next
  case (pause e lr)
  then show ?case by (auto simp: election_defs split: LeaderRole.splits if_splits)
qed (simp_all add: election_inv_reply election_inv_renewal election_inv_stop)

section \<open>Properties\<close>

text \<open>
  C30. A running instance is never stuck: in every reachable state it is the leader
  with its renewal timer set, or awaits the reply to a campaign, or has its next campaign
  planned. A campaign whose reply finds the lock free makes it the leader with
  the lock, and a renewal that finds the lock in other hands makes it step down.
\<close>

theorem election_never_stuck:
  assumes R: "redis_ok R" and reach: "el_reach R prefix (new_Election key ttl iid rid) (e, ls, r)"
  shows "(el_isRunning e \<longrightarrow> isLeader e \<and> el_renewalTimer e \<or> el_campaigning e \<or> el_campaignTimer e \<or> el_pause e) \<and>
    (el_campaigning e \<and> 0 < el_ttlMs e \<and> r_down R srv r = None \<and>
       r_get R srv (lockKey prefix (el_lockKey e)) r = None \<longrightarrow>
       (case campaignReply R prefix token srv cli (e, ls, r) of (e', ls', r') \<Rightarrow>
          isLeader e' \<and> el_renewalTimer e' \<and> map_of ls' (el_lockKey e) = Some \<lparr>le_token = token, le_expiresAt = cli + el_ttlMs e\<rparr>)) \<and>
    (r_down R srv r = None \<and> 0 < el_ttlMs e \<and>
       (\<forall>en. map_of ls (el_lockKey e) = Some en \<longrightarrow> r_get R srv (lockKey prefix (el_lockKey e)) r \<noteq> Some (le_token en)) \<longrightarrow>
       \<not> isLeader (fst (renewTick R prefix srv cli (e, ls, r))))"
proof (intro conjI impI)
  assume "el_isRunning e"
  with el_reach_inv [OF reach] show "isLeader e \<and> el_renewalTimer e \<or> el_campaigning e \<or> el_campaignTimer e \<or> el_pause e"
    by (auto simp: election_inv_def isLeader_def split: LeaderRole.splits)
next
  assume a: "el_campaigning e \<and> 0 < el_ttlMs e \<and> r_down R srv r = None \<and>
    r_get R srv (lockKey prefix (el_lockKey e)) r = None"
  then have "fst (r_setNX R srv (lockKey prefix (el_lockKey e)) token (el_ttlMs e) r)"
    by (simp add: redis_setNX [OF R])
  with a show "case campaignReply R prefix token srv cli (e, ls, r) of (e', ls', r') \<Rightarrow>
      isLeader e' \<and> el_renewalTimer e' \<and> map_of ls' (el_lockKey e) = Some \<lparr>le_token = token, le_expiresAt = cli + el_ttlMs e\<rparr>"
    by (simp add: campaignReply_def tryAcquire_def Let_def becomeLeader_def isLeader_def case_prod_unfold)
next
  assume a: "r_down R srv r = None \<and> 0 < el_ttlMs e \<and>
    (\<forall>en. map_of ls (el_lockKey e) = Some en \<longrightarrow> r_get R srv (lockKey prefix (el_lockKey e)) r \<noteq> Some (le_token en))"
  then show "\<not> isLeader (fst (renewTick R prefix srv cli (e, ls, r)))"
    by (auto simp: renewTick_def renew_def Let_def isLeader_def renewScript_def split: option.splits)
qed

theorem election_never_stuck_witness:
  "let e = startElection (new_Election None None None ''x'')
   in case campaignReply memRedis ''btos:'' ''t'' 5 6 (e, [], []) of (e', ls, r) \<Rightarrow> isLeader e'"
proof -
  let ?e = "startElection (new_Election None None None ''x'')"
  have reach: "el_reach memRedis ''btos:'' (new_Election None None None ''x'') (?e, [], [])" by (rule el_reach.start)
  have e: "el_campaigning ?e" "0 < el_ttlMs ?e" "r_down memRedis 5 [] = None"
    "r_get memRedis 5 (lockKey ''btos:'' (el_lockKey ?e)) [] = None"
    by (simp_all add: startElection_def new_Election_def Let_def campaign_def memRedis_def memGet_def)
  then show ?thesis
    using election_never_stuck [OF memRedis_ok reach, of 5 "''t''" 6] by (auto simp: Let_def)
qed

text \<open>
  Stopping is not final when a campaign is under way: if its reply then brings the
  lock, the stopped instance becomes the leader and its renewal timer is set.
\<close>

theorem election_stop_race:
  assumes R: "redis_ok R" and up: "\<And>t r. r_down R t r = None" and ttl: "0 < nullish ttl 10000"
    and free: "r_get R srv (lockKey prefix (nullish key ''scheduler:leader'')) r = None"
  shows "\<exists>e ls r'. el_reach R prefix (new_Election key ttl iid rid) (e, ls, r') \<and>
    \<not> el_isRunning e \<and> isLeader e \<and> el_renewalTimer e"
proof -
  let ?e0 = "new_Election key ttl iid rid"
  let ?st = "snd (stopElection R prefix srv (startElection ?e0, [], r))"
  have st: "fst ?st = (startElection ?e0)\<lparr>el_isRunning := False, el_campaignTimer := False, el_renewalTimer := False\<rparr>"
    "snd ?st = ([], r)" "el_campaigning (fst ?st)" "\<not> el_isRunning (fst ?st)"
    by (simp_all add: stopElection_def startElection_def new_Election_def campaign_def Let_def)
  have "el_reach R prefix ?e0 ?st" by (intro el_reach.stop el_reach.start)
  then have reach: "el_reach R prefix ?e0 (campaignReply R prefix token srv cli ?st)" for token cli
    using st(3) el_reach.reply by (metis prod.collapse)
  have e: "el_lockKey (fst ?st) = nullish key ''scheduler:leader''" "el_ttlMs (fst ?st) = nullish ttl 10000"
    by (simp_all add: stopElection_def startElection_def new_Election_def campaign_def Let_def)
  have "fst (r_setNX R srv (lockKey prefix (nullish key ''scheduler:leader'')) token (nullish ttl 10000) r)" for token
    using free by (simp add: redis_setNX [OF R ttl])
  then have "fst (campaignReply R prefix token srv cli ?st) = becomeLeader ((fst ?st)\<lparr>el_campaigning := False\<rparr>)" for token cli
    by (simp add: campaignReply_def tryAcquire_def Let_def up e st(2) case_prod_unfold)
  then have "\<not> el_isRunning (fst (campaignReply R prefix token srv cli ?st)) \<and>
      isLeader (fst (campaignReply R prefix token srv cli ?st)) \<and>
      el_renewalTimer (fst (campaignReply R prefix token srv cli ?st))" for token cli
    using st(4) by (simp add: becomeLeader_def isLeader_def)
  then show ?thesis using reach by (metis prod.collapse)
qed

theorem election_stop_race_witness:
  "\<exists>e ls r'. el_reach memRedis ''btos:'' (new_Election None None None ''x'') (e, ls, r') \<and>
    \<not> el_isRunning e \<and> isLeader e \<and> el_renewalTimer e"
  using election_stop_race [OF memRedis_ok, of None 0 "''btos:''" None "[]" None "''x''"]
  by (simp add: memRedis_def memGet_def)

end
