(* ===== verification/NodeRegister.thy ===== *)
theory NodeRegister
  imports Models
begin

text \<open>
  \<^verbatim>\<open>src/distributed/NodeRegistry.ts\<close>: the register of the running nodes. The commands the registry sends to Redis, over an arbitrary type of server states. The
  text of a value is written by \<^verbatim>\<open>JSON.stringify\<close> and read by \<^verbatim>\<open>JSON.parse\<close>; a value here is
  the JSON value between the two.
\<close>

section \<open>Redis\<close>

record 'r NodeRedis =
  nr_down :: "time \<Rightarrow> 'r \<Rightarrow> string option"
  nr_set :: "time \<Rightarrow> string \<Rightarrow> json \<Rightarrow> int \<Rightarrow> 'r \<Rightarrow> 'r"
  nr_keys :: "time \<Rightarrow> string \<Rightarrow> 'r \<Rightarrow> string list"
  nr_mget :: "time \<Rightarrow> string list \<Rightarrow> 'r \<Rightarrow> json option list"
  nr_del :: "time \<Rightarrow> string \<Rightarrow> 'r \<Rightarrow> 'r"
  nr_entry :: "string \<Rightarrow> 'r \<Rightarrow> (json \<times> time) option"

definition nr_live :: "'r NodeRedis \<Rightarrow> time \<Rightarrow> string \<Rightarrow> 'r \<Rightarrow> json option" where
  "nr_live N now k r = (case nr_entry N k r of None \<Rightarrow> None | Some (v, e) \<Rightarrow> if now < e then Some v else None)"

text \<open>
  \<^verbatim>\<open>SET key value EX s\<close>, \<^verbatim>\<open>KEYS prefix*\<close> (each live key once), \<^verbatim>\<open>MGET\<close> and \<^verbatim>\<open>DEL\<close>. The
  prefix has no character that is special in a pattern.
\<close>

definition node_redis_ok :: "'r NodeRedis \<Rightarrow> bool" where
  "node_redis_ok N \<longleftrightarrow>
     (\<forall>now k v s r k'. nr_entry N k' (nr_set N now k v s r) = (if k' = k then Some (v, now + s * 1000) else nr_entry N k' r)) \<and>
     (\<forall>now p r. distinct (nr_keys N now p r) \<and>
        set (nr_keys N now p r) = {k. (\<exists>x. k = p @ x) \<and> nr_live N now k r \<noteq> None}) \<and>
     (\<forall>now ks r. nr_mget N now ks r = map (\<lambda>k. nr_live N now k r) ks) \<and>
     (\<forall>now k r k'. nr_entry N k' (nr_del N now k r) = (if k' = k then None else nr_entry N k' r))"

section \<open>NodeRegistry.ts\<close>

datatype NodeRole = api | scheduler | worker

record NodeInfo =
  ni_instanceId :: id
  ni_role :: NodeRole
  ni_hostname :: string
  ni_ipAddress :: string
  ni_pid :: int
  ni_version :: string
  ni_startedAt :: string
  ni_lastHeartbeatAt :: string
  ni_isLeader :: bool
  ni_metadata :: obj

fun roleName :: "NodeRole \<Rightarrow> string" where
  "roleName api = ''api''"
| "roleName scheduler = ''scheduler''"
| "roleName worker = ''worker''"

text \<open>The value of \<^verbatim>\<open>JSON.stringify(this.nodeInfo)\<close>: the properties in the order of the literal.\<close>

definition nodeJson :: "NodeInfo \<Rightarrow> json" where
  "nodeJson n = JObj [(''instanceId'', JStr (ni_instanceId n)), (''role'', JStr (roleName (ni_role n))),
     (''hostname'', JStr (ni_hostname n)), (''ipAddress'', JStr (ni_ipAddress n)), (''pid'', JNum (of_int (ni_pid n))),
     (''version'', JStr (ni_version n)), (''startedAt'', JStr (ni_startedAt n)),
     (''lastHeartbeatAt'', JStr (ni_lastHeartbeatAt n)), (''isLeader'', JBool (ni_isLeader n)),
     (''metadata'', JObj (ni_metadata n))]"

record NodeRegistry =
  rg_instanceId :: id
  rg_heartbeatTimer :: bool
  rg_nodeInfo :: "NodeInfo option"

definition NODE_TTL_SECONDS :: int where
  "NODE_TTL_SECONDS = 30"

definition heartbeatMs :: int where
  "heartbeatMs = NODE_TTL_SECONDS * 400"

definition nodeKeyPrefix :: "string \<Rightarrow> string" where
  "nodeKeyPrefix keyPrefix = keyPrefix @ ''nodes:''"

definition new_NodeRegistry :: "string \<Rightarrow> nat \<Rightarrow> NodeRegistry" where
  "new_NodeRegistry hostname pid =
     \<lparr>rg_instanceId = hostname @ ''_'' @ show_nat pid, rg_heartbeatTimer = False, rg_nodeInfo = None\<rparr>"

text \<open>The network interfaces of the host: the first external IPv4 address, else the loopback address.\<close>

definition getLocalIp :: "(string \<times> (string \<times> bool \<times> string) list) list \<Rightarrow> string" where
  "getLocalIp nets =
     (case List.find (\<lambda>(family, internal, address). family = ''IPv4'' \<and> \<not> internal) (concat (map snd nets)) of
        None \<Rightarrow> ''127.0.0.1'' | Some (family, internal, address) \<Rightarrow> address)"

record Host =
  ho_hostname :: string
  ho_nets :: "(string \<times> (string \<times> bool \<times> string) list) list"
  ho_pid :: int
  ho_version :: "string option"

definition register_node ::
  "'r NodeRedis \<Rightarrow> string \<Rightarrow> Host \<Rightarrow> string \<Rightarrow> time \<Rightarrow> NodeRole \<Rightarrow> bool \<Rightarrow> obj \<Rightarrow> NodeRegistry \<times> 'r \<Rightarrow>
   string option \<times> NodeRegistry \<times> 'r" where
  "register_node N prefix H stamp now role leader metadata st =
     (let g = fst st;
          info = \<lparr>ni_instanceId = rg_instanceId g, ni_role = role, ni_hostname = ho_hostname H,
            ni_ipAddress = getLocalIp (ho_nets H), ni_pid = ho_pid H, ni_version = nullish (ho_version H) ''1.0.0'',
            ni_startedAt = stamp, ni_lastHeartbeatAt = stamp, ni_isLeader = leader, ni_metadata = metadata\<rparr>;
          g' = g\<lparr>rg_nodeInfo := Some info\<rparr>
      in case nr_down N now (snd st) of
           Some err \<Rightarrow> (Some err, g', snd st)
         | None \<Rightarrow> (None, g'\<lparr>rg_heartbeatTimer := True\<rparr>,
             nr_set N now (nodeKeyPrefix prefix @ rg_instanceId g) (nodeJson info) NODE_TTL_SECONDS (snd st)))"

definition nodeHeartbeat :: "'r NodeRedis \<Rightarrow> string \<Rightarrow> string \<Rightarrow> time \<Rightarrow> NodeRegistry \<times> 'r \<Rightarrow> NodeRegistry \<times> 'r" where
  "nodeHeartbeat N prefix stamp now st =
     (case rg_nodeInfo (fst st) of
        None \<Rightarrow> st
      | Some info \<Rightarrow>
          (let info' = info\<lparr>ni_lastHeartbeatAt := stamp\<rparr>; g' = (fst st)\<lparr>rg_nodeInfo := Some info'\<rparr>
           in case nr_down N now (snd st) of
                Some err \<Rightarrow> (g', snd st)
              | None \<Rightarrow> (g', nr_set N now (nodeKeyPrefix prefix @ rg_instanceId g') (nodeJson info')
                  NODE_TTL_SECONDS (snd st))))"

definition updateLeaderStatus ::
  "'r NodeRedis \<Rightarrow> string \<Rightarrow> string \<Rightarrow> time \<Rightarrow> bool \<Rightarrow> NodeRegistry \<times> 'r \<Rightarrow> NodeRegistry \<times> 'r" where
  "updateLeaderStatus N prefix stamp now leader st =
     (case rg_nodeInfo (fst st) of
        None \<Rightarrow> st
      | Some info \<Rightarrow> nodeHeartbeat N prefix stamp now
          ((fst st)\<lparr>rg_nodeInfo := Some (info\<lparr>ni_isLeader := leader\<rparr>)\<rparr>, snd st))"

definition getAllNodes :: "'r NodeRedis \<Rightarrow> string \<Rightarrow> time \<Rightarrow> 'r \<Rightarrow> string + json list" where
  "getAllNodes N prefix now r =
     (case nr_down N now r of
        Some err \<Rightarrow> Inl err
      | None \<Rightarrow>
          (let ks = nr_keys N now (nodeKeyPrefix prefix) r
           in if length ks = 0 then Inr [] else Inr (List.map_filter id (nr_mget N now ks r))))"

definition deregister_node :: "'r NodeRedis \<Rightarrow> string \<Rightarrow> time \<Rightarrow> NodeRegistry \<times> 'r \<Rightarrow> string option \<times> NodeRegistry \<times> 'r" where
  "deregister_node N prefix now st =
     (let g = (fst st)\<lparr>rg_heartbeatTimer := False\<rparr>
      in case nr_down N now (snd st) of
           Some err \<Rightarrow> (Some err, g, snd st)
         | None \<Rightarrow> (None, g, nr_del N now (nodeKeyPrefix prefix @ rg_instanceId g) (snd st)))"

section \<open>A server that satisfies the assumptions\<close>

type_synonym node_mem = "(string \<times> json \<times> time) list"

definition memLive :: "time \<Rightarrow> string \<Rightarrow> node_mem \<Rightarrow> json option" where
  "memLive now k r = (case map_of r k of None \<Rightarrow> None | Some (v, e) \<Rightarrow> if now < e then Some v else None)"

definition memNodes :: "node_mem NodeRedis" where
  "memNodes =
     \<lparr>nr_down = (\<lambda>now r. None), nr_set = (\<lambda>now k v s r. AList.update k (v, now + s * 1000) r),
      nr_keys = (\<lambda>now p r. remdups (filter (\<lambda>k. take (length p) k = p \<and> memLive now k r \<noteq> None) (map fst r))),
      nr_mget = (\<lambda>now ks r. map (\<lambda>k. memLive now k r) ks), nr_del = (\<lambda>now k r. AList.delete k r),
      nr_entry = (\<lambda>k r. map_of r k)\<rparr>"

lemma memNodes_ok: "node_redis_ok memNodes"
proof -
  have live: "nr_live memNodes now k r = memLive now k r" for now k r
    by (simp add: nr_live_def memLive_def memNodes_def)
  have key: "k \<in> fst ` set r" if "memLive now k r = Some y" for now k r y
    using that by (auto simp: memLive_def split: option.splits dest!: map_of_SomeD) (metis fst_conv image_eqI)
  have "take (length p) k = p \<longleftrightarrow> (\<exists>x. k = p @ x)" for p k :: string
    by (metis append_eq_conv_conj append_take_drop_id)
  then show ?thesis unfolding node_redis_ok_def live by (auto simp: memNodes_def intro: key)
qed

section \<open>Lemmas\<close>

lemma nodeJson_inj [simp]: "nodeJson m = nodeJson n \<longleftrightarrow> m = n"
proof -
  have "roleName a = roleName b \<longleftrightarrow> a = b" for a b by (cases a; cases b) simp_all
  then show ?thesis by (cases m; cases n) (simp add: nodeJson_def)
qed

lemma getAllNodes_set:
  assumes "node_redis_ok N" "getAllNodes N prefix t r = Inr nodes"
  shows "set nodes = {v. \<exists>x. nr_live N t (nodeKeyPrefix prefix @ x) r = Some v}"
proof -
  let ?ks = "nr_keys N t (nodeKeyPrefix prefix) r"
  have ks: "set ?ks = {k. (\<exists>x. k = nodeKeyPrefix prefix @ x) \<and> nr_live N t k r \<noteq> None}"
    and mget: "nr_mget N t ?ks r = map (\<lambda>k. nr_live N t k r) ?ks"
    using assms(1) unfolding node_redis_ok_def by blast+
  have "set nodes = {v. \<exists>k \<in> set ?ks. nr_live N t k r = Some v}"
  proof -
    have "nodes = List.map_filter id (map (\<lambda>k. nr_live N t k r) ?ks)"
      using assms(2) mget by (auto simp: getAllNodes_def Let_def List.map_filter_def split: option.splits if_splits)
    then show ?thesis by (force simp: List.map_filter_def image_iff)
  qed
  then show ?thesis unfolding ks by auto
qed

lemma live_set:
  "node_redis_ok N \<Longrightarrow> nr_live N t k' (nr_set N now k v s r) =
     (if k' = k then if t < now + s * 1000 then Some v else None else nr_live N t k' r)"
  unfolding node_redis_ok_def nr_live_def by simp

lemma live_del:
  "node_redis_ok N \<Longrightarrow> nr_live N t k' (nr_del N now k r) = (if k' = k then None else nr_live N t k' r)"
  unfolding node_redis_ok_def nr_live_def by simp

abbreviation otherNodes :: "'r NodeRedis \<Rightarrow> string \<Rightarrow> id \<Rightarrow> time \<Rightarrow> 'r \<Rightarrow> json set" where
  "otherNodes N prefix i t r \<equiv> {v. \<exists>x. x \<noteq> i \<and> nr_live N t (nodeKeyPrefix prefix @ x) r = Some v}"

lemma nodes_after_set:
  assumes "node_redis_ok N" "getAllNodes N prefix t (nr_set N now (nodeKeyPrefix prefix @ i) v s r) = Inr nodes"
  shows "set nodes = otherNodes N prefix i t r \<union> (if t < now + s * 1000 then {v} else {})"
  using assms by (auto simp: getAllNodes_set live_set split: if_splits)

section \<open>Property\<close>

text \<open>
  What a node registers is what the others read: the listing gives, beside the other
  live nodes, exactly the information registered (distinct records have distinct
  encodings) until thirty seconds after the registration or the last heartbeat, and no
  longer; after deregistration it is gone; and heartbeats come more often than that.
\<close>

theorem registry_roundtrip:
  assumes N: "node_redis_ok N" and reg: "register_node N prefix H stamp now role leader md (g, r) = (None, g', r')"
  shows "\<exists>info. rg_nodeInfo g' = Some info \<and> ni_role info = role \<and> ni_isLeader info = leader \<and>
    (\<forall>t nodes. getAllNodes N prefix t r' = Inr nodes \<longrightarrow>
       set nodes = otherNodes N prefix (rg_instanceId g) t r \<union> (if t < now + 30000 then {nodeJson info} else {})) \<and>
    (\<forall>stamp2 now2 t nodes. nr_down N now2 r' = None \<and>
       getAllNodes N prefix t (snd (nodeHeartbeat N prefix stamp2 now2 (g', r'))) = Inr nodes \<longrightarrow>
       set nodes = otherNodes N prefix (rg_instanceId g) t r \<union>
         (if t < now2 + 30000 then {nodeJson (info\<lparr>ni_lastHeartbeatAt := stamp2\<rparr>)} else {})) \<and>
    (\<forall>now2 t nodes g2 r2. deregister_node N prefix now2 (g', r') = (None, g2, r2) \<and> getAllNodes N prefix t r2 = Inr nodes \<longrightarrow>
       set nodes = otherNodes N prefix (rg_instanceId g) t r) \<and>
    heartbeatMs < 30000"
proof -
  obtain info where info: "rg_nodeInfo g' = Some info" "ni_role info = role" "ni_isLeader info = leader"
    and g': "rg_instanceId g' = rg_instanceId g"
    and r': "r' = nr_set N now (nodeKeyPrefix prefix @ rg_instanceId g) (nodeJson info) 30 r"
    using reg by (auto simp: register_node_def Let_def NODE_TTL_SECONDS_def split: option.splits)
  have others: "otherNodes N prefix (rg_instanceId g) t r' = otherNodes N prefix (rg_instanceId g) t r" for t
    unfolding r' by (auto simp: live_set [OF N])
  have hb: "snd (nodeHeartbeat N prefix stamp2 now2 (g', r')) =
      nr_set N now2 (nodeKeyPrefix prefix @ rg_instanceId g) (nodeJson (info\<lparr>ni_lastHeartbeatAt := stamp2\<rparr>)) 30 r'"
    if "nr_down N now2 r' = None" for stamp2 now2
    using that info g' by (simp add: nodeHeartbeat_def Let_def NODE_TTL_SECONDS_def)
  have del: "r2 = nr_del N now2 (nodeKeyPrefix prefix @ rg_instanceId g) r'"
    if "deregister_node N prefix now2 (g', r') = (None, g2, r2)" for now2 g2 r2
    using that g' by (auto simp: deregister_node_def Let_def split: option.splits)
  have "set nodes = otherNodes N prefix (rg_instanceId g) t r \<union> (if t < now + 30000 then {nodeJson info} else {})"
    if "getAllNodes N prefix t r' = Inr nodes" for t nodes
    using nodes_after_set [OF N that [unfolded r']] by simp
  moreover have "set nodes = otherNodes N prefix (rg_instanceId g) t r \<union>
      (if t < now2 + 30000 then {nodeJson (info\<lparr>ni_lastHeartbeatAt := stamp2\<rparr>)} else {})"
    if "nr_down N now2 r' = None" "getAllNodes N prefix t (snd (nodeHeartbeat N prefix stamp2 now2 (g', r'))) = Inr nodes"
    for stamp2 now2 t nodes
    using nodes_after_set [OF N that(2) [unfolded hb [OF that(1)]]] by (simp add: others)
  moreover have "set nodes = otherNodes N prefix (rg_instanceId g) t r"
    if "deregister_node N prefix now2 (g', r') = (None, g2, r2)" "getAllNodes N prefix t r2 = Inr nodes" for now2 t nodes g2 r2
    using getAllNodes_set [OF N that(2)] others [of t] by (auto simp: del [OF that(1)] live_del [OF N])
  ultimately show ?thesis using info by (auto simp: heartbeatMs_def NODE_TTL_SECONDS_def)
qed

definition sample_host :: Host where
  "sample_host = \<lparr>ho_hostname = ''h'', ho_nets = [(''eth0'', [(''IPv4'', False, ''10.0.0.1'')])], ho_pid = 7, ho_version = None\<rparr>"

theorem registry_roundtrip_witness:
  "\<exists>g' r' nodes info. register_node memNodes ''btos:'' sample_host ''s'' 0 api False [] (new_NodeRegistry ''h'' 7, []) = (None, g', r') \<and>
     rg_nodeInfo g' = Some info \<and> getAllNodes memNodes ''btos:'' 10 r' = Inr nodes \<and> nodeJson info \<in> set nodes"
proof -
  have down: "nr_down memNodes t r = None" for t r by (simp add: memNodes_def)
  obtain g' r' where reg: "register_node memNodes ''btos:'' sample_host ''s'' 0 api False [] (new_NodeRegistry ''h'' 7, []) = (None, g', r')"
    by (simp add: register_node_def Let_def down)
  obtain nodes where "getAllNodes memNodes ''btos:'' 10 r' = Inr nodes"
    by (cases "getAllNodes memNodes ''btos:'' 10 r'") (auto simp: getAllNodes_def Let_def down split: if_splits)
  with registry_roundtrip [OF memNodes_ok reg] reg show ?thesis by fastforce
qed

end
