(* ===== verification/Config.thy ===== *)
theory Config
  imports JobRepository
begin

text \<open>
  \<^verbatim>\<open>src/utils/config.ts\<close>: the readers of environment variables and the table of settings. The
  environment is a map from names to strings over ASCII; \<^verbatim>\<open>parseInt\<close> is the language's, with
  exact integers for its results.
\<close>

section \<open>Readers\<close>

type_synonym env = "string \<Rightarrow> string option"

definition required :: "env \<Rightarrow> string \<Rightarrow> string + string" where
  "required e key =
     (case e key of
        None \<Rightarrow> Inl (''Missing required environment variable: '' @ key)
      | Some v \<Rightarrow> if v = [] then Inl (''Missing required environment variable: '' @ key) else Inr v)"

definition optional :: "env \<Rightarrow> string \<Rightarrow> string \<Rightarrow> string" where
  "optional e key defaultValue = nullish (e key) defaultValue"

definition isSpace :: "char \<Rightarrow> bool" where
  "isSpace c \<longleftrightarrow> (of_char c :: nat) \<in> set [9, 10, 11, 12, 13, 32]"

definition isDigit :: "char \<Rightarrow> bool" where
  "isDigit c \<longleftrightarrow> 48 \<le> (of_char c :: nat) \<and> (of_char c :: nat) \<le> 57"

definition digitValue :: "char \<Rightarrow> int" where
  "digitValue c = int (of_char c) - 48"

definition decimal :: "string \<Rightarrow> int" where
  "decimal ds = foldl (\<lambda>n c. n * 10 + digitValue c) 0 ds"

text \<open>\<^verbatim>\<open>parseInt(s, 10)\<close>: white space, a sign, the longest run of digits; \<open>None\<close> is NaN.\<close>

definition parseInt :: "string \<Rightarrow> int option" where
  "parseInt s =
     (let s1 = dropWhile isSpace s;
          negative = (s1 \<noteq> [] \<and> hd s1 = CHR ''-'');
          s2 = (if s1 \<noteq> [] \<and> hd s1 \<in> set ''+-'' then tl s1 else s1);
          ds = takeWhile isDigit s2
      in if ds = [] then None else Some (if negative then - decimal ds else decimal ds))"

definition optionalInt :: "env \<Rightarrow> string \<Rightarrow> int \<Rightarrow> string + int" where
  "optionalInt e key defaultValue =
     (case e key of
        None \<Rightarrow> Inr defaultValue
      | Some raw \<Rightarrow>
          if raw = [] then Inr defaultValue
          else (case parseInt raw of
                  None \<Rightarrow> Inl (''Environment variable '' @ key @ '' must be an integer'')
                | Some n \<Rightarrow> Inr n))"

definition optionalBool :: "env \<Rightarrow> string \<Rightarrow> bool \<Rightarrow> bool" where
  "optionalBool e key defaultValue =
     (case e key of
        None \<Rightarrow> defaultValue
      | Some raw \<Rightarrow> if raw = [] then defaultValue else map lower raw = ''true'')"

section \<open>Settings\<close>

text \<open>
  Each entry of the object \<^verbatim>\<open>config\<close>: its path, the variable and the default. The entries are
  evaluated in the order of the source; the first unreadable number ends the start.
\<close>

definition stringSettings :: "(string \<times> string \<times> string) list" where
  "stringSettings =
     [(''app.env'', ''NODE_ENV'', ''development''), (''app.apiVersion'', ''API_VERSION'', ''v1''),
      (''app.logLevel'', ''LOG_LEVEL'', ''info''), (''db.host'', ''DB_HOST'', ''localhost''),
      (''db.name'', ''DB_NAME'', ''task_orchestration''), (''db.user'', ''DB_USER'', ''postgres''),
      (''db.password'', ''DB_PASSWORD'', ''postgres''), (''redis.host'', ''REDIS_HOST'', ''localhost''),
      (''redis.password'', ''REDIS_PASSWORD'', []), (''redis.keyPrefix'', ''REDIS_KEY_PREFIX'', ''btos:''),
      (''auth.jwtSecret'', ''JWT_SECRET'', ''dev-secret-change-in-production''),
      (''auth.jwtExpiresIn'', ''JWT_EXPIRES_IN'', ''24h''), (''queue.name'', ''QUEUE_NAME'', ''job_queue''),
      (''queue.deadLetterQueueName'', ''DEAD_LETTER_QUEUE_NAME'', ''dlq''),
      (''monitoring.metricsPath'', ''METRICS_PATH'', ''/metrics''),
      (''monitoring.alertWebhookUrl'', ''ALERT_WEBHOOK_URL'', [])]"

definition intSettings :: "(string \<times> string \<times> int) list" where
  "intSettings =
     [(''app.port'', ''PORT'', 3000), (''db.port'', ''DB_PORT'', 5432), (''db.poolMin'', ''DB_POOL_MIN'', 2),
      (''db.poolMax'', ''DB_POOL_MAX'', 20), (''redis.port'', ''REDIS_PORT'', 6379), (''redis.db'', ''REDIS_DB'', 0),
      (''auth.apiKeySaltRounds'', ''API_KEY_SALT_ROUNDS'', 12),
      (''scheduler.pollIntervalMs'', ''SCHEDULER_POLL_INTERVAL_MS'', 1000),
      (''scheduler.maxConcurrentJobs'', ''SCHEDULER_MAX_CONCURRENT_JOBS'', 100),
      (''scheduler.lockTtlMs'', ''SCHEDULER_LOCK_TTL_MS'', 30000),
      (''scheduler.leaderElectionTtlMs'', ''LEADER_ELECTION_TTL_MS'', 10000),
      (''worker.concurrency'', ''WORKER_CONCURRENCY'', 10), (''worker.maxRetries'', ''WORKER_MAX_RETRIES'', 3),
      (''worker.retryDelayMs'', ''WORKER_RETRY_DELAY_MS'', 5000),
      (''worker.jobTimeoutMs'', ''WORKER_JOB_TIMEOUT_MS'', 300000),
      (''worker.heartbeatIntervalMs'', ''WORKER_HEARTBEAT_INTERVAL_MS'', 5000),
      (''queue.maxDepth'', ''MAX_QUEUE_DEPTH'', 10000), (''monitoring.metricsPort'', ''METRICS_PORT'', 9090),
      (''rateLimit.windowMs'', ''RATE_LIMIT_WINDOW_MS'', 60000),
      (''rateLimit.maxRequests'', ''RATE_LIMIT_MAX_REQUESTS'', 100)]"

record Settings =
  st_strings :: "(string \<times> string) list"
  st_ints :: "(string \<times> int) list"
  st_isDevelopment :: bool
  st_isProduction :: bool

fun readInts :: "env \<Rightarrow> (string \<times> string \<times> int) list \<Rightarrow> string + (string \<times> int) list" where
  "readInts e [] = Inr []"
| "readInts e ((path, key, d) # rest) =
     (case optionalInt e key d of
        Inl err \<Rightarrow> Inl err
      | Inr n \<Rightarrow> map_sum id ((#) (path, n)) (readInts e rest))"

definition loadConfig :: "env \<Rightarrow> string + Settings" where
  "loadConfig e =
     map_sum id (\<lambda>ints. \<lparr>st_strings = map (\<lambda>(path, key, d). (path, optional e key d)) stringSettings,
         st_ints = ints,
         st_isDevelopment = (optional e ''NODE_ENV'' ''development'' = ''development''),
         st_isProduction = (optional e ''NODE_ENV'' ''development'' = ''production'')\<rparr>)
       (readInts e intSettings)"

section \<open>Decimal numerals\<close>

lemma digit_char_simps [simp]:
  "isDigit (digit_char d)" "digitValue (digit_char d) = int (d mod 10)"
  "\<not> isSpace (digit_char d)" "digit_char d \<noteq> CHR ''-''" "digit_char d \<noteq> CHR ''+''"
proof -
  have "d mod 10 = 0 \<or> d mod 10 = 1 \<or> d mod 10 = 2 \<or> d mod 10 = 3 \<or> d mod 10 = 4 \<or>
      d mod 10 = 5 \<or> d mod 10 = 6 \<or> d mod 10 = 7 \<or> d mod 10 = 8 \<or> d mod 10 = 9" by presburger
  then show "isDigit (digit_char d)" "digitValue (digit_char d) = int (d mod 10)"
    "\<not> isSpace (digit_char d)" "digit_char d \<noteq> CHR ''-''" "digit_char d \<noteq> CHR ''+''"
    by (auto simp: digit_char_def isDigit_def digitValue_def isSpace_def)
qed

lemma decimal_snoc: "decimal (ds @ [c]) = decimal ds * 10 + digitValue c"
  by (simp add: decimal_def)

lemma show_nat_facts:
  "show_nat n \<noteq> [] \<and> (\<forall>c \<in> set (show_nat n). isDigit c) \<and> decimal (show_nat n) = int n \<and>
   \<not> isSpace (hd (show_nat n)) \<and> hd (show_nat n) \<notin> set ''+-''"
proof (induction n rule: show_nat.induct)
  case (1 n)
  show ?case
  proof (cases "n < 10")
    case True
    then show ?thesis by (simp add: show_nat.simps [of n] decimal_def)
  next
    case False
    have "int n = int (n div 10) * 10 + int (n mod 10)"
      by (metis div_mod_decomp of_nat_add of_nat_mult of_nat_numeral)
    then show ?thesis
      using 1 False by (simp add: show_nat.simps [of n] decimal_snoc)
  qed
qed

lemma digits_of_show:
  assumes "rest = [] \<or> \<not> isDigit (hd rest)"
  shows "takeWhile isDigit (show_nat n @ rest) = show_nat n"
proof -
  have "takeWhile isDigit rest = []" using assms by (cases rest) auto
  then show ?thesis using show_nat_facts [of n] by (simp add: takeWhile_append2)
qed

lemma parseInt_show:
  assumes rest: "rest = [] \<or> \<not> isDigit (hd rest)"
  shows "parseInt (show_int n @ rest) = Some n"
proof -
  note facts = show_nat_facts [of "nat (- n)"] show_nat_facts [of "nat n"]
  have "dropWhile isSpace (show_int n @ rest) = show_int n @ rest"
    using facts by (cases "show_int n") (auto simp: show_int_def isSpace_def split: if_splits)
  with facts digits_of_show [OF rest] show ?thesis
    by (auto simp: parseInt_def show_int_def Let_def)
qed

section \<open>Property\<close>

text \<open>
  Numbers survive the environment: a variable holding the decimal numeral of an integer
  is read as that integer, whatever text follows the numeral that does not begin with a
  digit; a variable that is unset or empty gives the default; and one that has no
  digits at its start is an error.
\<close>

theorem optionalInt_roundtrip:
  "(e key = Some (show_int n @ rest) \<and> (rest = [] \<or> \<not> isDigit (hd rest)) \<longrightarrow> optionalInt e key d = Inr n) \<and>
   (e key = None \<or> e key = Some [] \<longrightarrow> optionalInt e key d = Inr d) \<and>
   (e key = Some (c # s) \<and> \<not> isDigit c \<and> \<not> isSpace c \<and> c \<notin> set ''+-'' \<longrightarrow> (\<exists>msg. optionalInt e key d = Inl msg))"
proof -
  have "show_int n \<noteq> []" using show_nat_facts by (simp add: show_int_def)
  moreover have "parseInt (c # s) = None" if "\<not> isDigit c" "\<not> isSpace c" "c \<notin> set ''+-''"
    using that by (auto simp: parseInt_def Let_def)
  ultimately show ?thesis by (auto simp: optionalInt_def parseInt_show)
qed

theorem optionalInt_roundtrip_witness:
  "optionalInt [''PORT'' \<mapsto> show_int 80 @ ''s''] ''PORT'' 3000 = Inr 80 \<and>
   optionalInt Map.empty ''PORT'' 3000 = Inr 3000"
  using optionalInt_roundtrip [of "[''PORT'' \<mapsto> show_int 80 @ ''s'']" "''PORT''" 80 "''s''" 3000]
    optionalInt_roundtrip [of Map.empty "''PORT''" 80 "''s''" 3000]
  by (simp add: isDigit_def)

end
