(* ===== verification/Application.thy ===== *)
theory Application
  imports Metrics
begin

text \<open>
  \<^verbatim>\<open>src/app.ts\<close>: start-up, the request metrics and the graceful shutdown of a process. The calls
  to other components appear by name: what they do is the subject of their own theories, and
  here it matters in which order they are made and what follows from the failure of one.
  The HTTP server is Node's: its \<^verbatim>\<open>close\<close> event, at which all callbacks of \<^verbatim>\<open>server.close\<close> run, is a
  step of the environment, and so are the end and the abortion of a response.
\<close>

section \<open>Start-up\<close>

datatype start_call = ConnectDatabase | LockConnect | RegistryConnect | RegistryRegister | QueueStart
  | SchedulerStart | AlertStart | HealthStart | ApolloStart | Listen

text \<open>Calls one after the other up to the first that throws: its error, and the calls made.\<close>

fun runCalls :: "('c \<Rightarrow> string option) \<Rightarrow> 'c list \<Rightarrow> string option \<times> 'c list" where
  "runCalls outcome [] = (None, [])"
| "runCalls outcome (c # cs) =
     (case outcome c of
        Some err \<Rightarrow> (Some err, [c])
      | None \<Rightarrow> (let (e, made) = runCalls outcome cs in (e, c # made)))"

definition bootstrap :: "(start_call \<Rightarrow> string option) \<Rightarrow> string option \<times> start_call list" where
  "bootstrap outcome =
     (case runCalls outcome [ConnectDatabase] of
        (Some err, made) \<Rightarrow> (Some err, made)
      | (None, made) \<Rightarrow>
          (let (_, made2) = runCalls outcome [LockConnect, RegistryConnect, RegistryRegister];
               (e, made3) = runCalls outcome [QueueStart, SchedulerStart, AlertStart, HealthStart, ApolloStart, Listen]
           in (e, made @ made2 @ made3)))"

section \<open>Request metrics\<close>

record http_request =
  hr_method :: string
  hr_path :: string
  hr_start :: time

definition requestStarted :: "string \<Rightarrow> string \<Rightarrow> time \<Rightarrow> metrics \<Rightarrow> http_request \<times> metrics" where
  "requestStarted meth path now ms =
     (\<lparr>hr_method = meth, hr_path = path, hr_start = now\<rparr>, incrementHttpInFlight ms)"

definition responseFinished :: "http_request \<Rightarrow> string option \<Rightarrow> nat \<Rightarrow> time \<Rightarrow> metrics \<Rightarrow> metrics" where
  "responseFinished r routePath statusCode now ms =
     recordHttpRequest (hr_method r) (nullish routePath (hr_path r)) statusCode (of_int (now - hr_start r))
       (decrementHttpInFlight ms)"

section \<open>Shutdown\<close>

datatype stop_call = AlertStop | HealthStop | SchedulerStop | QueueStop | RegistryDisconnect | LockDisconnect | DisconnectDatabase

definition stopCalls :: "stop_call list" where
  "stopCalls = [AlertStop, HealthStop, SchedulerStop, QueueStop, RegistryDisconnect, LockDisconnect, DisconnectDatabase]"

text \<open>
  The process: callbacks waiting for the server to close, started stop sequences (calls made and calls
  to make), deadlines of the timers that force the exit, and the exit code.
\<close>

record proc =
  p_callbacks :: nat
  p_stops :: "(stop_call list \<times> stop_call list) list"
  p_deadlines :: "time list"
  p_exit :: "nat option"

definition running :: proc where
  "running = \<lparr>p_callbacks = 0, p_stops = [], p_deadlines = [], p_exit = None\<rparr>"

definition shutdown :: "time \<Rightarrow> proc \<Rightarrow> proc" where
  "shutdown now p = p\<lparr>p_callbacks := p_callbacks p + 1, p_deadlines := p_deadlines p @ [now + 30000]\<rparr>"

text \<open>The process events with a listener; all of them call \<^verbatim>\<open>shutdown\<close>.\<close>

datatype process_event = SIGTERM | SIGINT | UncaughtException | UnhandledRejection

fun onProcessEvent :: "process_event \<Rightarrow> time \<Rightarrow> proc \<Rightarrow> proc" where
  "onProcessEvent SIGTERM now p = shutdown now p"
| "onProcessEvent SIGINT now p = shutdown now p"
| "onProcessEvent UncaughtException now p = shutdown now p"
| "onProcessEvent UnhandledRejection now p = shutdown now p"

lemma onProcessEvent_shutdown [simp]: "onProcessEvent ev now p = shutdown now p"
  by (cases ev) simp_all

text \<open>A start-up that fails ends the process with exit code 1.\<close>

definition startProcess :: "(start_call \<Rightarrow> string option) \<Rightarrow> proc" where
  "startProcess outcome =
     (case bootstrap outcome of (None, made) \<Rightarrow> running | (Some err, made) \<Rightarrow> running\<lparr>p_exit := Some 1\<rparr>)"

definition serverClosed :: "proc \<Rightarrow> proc" where
  "serverClosed p = p\<lparr>p_callbacks := 0, p_stops := p_stops p @ replicate (p_callbacks p) ([], stopCalls)\<rparr>"

text \<open>The next call of a stop sequence, with its outcome; after the last one the process exits.\<close>

definition stopNext :: "nat \<Rightarrow> string option \<Rightarrow> proc \<Rightarrow> proc" where
  "stopNext i outcome p =
     (case p_stops p ! i of
        (made, []) \<Rightarrow> p\<lparr>p_exit := Some 0\<rparr>
      | (made, c # cs) \<Rightarrow>
          (case outcome of
             None \<Rightarrow> p\<lparr>p_stops := (p_stops p)[i := (made @ [c], cs)]\<rparr>
           | Some err \<Rightarrow> p\<lparr>p_exit := Some 1\<rparr>))"

definition forceExit :: "proc \<Rightarrow> proc" where
  "forceExit p = p\<lparr>p_exit := Some 1\<rparr>"

section \<open>Lemmas\<close>

lemma runCalls_single: "runCalls outcome [c] = (outcome c, [c])"
  by (simp split: option.split)

lemma runCalls_all: "fst (runCalls outcome cs) = None \<longleftrightarrow> (\<forall>c \<in> set cs. outcome c = None)"
  by (induction cs) (auto split: option.splits prod.splits)

lemma runCalls_made: "fst (runCalls outcome cs) = None \<Longrightarrow> snd (runCalls outcome cs) = cs"
  by (induction cs) (auto split: option.splits prod.splits)

lemma runCalls_prefix: "\<exists>rest. cs = snd (runCalls outcome cs) @ rest"
  by (induction cs) (auto split: option.splits prod.splits)

text \<open>The value of a gauge after a sequence of calls.\<close>

fun gauge :: "string \<Rightarrow> metrics \<Rightarrow> number" where
  "gauge n [] = 0"
| "gauge n (Inc m ls x # ms) = (if m = n then x else 0) + gauge n ms"
| "gauge n (Dec m ls # ms) = (if m = n then -1 else 0) + gauge n ms"
| "gauge n (SetTo m ls x # ms) = gauge n ms"
| "gauge n (Observe m ls x # ms) = gauge n ms"

lemma gauge_append [simp]: "gauge n (xs @ ys) = gauge n xs + gauge n ys"
  by (induction xs rule: gauge.induct) auto

text \<open>The requests of a server: open, finished and aborted ones.\<close>

record http_server =
  sv_open :: "http_request list"
  sv_finished :: nat
  sv_aborted :: nat
  sv_metrics :: metrics

inductive http_reach :: "http_server \<Rightarrow> bool" where
  start: "http_reach \<lparr>sv_open = [], sv_finished = 0, sv_aborted = 0, sv_metrics = []\<rparr>"
| request: "http_reach s \<Longrightarrow> requestStarted meth path now (sv_metrics s) = (r, ms) \<Longrightarrow>
    http_reach (s\<lparr>sv_open := r # sv_open s, sv_metrics := ms\<rparr>)"
| finish: "http_reach s \<Longrightarrow> r \<in> set (sv_open s) \<Longrightarrow>
    http_reach (s\<lparr>sv_open := remove1 r (sv_open s), sv_finished := sv_finished s + 1,
      sv_metrics := responseFinished r route code now (sv_metrics s)\<rparr>)"
| abort: "http_reach s \<Longrightarrow> r \<in> set (sv_open s) \<Longrightarrow>
    http_reach (s\<lparr>sv_open := remove1 r (sv_open s), sv_aborted := sv_aborted s + 1\<rparr>)"

text \<open>
  A process that has started: signals arrive, the server closes, stop sequences proceed, timers
  fire, in any order, until it exits. The second component of a state is the clock; it does not
  pass the deadline of a timer that has not fired.
\<close>

inductive proc_steps :: "proc \<times> time \<Rightarrow> proc \<times> time \<Rightarrow> bool" for s0 where
  none: "proc_steps s0 s0"
| signal: "proc_steps s0 (p, t) \<Longrightarrow> p_exit p = None \<Longrightarrow> proc_steps s0 (onProcessEvent ev t p, t)"
| closed: "proc_steps s0 (p, t) \<Longrightarrow> p_exit p = None \<Longrightarrow> proc_steps s0 (serverClosed p, t)"
| stop: "proc_steps s0 (p, t) \<Longrightarrow> p_exit p = None \<Longrightarrow> i < length (p_stops p) \<Longrightarrow>
    proc_steps s0 (stopNext i outcome p, t)"
| force: "proc_steps s0 (p, t) \<Longrightarrow> p_exit p = None \<Longrightarrow> d \<in> set (p_deadlines p) \<Longrightarrow> d \<le> t \<Longrightarrow>
    proc_steps s0 (forceExit p, t)"
| tick: "proc_steps s0 (p, t) \<Longrightarrow> t \<le> t' \<Longrightarrow> p_exit p \<noteq> None \<or> (\<forall>d \<in> set (p_deadlines p). t' \<le> d) \<Longrightarrow>
    proc_steps s0 (p, t')"

definition proc_inv :: "proc \<times> time \<Rightarrow> bool" where
  "proc_inv s \<longleftrightarrow> (case s of (p, t) \<Rightarrow>
     (\<forall>(made, todo) \<in> set (p_stops p). made @ todo = stopCalls) \<and>
     (p_exit p = None \<longrightarrow> (\<forall>d \<in> set (p_deadlines p). t \<le> d \<and> d \<le> t + 30000)) \<and>
     (p_exit p = Some 0 \<longrightarrow> (stopCalls, []) \<in> set (p_stops p)))"

lemma proc_inv_stop:
  assumes "proc_inv (p, t)" "p_exit p = None" "i < length (p_stops p)"
  shows "proc_inv (stopNext i outcome p, t)"
proof -
  obtain made todo where s: "p_stops p ! i = (made, todo)" by (metis surj_pair)
  have mem: "(made, todo) \<in> set (p_stops p)" using assms(3) s by (metis nth_mem)
  have all: "\<forall>(made, todo) \<in> set (p_stops p). made @ todo = stopCalls" using assms(1) by (simp add: proc_inv_def)
  with mem have whole: "made @ todo = stopCalls" by blast
  have upd: "\<forall>(m, td) \<in> set ((p_stops p)[i := (made @ [c], cs)]). m @ td = stopCalls" if "todo = c # cs" for c cs
    using all whole that set_update_subset_insert [of "p_stops p" i "(made @ [c], cs)"] by fastforce
  show ?thesis
    using assms mem whole upd s by (auto simp: proc_inv_def stopNext_def split: list.split option.split)
qed

lemma proc_steps_inv: "proc_steps s0 s \<Longrightarrow> proc_inv s0 \<Longrightarrow> proc_inv s"
proof (induction rule: proc_steps.induct)
  case (stop p t i outcome)
  then show ?case by (intro proc_inv_stop) simp_all
qed (auto simp: proc_inv_def shutdown_def serverClosed_def forceExit_def)

lemma proc_steps_deadline:
  "proc_steps s0 s \<Longrightarrow> d \<in> set (p_deadlines (fst s0)) \<Longrightarrow> d \<in> set (p_deadlines (fst s))"
  by (induction rule: proc_steps.induct)
     (auto simp: shutdown_def serverClosed_def forceExit_def stopNext_def split: prod.split list.split option.split)

section \<open>Properties\<close>

text \<open>
  Start-up: the server listens exactly if the database, the queues, the scheduler and the GraphQL
  server came up; that the lock service or the node register is not reachable does not
  stop it. Nothing is called after a failure except past the distributed systems.
\<close>

theorem bootstrap_order:
  "(fst (bootstrap outcome) = None \<longleftrightarrow>
     (\<forall>c \<in> {ConnectDatabase, QueueStart, SchedulerStart, AlertStart, HealthStart, ApolloStart, Listen}. outcome c = None)) \<and>
   (fst (bootstrap outcome) = None \<longrightarrow> (\<exists>ds. set ds \<subseteq> {LockConnect, RegistryConnect, RegistryRegister} \<and>
     snd (bootstrap outcome) = ConnectDatabase # ds @ [QueueStart, SchedulerStart, AlertStart, HealthStart, ApolloStart, Listen]))"
proof -
  let ?ds = "[LockConnect, RegistryConnect, RegistryRegister]"
  let ?rs = "[QueueStart, SchedulerStart, AlertStart, HealthStart, ApolloStart, Listen]"
  have eq: "bootstrap outcome = (case outcome ConnectDatabase of Some e \<Rightarrow> (Some e, [ConnectDatabase])
      | None \<Rightarrow> (fst (runCalls outcome ?rs), ConnectDatabase # snd (runCalls outcome ?ds) @ snd (runCalls outcome ?rs)))"
    unfolding bootstrap_def runCalls_single
    by (cases "outcome ConnectDatabase") (simp_all add: case_prod_unfold Let_def del: runCalls.simps)
  have sub: "set (snd (runCalls outcome ?ds)) \<subseteq> set ?ds"
    using runCalls_prefix [of ?ds outcome] by (metis set_append sup_ge1)
  show ?thesis
    using runCalls_all [of outcome ?rs] runCalls_made [of outcome ?rs] sub
    by (cases "outcome ConnectDatabase") (auto simp: eq simp del: runCalls.simps)
qed

text \<open>
  The gauge of requests in flight and the counter of requests follow the responses that have
  finished: in every state the gauge is the number of open requests plus that of all requests ever
  aborted by the client, since only the end of a response lowers it, and the counter is the number
  of finished responses.
\<close>

theorem http_gauge:
  assumes "http_reach s"
  shows "gauge ''btos_http_requests_in_flight'' (sv_metrics s) = of_nat (length (sv_open s) + sv_aborted s) \<and>
    gauge ''btos_http_requests_total'' (sv_metrics s) = of_nat (sv_finished s)"
  using assms
proof induction
  case (finish s r route code now)
  then obtain n where "length (sv_open s) = Suc n" by (cases "sv_open s") auto
  with finish show ?case
    by (simp add: responseFinished_def recordHttpRequest_def decrementHttpInFlight_def length_remove1)
next
  case (abort s r)
  then obtain n where "length (sv_open s) = Suc n" by (cases "sv_open s") auto
  with abort show ?case by (simp add: length_remove1)
qed (auto simp: requestStarted_def incrementHttpInFlight_def)

theorem http_gauge_witness:
  "gauge ''btos_http_requests_in_flight'' (responseFinished \<lparr>hr_method = ''GET'', hr_path = ''/'', hr_start = 0\<rparr> None 200 5
     (incrementHttpInFlight [])) = 0"
proof -
  let ?s0 = "\<lparr>sv_open = [], sv_finished = 0, sv_aborted = 0, sv_metrics = []\<rparr>"
  let ?r = "\<lparr>hr_method = ''GET'', hr_path = ''/'', hr_start = 0\<rparr>"
  have "http_reach (?s0\<lparr>sv_open := [?r], sv_metrics := incrementHttpInFlight []\<rparr>)"
    using http_reach.request [OF http_reach.start, of "''GET''" "''/''" 0 ?r "incrementHttpInFlight []"]
    by (simp add: requestStarted_def)
  from http_reach.finish [OF this, of ?r None 200 5] show ?thesis
    using http_gauge by fastforce
qed

text \<open>
  C26. Shutdown: a process that receives a signal is gone after thirty seconds, whatever hangs and
  whatever else arrives meanwhile, and if it still runs at that instant, the timer can end it; it exits
  with code 0 only after one stop sequence has made all its seven calls, in order and
  without an error.
\<close>

theorem shutdown_bounded:
  assumes "proc_steps (running, t0) (p, t)" "p_exit p = None" and steps: "proc_steps (shutdown t p, t) (p', t')"
  shows "(t + 30000 < t' \<longrightarrow> p_exit p' \<noteq> None) \<and>
    (t' = t + 30000 \<and> p_exit p' = None \<longrightarrow> proc_steps (shutdown t p, t) (forceExit p', t')) \<and>
    (p_exit p' = Some 0 \<longrightarrow> (stopCalls, []) \<in> set (p_stops p'))"
proof -
  have start: "proc_inv (running, t0)" by (simp add: proc_inv_def running_def)
  have "proc_steps (running, t0) (shutdown t p, t)" using proc_steps.signal [OF assms(1,2), of SIGTERM] by simp
  from proc_steps_inv [OF this start] have inv: "proc_inv (p', t')"
    by (rule proc_steps_inv [OF steps])
  have d: "t + 30000 \<in> set (p_deadlines p')"
    using proc_steps_deadline [OF steps, of "t + 30000"] by (simp add: shutdown_def)
  have "t' \<le> t + 30000" if "p_exit p' = None" using inv d that by (auto simp: proc_inv_def)
  moreover have "proc_steps (shutdown t p, t) (forceExit p', t')" if "t' = t + 30000" "p_exit p' = None"
    using proc_steps.force [OF steps that(2) d] that(1) by simp
  ultimately show ?thesis using inv by (force simp: proc_inv_def)
qed

theorem shutdown_bounded_witness:
  "proc_steps (shutdown 5 running, 5) (forceExit (shutdown 5 running), 30005)"
proof -
  have "proc_steps (shutdown 5 running, 5) (shutdown 5 running, 30005)"
    by (rule proc_steps.tick [OF proc_steps.none]) (simp_all add: shutdown_def running_def)
  moreover have exits: "p_exit running = None" "p_exit (shutdown 5 running) = None" by (simp_all add: shutdown_def running_def)
  ultimately show ?thesis using shutdown_bounded [OF proc_steps.none exits(1), of 5 "shutdown 5 running" 30005] by simp
qed

end
