(* ===== verification/Migrations.thy ===== *)
theory Migrations
  imports Prelude
begin

text \<open>
  \<^verbatim>\<open>src/db/migrate.ts\<close>: the migration runner. The directory listing, reading a file and running its
  SQL are arguments; the schema they act on is of any type. A transaction whose SQL or whose
  insertion fails leaves the database as it was.
\<close>

section \<open>The runner\<close>

text \<open>The order of \<^verbatim>\<open>Array.prototype.sort\<close> without a comparison function: by code units.\<close>

fun codeUnitOrder :: "string \<Rightarrow> string \<Rightarrow> number" where
  "codeUnitOrder [] [] = 0"
| "codeUnitOrder [] (b # bs) = -1"
| "codeUnitOrder (a # as) [] = 1"
| "codeUnitOrder (a # as) (b # bs) =
     (if of_char a < (of_char b :: nat) then -1 else if of_char b < (of_char a :: nat) then 1
      else codeUnitOrder as bs)"

record 'db migration_db =
  mg_schema :: 'db
  mg_rows :: "string list option"

definition ensureMigrationsTable :: "'db migration_db \<Rightarrow> 'db migration_db" where
  "ensureMigrationsTable st = (case mg_rows st of None \<Rightarrow> st\<lparr>mg_rows := Some []\<rparr> | Some _ \<Rightarrow> st)"

definition getAppliedMigrations :: "'db migration_db \<Rightarrow> string list" where
  "getAppliedMigrations st = js_sort codeUnitOrder (case mg_rows st of None \<Rightarrow> [] | Some rows \<Rightarrow> rows)"

definition endsWith :: "string \<Rightarrow> string \<Rightarrow> bool" where
  "endsWith s suffix \<longleftrightarrow> length suffix \<le> length s \<and> drop (length s - length suffix) s = suffix"

definition migrationFiles :: "string list \<Rightarrow> string list" where
  "migrationFiles dir = js_sort codeUnitOrder (filter (\<lambda>f. endsWith f ''.sql'') dir)"

definition applyMigration ::
  "(string \<Rightarrow> 'db \<Rightarrow> string + 'db) \<Rightarrow> string \<Rightarrow> string \<Rightarrow> 'db migration_db \<Rightarrow> string + 'db migration_db" where
  "applyMigration raw file sql st =
     (case raw sql (mg_schema st) of
        Inl err \<Rightarrow> Inl err
      | Inr schema \<Rightarrow>
          (case mg_rows st of
             None \<Rightarrow> Inl ''relation does not exist''
           | Some rows \<Rightarrow>
               if file \<in> set rows then Inl ''duplicate key value''
               else Inr (st\<lparr>mg_schema := schema, mg_rows := Some (rows @ [file])\<rparr>)))"

fun migrateFiles ::
  "(string \<Rightarrow> string + string) \<Rightarrow> (string \<Rightarrow> 'db \<Rightarrow> string + 'db) \<Rightarrow> string set \<Rightarrow> string list \<Rightarrow>
   nat \<times> 'db migration_db \<Rightarrow> string option \<times> nat \<times> 'db migration_db" where
  "migrateFiles readFile raw applied [] st = (None, st)"
| "migrateFiles readFile raw applied (file # files) st =
     (if file \<in> applied then migrateFiles readFile raw applied files st
      else case readFile file of
             Inl err \<Rightarrow> (Some err, st)
           | Inr sql \<Rightarrow>
               (case applyMigration raw file sql (snd st) of
                  Inl err \<Rightarrow> (Some err, st)
                | Inr db \<Rightarrow> migrateFiles readFile raw applied files (fst st + 1, db)))"

definition runMigrations ::
  "(string \<Rightarrow> string + string) \<Rightarrow> (string \<Rightarrow> 'db \<Rightarrow> string + 'db) \<Rightarrow> string list \<Rightarrow> 'db migration_db \<Rightarrow>
   string option \<times> nat \<times> 'db migration_db" where
  "runMigrations readFile raw dir st =
     (let st1 = ensureMigrationsTable st;
          applied = set (getAppliedMigrations st1)
      in migrateFiles readFile raw applied (migrationFiles dir) (0, st1))"

definition exitCode :: "string option \<times> nat \<times> 'db migration_db \<Rightarrow> nat" where
  "exitCode r = (case fst r of None \<Rightarrow> 0 | Some _ \<Rightarrow> 1)"

section \<open>Lemmas\<close>

lemma codeUnitOrder_values: "codeUnitOrder a b \<in> {-1, 0, 1}"
  by (induction a b rule: codeUnitOrder.induct) auto

lemma codeUnitOrder_swap: "codeUnitOrder b a = - codeUnitOrder a b"
  by (induction a b rule: codeUnitOrder.induct) auto

lemma codeUnitOrder_trans: "codeUnitOrder a b \<le> 0 \<Longrightarrow> codeUnitOrder b c \<le> 0 \<Longrightarrow> codeUnitOrder a c \<le> 0"
proof (induction a c arbitrary: b rule: codeUnitOrder.induct)
  case (3 a as)
  then show ?case by (cases b) (auto split: if_splits)
next
  case (4 a as c cs)
  show ?case
  proof (cases b)
    case Nil
    with 4 show ?thesis by simp
  next
    case (Cons y ys)
    with 4 show ?thesis by (auto split: if_splits)
  qed
qed auto

interpretation file_order: comparison codeUnitOrder
proof
  fix a b c
  show "codeUnitOrder a b \<le> 0 \<or> codeUnitOrder b a \<le> 0" using codeUnitOrder_swap [of b a] by linarith
  show "codeUnitOrder a b < 0 \<longleftrightarrow> \<not> codeUnitOrder b a \<le> 0" using codeUnitOrder_swap [of b a] by linarith
qed (rule codeUnitOrder_trans)

definition applied_files :: "'db migration_db \<Rightarrow> string list" where
  "applied_files st = (case mg_rows st of None \<Rightarrow> [] | Some rows \<Rightarrow> rows)"

definition pending :: "string list \<Rightarrow> 'db migration_db \<Rightarrow> string list" where
  "pending dir st = filter (\<lambda>f. f \<notin> set (applied_files st)) (migrationFiles dir)"

text \<open>The specification: run the files one after the other on the schema.\<close>

fun runs_to ::
  "(string \<Rightarrow> string + string) \<Rightarrow> (string \<Rightarrow> 'db \<Rightarrow> string + 'db) \<Rightarrow> string list \<Rightarrow> 'db \<Rightarrow> 'db \<Rightarrow> bool" where
  "runs_to readFile raw [] db db' \<longleftrightarrow> db' = db"
| "runs_to readFile raw (f # fs) db db' \<longleftrightarrow>
     (\<exists>sql db1. readFile f = Inr sql \<and> raw sql db = Inr db1 \<and> runs_to readFile raw fs db1 db')"

lemma migrateFiles_prefix:
  assumes "migrateFiles readFile raw applied files (n, st) = (err, n', st')" "mg_rows st = Some rows"
    and "distinct files" "set files \<inter> set rows \<subseteq> applied"
  shows "\<exists>done rest. filter (\<lambda>f. f \<notin> applied) files = done @ rest \<and> n' = n + length done \<and>
    mg_rows st' = Some (rows @ done) \<and> runs_to readFile raw done (mg_schema st) (mg_schema st') \<and>
    (case err of None \<Rightarrow> rest = []
     | Some e \<Rightarrow> rest \<noteq> [] \<and> (case readFile (hd rest) of Inl e' \<Rightarrow> e = e' | Inr sql \<Rightarrow> raw sql (mg_schema st') = Inl e))"
  using assms
proof (induction files arbitrary: n st rows)
  case Nil
  then show ?case by (intro exI [of _ "[]"]) auto
next
  case (Cons f files)
  consider (skip) "f \<in> applied" | (unread) e where "f \<notin> applied" "readFile f = Inl e"
    | (fail) sql e where "f \<notin> applied" "readFile f = Inr sql" "raw sql (mg_schema st) = Inl e"
    | (ok) sql db where "f \<notin> applied" "readFile f = Inr sql" "raw sql (mg_schema st) = Inr db"
    by (cases "f \<in> applied"; cases "readFile f") (metis sum.exhaust)+
  then show ?case
  proof cases
    case skip
    with Cons.IH [OF _ Cons.prems(2)] Cons.prems show ?thesis by auto
  next
    case unread
    with Cons.prems show ?thesis by (intro exI [of _ "[]"] exI [of _ "f # filter (\<lambda>f. f \<notin> applied) files"]) auto
  next
    case fail
    with Cons.prems show ?thesis
      by (intro exI [of _ "[]"] exI [of _ "f # filter (\<lambda>f. f \<notin> applied) files"]) (auto simp: applyMigration_def)
  next
    case ok
    let ?st = "st\<lparr>mg_schema := db, mg_rows := Some (rows @ [f])\<rparr>"
    have "f \<notin> set rows" using Cons.prems(4) ok(1) by auto
    then have run: "migrateFiles readFile raw applied files (n + 1, ?st) = (err, n', st')"
      using Cons.prems(1,2) ok by (simp add: applyMigration_def)
    have "set files \<inter> set (rows @ [f]) \<subseteq> applied" using Cons.prems(3,4) by auto
    from Cons.IH [OF run, of "rows @ [f]"] this Cons.prems(3) obtain fs rest where
      "filter (\<lambda>f. f \<notin> applied) files = fs @ rest" "n' = n + 1 + length fs" "mg_rows st' = Some (rows @ [f] @ fs)"
      "runs_to readFile raw fs db (mg_schema st')"
      "case err of None \<Rightarrow> rest = []
       | Some e \<Rightarrow> rest \<noteq> [] \<and> (case readFile (hd rest) of Inl e' \<Rightarrow> e = e' | Inr sql \<Rightarrow> raw sql (mg_schema st') = Inl e)"
      by auto
    with ok show ?thesis by (intro exI [of _ "f # fs"] exI [of _ rest]) auto
  qed
qed

lemma applied_files_ensure [simp]:
  "applied_files (ensureMigrationsTable st) = applied_files st" "mg_schema (ensureMigrationsTable st) = mg_schema st"
  "mg_rows (ensureMigrationsTable st) = Some (applied_files st)"
  by (auto simp: applied_files_def ensureMigrationsTable_def split: option.splits)

lemma set_getAppliedMigrations [simp]: "set (getAppliedMigrations st) = set (applied_files st)"
  by (simp add: getAppliedMigrations_def applied_files_def)

section \<open>Properties\<close>


definition new_database :: "string list migration_db" where
  "new_database = \<lparr>mg_schema = [], mg_rows = None\<rparr>"

definition sample_raw :: "string \<Rightarrow> string list \<Rightarrow> string + string list" where
  "sample_raw sql db = (if sql = ''2.sql'' then Inl ''syntax'' else Inr (db @ [sql]))"


end
