(* ===== verification/Monitoring.thy ===== *)
theory Monitoring
  imports WorkerProcess
begin

text \<open>
  \<^verbatim>\<open>src/services/NotificationService.ts\<close>, \<^verbatim>\<open>src/services/WorkerService.ts\<close>,
  \<^verbatim>\<open>src/monitoring/AlertManager.ts\<close> and \<^verbatim>\<open>src/monitoring/HealthCheck.ts\<close>. What a notification does is the list of the POST requests it
  sends: whether a request fails is caught and logged by the sender, so nothing depends on
  it. Characters outside ASCII are their UTF-8 bytes; time stamps stay instants.
\<close>

section \<open>NotificationService.ts\<close>

datatype NotificationEvent = job_failed | job_dlq | job_completed | scheduler_error | worker_lost | worker_recovered

fun eventName :: "NotificationEvent \<Rightarrow> string" where
  "eventName job_failed = ''job.failed''"
| "eventName job_dlq = ''job.dlq''"
| "eventName job_completed = ''job.completed''"
| "eventName scheduler_error = ''scheduler.error''"
| "eventName worker_lost = ''worker.lost''"
| "eventName worker_recovered = ''worker.recovered''"

record NotifiedJob =
  nj_id :: id
  nj_name :: string
  nj_type :: JobType
  nj_priority :: JobPriority
  nj_retryCount :: int
  nj_errorMessage :: "string option"

record NotifiedWorker =
  nw_id :: id
  nw_hostname :: string
  nw_lostAt :: time

record NotificationPayload =
  np_event :: NotificationEvent
  np_timestamp :: time
  np_job :: "NotifiedJob option"
  np_worker :: "NotifiedWorker option"
  np_message :: "string option"

record SlackField =
  sf_title :: string
  sf_value :: string
  sf_short :: bool

record SlackPayload =
  sl_text :: string
  sl_color :: string
  sl_fields :: "SlackField list"
  sl_footer :: string
  sl_ts :: int

datatype post = PostWebhook string NotificationPayload | PostSlack string SlackPayload

text \<open>\<^verbatim>\<open>s.includes(t)\<close>.\<close>

fun js_includes :: "string \<Rightarrow> string \<Rightarrow> bool" where
  "js_includes [] t = (t = [])"
| "js_includes (c # s) t = (take (length t) (c # s) = t \<or> js_includes s t)"

fun icon :: "NotificationEvent \<Rightarrow> string" where
  "icon job_failed = '':x:''"
| "icon job_dlq = '':skull:''"
| "icon job_completed = '':white_check_mark:''"
| "icon scheduler_error = '':warning:''"
| "icon worker_lost = '':robot_face:''"
| "icon worker_recovered = '':green_heart:''"

definition slackFields :: "NotificationPayload \<Rightarrow> SlackField list" where
  "slackFields payload =
     (case np_job payload of
        Some job \<Rightarrow>
          [\<lparr>sf_title = ''Job'', sf_value = nj_name job @ '' (`'' @ nj_id job @ ''`)'', sf_short = True\<rparr>,
           \<lparr>sf_title = ''Type'', sf_value = jobTypeName (nj_type job), sf_short = True\<rparr>,
           \<lparr>sf_title = ''Priority'', sf_value = priorityName (nj_priority job), sf_short = True\<rparr>,
           \<lparr>sf_title = ''Retries'', sf_value = show_int (nj_retryCount job), sf_short = True\<rparr>] @
          (case nj_errorMessage job of
             None \<Rightarrow> []
           | Some e \<Rightarrow> if e = [] then [] else [\<lparr>sf_title = ''Error'', sf_value = e, sf_short = False\<rparr>])
      | None \<Rightarrow> [\<lparr>sf_title = ''Message'', sf_value = nullish (np_message payload) [], sf_short = False\<rparr>])"

definition slackPayload :: "time \<Rightarrow> NotificationPayload \<Rightarrow> SlackPayload" where
  "slackPayload now payload =
     \<lparr>sl_text = icon (np_event payload) @ '' *BTOS Alert* '' @ [CHR 0xE2, CHR 0x80, CHR 0x94] @ '' `'' @
        eventName (np_event payload) @ ''`'',
      sl_color = (if js_includes (eventName (np_event payload)) ''failed'' \<or>
                     js_includes (eventName (np_event payload)) ''dlq''
                  then ''#FF0000'' else ''#36A64F''),
      sl_fields = slackFields payload, sl_footer = ''Backend Task Orchestration System'',
      sl_ts = \<lfloor>of_int now / (1000 :: number)\<rfloor>\<rparr>"

definition sendWebhook :: "string \<Rightarrow> NotificationPayload \<Rightarrow> post list" where
  "sendWebhook webhookUrl payload = (if webhookUrl = [] then [] else [PostWebhook webhookUrl payload])"

definition sendSlack :: "string \<Rightarrow> time \<Rightarrow> NotificationPayload \<Rightarrow> post list" where
  "sendSlack webhookUrl now payload =
     (if webhookUrl = [] \<or> \<not> js_includes webhookUrl ''slack.com'' then []
      else [PostSlack webhookUrl (slackPayload now payload)])"

definition sendAll :: "string \<Rightarrow> time \<Rightarrow> NotificationPayload \<Rightarrow> post list" where
  "sendAll webhookUrl now payload = sendWebhook webhookUrl payload @ sendSlack webhookUrl now payload"

definition notified :: "Job \<Rightarrow> NotifiedJob" where
  "notified job = \<lparr>nj_id = j_id job, nj_name = j_name job, nj_type = j_type job, nj_priority = j_priority job,
     nj_retryCount = j_retryCount job, nj_errorMessage = j_errorMessage job\<rparr>"

definition notifyJobFailed :: "string \<Rightarrow> time \<Rightarrow> NotifiedJob \<Rightarrow> post list" where
  "notifyJobFailed url now job =
     sendAll url now \<lparr>np_event = job_failed, np_timestamp = now, np_job = Some job, np_worker = None,
       np_message = None\<rparr>"

definition notifyJobDLQ :: "string \<Rightarrow> time \<Rightarrow> NotifiedJob \<Rightarrow> post list" where
  "notifyJobDLQ url now job =
     sendAll url now \<lparr>np_event = job_dlq, np_timestamp = now, np_job = Some job, np_worker = None,
       np_message = Some (''Job \"'' @ nj_name job @ ''\" has been moved to the dead letter queue after '' @
         show_int (nj_retryCount job) @ '' attempts.'')\<rparr>"

definition notifyWorkerLost :: "string \<Rightarrow> time \<Rightarrow> id \<Rightarrow> string \<Rightarrow> post list" where
  "notifyWorkerLost url now workerId hostname =
     sendAll url now \<lparr>np_event = worker_lost, np_timestamp = now, np_job = None,
       np_worker = Some \<lparr>nw_id = workerId, nw_hostname = hostname, nw_lostAt = now\<rparr>,
       np_message = Some (''Worker '' @ hostname @ '' ('' @ workerId @ '') has stopped sending heartbeats.'')\<rparr>"

section \<open>WorkerService.ts\<close>

definition registerWorker ::
  "id \<Rightarrow> time \<Rightarrow> RegisterWorkerDto \<Rightarrow> workers \<times> metrics \<Rightarrow> WorkerNode \<times> workers \<times> metrics" where
  "registerWorker newId now dto st =
     (let (worker, ws) = register_worker newId now dto (fst st)
      in (worker, ws, setWorkerCount ''ONLINE'' 1 (snd st)))"

definition getWorker :: "id \<Rightarrow> workers \<Rightarrow> string + WorkerNode" where
  "getWorker i ws = (case findWorker i ws of None \<Rightarrow> Inl (''Worker not found: '' @ i) | Some w \<Rightarrow> Inr w)"

definition listWorkers :: "WorkerStatus list option \<Rightarrow> workers \<Rightarrow> WorkerNode list" where
  "listWorkers flt ws = findAll flt ws"

definition serviceHeartbeat :: "WorkerHeartbeatDto \<Rightarrow> time \<Rightarrow> workers \<Rightarrow> workers" where
  "serviceHeartbeat dto now ws = heartbeat dto now ws"

definition detectAndMarkLostWorkers ::
  "string \<Rightarrow> int \<Rightarrow> time \<Rightarrow> workers \<Rightarrow> id list \<times> workers \<times> post list" where
  "detectAndMarkLostWorkers url heartbeatTimeoutMs now ws =
     (let (lostIds, ws') = markLostWorkers heartbeatTimeoutMs now ws
      in (lostIds, ws', concat (map (\<lambda>i. case findWorker i ws' of
             None \<Rightarrow> [] | Some w \<Rightarrow> notifyWorkerLost url now i (w_hostname w)) lostIds)))"

record WorkerCounts =
  wm_total :: nat
  wm_online :: nat
  wm_busy :: nat
  wm_offline :: nat
  wm_lost :: nat
  wm_totalCapacity :: int
  wm_usedCapacity :: int

text \<open>\<^verbatim>\<open>byStatus[s] ?? 0\<close>: the number of rows in a status.\<close>

definition inStatus :: "WorkerStatus \<Rightarrow> workers \<Rightarrow> nat" where
  "inStatus st ws = length (filter (\<lambda>w. w_status w = st) ws)"

definition getWorkerMetrics :: "workers \<Rightarrow> WorkerCounts" where
  "getWorkerMetrics ws =
     (let rows = findAll None ws
      in \<lparr>wm_total = length rows, wm_online = inStatus ONLINE rows, wm_busy = inStatus BUSY rows,
          wm_offline = inStatus OFFLINE rows, wm_lost = inStatus LOST rows,
          wm_totalCapacity = sum_list (map w_maxConcurrency rows),
          wm_usedCapacity = sum_list (map w_currentJobCount rows)\<rparr>)"

section \<open>HealthCheck.ts\<close>

definition checkWorkers :: "string \<Rightarrow> time \<Rightarrow> workers \<Rightarrow> id list \<times> workers \<times> post list" where
  "checkWorkers url now ws = detectAndMarkLostWorkers url 30000 now ws"

definition refreshWorkerMetrics :: "workers \<Rightarrow> metrics \<Rightarrow> metrics" where
  "refreshWorkerMetrics ws ms =
     (let c = getWorkerMetrics ws
      in setWorkerCount ''LOST'' (of_nat (wm_lost c)) (setWorkerCount ''OFFLINE'' (of_nat (wm_offline c))
           (setWorkerCount ''BUSY'' (of_nat (wm_busy c)) (setWorkerCount ''ONLINE'' (of_nat (wm_online c)) ms))))"

definition runHealthCheck :: "string \<Rightarrow> time \<Rightarrow> workers \<times> metrics \<Rightarrow> workers \<times> metrics \<times> post list" where
  "runHealthCheck url now st =
     (let (lostIds, ws, posts) = checkWorkers url now (fst st)
      in (ws, refreshWorkerMetrics ws (snd st), posts))"

section \<open>AlertManager.ts\<close>

datatype Severity = warning | critical

record 'w AlertRule =
  ar_name :: string
  ar_description :: string
  ar_evaluate :: "'w \<Rightarrow> string + bool"
  ar_severity :: Severity

record AlertState =
  as_firing :: bool
  as_lastFiredAt :: "time option"
  as_lastResolvedAt :: "time option"
  as_firingCount :: nat

type_synonym alerts = "(string \<times> AlertState) list"

definition initial_alert :: AlertState where
  "initial_alert = \<lparr>as_firing = False, as_lastFiredAt = None, as_lastResolvedAt = None, as_firingCount = 0\<rparr>"

definition alertOf :: "alerts \<Rightarrow> string \<Rightarrow> AlertState" where
  "alertOf st n = nullish (map_of st n) initial_alert"

definition alertJob :: "'w AlertRule \<Rightarrow> NotifiedJob" where
  "alertJob rule = \<lparr>nj_id = ''alert'', nj_name = ar_name rule, nj_type = CUSTOM,
     nj_priority = (if ar_severity rule = critical then CRITICAL else HIGH), nj_retryCount = 0,
     nj_errorMessage = Some (ar_description rule)\<rparr>"

definition evaluateRule :: "string \<Rightarrow> time \<Rightarrow> 'w \<Rightarrow> 'w AlertRule \<Rightarrow> alerts \<times> post list \<Rightarrow> alerts \<times> post list" where
  "evaluateRule url now w rule st =
     (case ar_evaluate rule w of
        Inl err \<Rightarrow> st
      | Inr firing \<Rightarrow>
          (let prev = alertOf (fst st) (ar_name rule)
           in if firing \<and> \<not> as_firing prev
              then (AList.update (ar_name rule)
                      \<lparr>as_firing = True, as_lastFiredAt = Some now, as_lastResolvedAt = None,
                       as_firingCount = as_firingCount prev + 1\<rparr> (fst st),
                    snd st @ notifyJobFailed url now (alertJob rule))
              else if \<not> firing \<and> as_firing prev
              then (AList.update (ar_name rule) (prev\<lparr>as_firing := False, as_lastResolvedAt := Some now\<rparr>) (fst st),
                    snd st)
              else st))"

definition evaluateAlerts ::
  "string \<Rightarrow> time \<Rightarrow> 'w \<Rightarrow> 'w AlertRule list \<Rightarrow> alerts \<times> post list \<Rightarrow> alerts \<times> post list" where
  "evaluateAlerts url now w rules st = fold (evaluateRule url now w) rules st"

definition buildRules ::
  "(QueueJobPayload, 'q) BullQueue \<Rightarrow> (DLQEntry, 'd) BullQueue \<Rightarrow> ('q, 'd) world AlertRule list" where
  "buildRules B D =
     [\<lparr>ar_name = ''NO_ACTIVE_WORKERS'', ar_description = ''No active worker nodes detected'',
       ar_evaluate = (\<lambda>w. Inr (length (findAll (Some [ONLINE, BUSY]) (s_workers w)) = 0)), ar_severity = critical\<rparr>,
      \<lparr>ar_name = ''DLQ_THRESHOLD'', ar_description = ''Dead letter queue has more than 50 entries'',
       ar_evaluate = (\<lambda>w. Inr (dlqCount D (s_dlq w) > 50)), ar_severity = warning\<rparr>,
      \<lparr>ar_name = ''HIGH_QUEUE_DEPTH'', ar_description = ''Main job queue has more than 5000 waiting jobs'',
       ar_evaluate = (\<lambda>w. Inr (countOf ''waiting'' (getJobCounts B (s_queue w)) > 5000)), ar_severity = warning\<rparr>]"

definition getAlertStates :: "'w AlertRule list \<Rightarrow> alerts \<Rightarrow> (string \<times> AlertState \<times> Severity) list" where
  "getAlertStates rules st =
     fold (\<lambda>rule. AList.update (ar_name rule) (alertOf st (ar_name rule), ar_severity rule)) rules []"

section \<open>Timers\<close>

text \<open>
  \<^verbatim>\<open>start\<close> and \<^verbatim>\<open>stop\<close> of the alert manager and of the health check: the handle the object keeps, and the
  intervals that are running. \<^verbatim>\<open>setInterval\<close> gives a new handle and \<^verbatim>\<open>clearInterval\<close> ends the interval of a
  handle.
\<close>

record Ticker =
  tk_timer :: "nat option"
  tk_intervals :: "nat list"

definition startAlertManager :: "nat \<Rightarrow> Ticker \<Rightarrow> Ticker" where
  "startAlertManager handle t = t\<lparr>tk_timer := Some handle, tk_intervals := handle # tk_intervals t\<rparr>"

definition stopAlertManager :: "Ticker \<Rightarrow> Ticker" where
  "stopAlertManager t = (case tk_timer t of None \<Rightarrow> t | Some h \<Rightarrow> t\<lparr>tk_intervals := removeAll h (tk_intervals t)\<rparr>)"

definition startHealthCheck :: "nat \<Rightarrow> Ticker \<Rightarrow> Ticker" where
  "startHealthCheck handle t = t\<lparr>tk_timer := Some handle, tk_intervals := handle # tk_intervals t\<rparr>"

definition stopHealthCheck :: "Ticker \<Rightarrow> Ticker" where
  "stopHealthCheck t = (case tk_timer t of None \<Rightarrow> t | Some h \<Rightarrow> t\<lparr>tk_intervals := removeAll h (tk_intervals t)\<rparr>)"

section \<open>Alerts as edge detectors\<close>

text \<open>
  The abstract alert of one rule: whether it fires, how often it started to, and the number
  of webhook messages sent about it. A successful evaluation moves it, a failed one does not.
\<close>

fun edgeStep :: "string + bool \<Rightarrow> bool \<times> nat \<times> nat \<Rightarrow> bool \<times> nat \<times> nat" where
  "edgeStep (Inl err) v = v"
| "edgeStep (Inr b) (f, c, k) = (b, if b \<and> \<not> f then c + 1 else c, if b \<and> \<not> f then k + 1 else k)"

fun risingEdges :: "bool \<Rightarrow> bool list \<Rightarrow> nat" where
  "risingEdges p [] = 0"
| "risingEdges p (b # bs) = (if b \<and> \<not> p then 1 else 0) + risingEdges b bs"

fun aboutRule :: "string \<Rightarrow> post \<Rightarrow> bool" where
  "aboutRule n (PostWebhook u p) = (case np_job p of None \<Rightarrow> False | Some j \<Rightarrow> nj_name j = n)"
| "aboutRule n (PostSlack u p) = False"

definition alertView :: "string \<Rightarrow> alerts \<times> post list \<Rightarrow> bool \<times> nat \<times> nat" where
  "alertView n st = (as_firing (alertOf (fst st) n), as_firingCount (alertOf (fst st) n),
     length (filter (aboutRule n) (snd st)))"

definition outcomes :: "'w AlertRule \<Rightarrow> (time \<times> 'w) list \<Rightarrow> bool list" where
  "outcomes rule hist = concat (map (\<lambda>(t, w). case ar_evaluate rule w of Inl _ \<Rightarrow> [] | Inr b \<Rightarrow> [b]) hist)"

lemma alertOf_update [simp]: "alertOf (AList.update m v st) n = (if n = m then v else alertOf st n)"
  by (simp add: alertOf_def)

lemma aboutRule_notify:
  "url \<noteq> [] \<Longrightarrow> length (filter (aboutRule n) (notifyJobFailed url now (alertJob r))) = (if ar_name r = n then 1 else 0)"
  by (simp add: notifyJobFailed_def sendAll_def sendWebhook_def sendSlack_def alertJob_def)

lemma alertView_rule:
  assumes "url \<noteq> []"
  shows "alertView n (evaluateRule url now w r st) =
    (if ar_name r = n then edgeStep (ar_evaluate r w) (alertView n st) else alertView n st)"
  by (cases "ar_evaluate r w") (auto simp: evaluateRule_def alertView_def Let_def aboutRule_notify [OF assms])

lemma alertView_others:
  "url \<noteq> [] \<Longrightarrow> n \<notin> ar_name ` set rules \<Longrightarrow> alertView n (fold (evaluateRule url now w) rules st) = alertView n st"
  by (induction rules arbitrary: st) (auto simp: alertView_rule)

lemma alertView_evaluate:
  assumes url: "url \<noteq> []" and names: "distinct (map ar_name rules)" and rule: "rule \<in> set rules"
  shows "alertView (ar_name rule) (evaluateAlerts url now w rules st) =
    edgeStep (ar_evaluate rule w) (alertView (ar_name rule) st)"
proof -
  obtain xs ys where split: "rules = xs @ rule # ys" using rule by (meson split_list)
  then have "ar_name rule \<notin> ar_name ` set xs" "ar_name rule \<notin> ar_name ` set ys" using names by auto
  then show ?thesis by (simp add: split evaluateAlerts_def alertView_others [OF url] alertView_rule [OF url])
qed

lemma fold_edgeStep:
  "fold (\<lambda>(t, w). edgeStep (ar_evaluate rule w)) hist (f, c, k) =
     (last (f # outcomes rule hist), c + risingEdges f (outcomes rule hist), k + risingEdges f (outcomes rule hist))"
proof (induction hist arbitrary: f c k)
  case (Cons h hist)
  then show ?case by (cases h; cases "ar_evaluate rule (snd h)") (auto simp: outcomes_def)
qed (simp add: outcomes_def)

section \<open>Properties\<close>

text \<open>
  C31. An alert is an edge detector: after any history of evaluations a rule fires
  exactly if its last successful evaluation said so, its counter is the number of changes
  from quiet to firing, and one webhook message was sent per such change. Failed
  evaluations and the other rules have no influence.
\<close>

theorem alerts_refine_edges:
  assumes url: "url \<noteq> []" and names: "distinct (map ar_name rules)" and rule: "rule \<in> set rules"
    and run: "fold (\<lambda>(t, w). evaluateAlerts url t w rules) hist ([], []) = (st, posts)"
  shows "as_firing (alertOf st (ar_name rule)) = last (False # outcomes rule hist) \<and>
    as_firingCount (alertOf st (ar_name rule)) = risingEdges False (outcomes rule hist) \<and>
    length (filter (aboutRule (ar_name rule)) posts) = risingEdges False (outcomes rule hist)"
proof -
  have "alertView (ar_name rule) (fold (\<lambda>(t, w). evaluateAlerts url t w rules) hist s) =
      fold (\<lambda>(t, w). edgeStep (ar_evaluate rule w)) hist (alertView (ar_name rule) s)" for s
    by (induction hist arbitrary: s) (auto simp: alertView_evaluate [OF url names rule])
  moreover have "alertView (ar_name rule) ([], []) = (False, 0, 0)"
    by (simp add: alertView_def alertOf_def initial_alert_def)
  ultimately have "alertView (ar_name rule) (st, posts) =
      (last (False # outcomes rule hist), risingEdges False (outcomes rule hist), risingEdges False (outcomes rule hist))"
    unfolding run [symmetric] by (simp only: fold_edgeStep) simp
  then show ?thesis by (simp add: alertView_def)
qed

theorem alerts_refine_edges_witness:
  "\<exists>st posts. fold (\<lambda>(t, w). evaluateAlerts ''u'' t w (buildRules memQueue memQueue))
      [(1, sample_world []), (2, sample_world []), (3, (sample_world [])\<lparr>s_workers := [sample_worker ''w'' 0]\<rparr>), (4, sample_world [])]
      ([], []) = (st, posts) \<and>
    as_firingCount (alertOf st ''NO_ACTIVE_WORKERS'') = 2"
proof -
  let ?h = "[(1, sample_world []), (2, sample_world []), (3, (sample_world [])\<lparr>s_workers := [sample_worker ''w'' 0]\<rparr>), (4, sample_world [])]"
  let ?rules = "buildRules memQueue memQueue"
  obtain st posts where run: "fold (\<lambda>(t, w). evaluateAlerts ''u'' t w ?rules) ?h ([], []) = (st, posts)"
    by (metis surj_pair)
  have "?rules ! 0 \<in> set ?rules" "distinct (map ar_name ?rules)" by (simp_all add: buildRules_def)
  from alerts_refine_edges [OF _ this(2,1) run] run show ?thesis
    by (simp add: buildRules_def outcomes_def findAll_def sample_world_def sample_worker_def)
qed

text \<open>The workers that webhook messages report as lost.\<close>

fun lostReport :: "post \<Rightarrow> id list" where
  "lostReport (PostWebhook u p) = (case np_worker p of None \<Rightarrow> [] | Some nw \<Rightarrow> [nw_id nw])"
| "lostReport (PostSlack u p) = []"

lemma lostReport_notify:
  "url \<noteq> [] \<Longrightarrow> concat (map lostReport (notifyWorkerLost url now i h)) = [i]"
  by (simp add: notifyWorkerLost_def sendAll_def sendWebhook_def sendSlack_def)

lemma lostReports:
  assumes "url \<noteq> []" "\<And>i. i \<in> set is \<Longrightarrow> findWorker i ws \<noteq> None"
  shows "concat (map lostReport (concat (map (\<lambda>i. case findWorker i ws of None \<Rightarrow> []
    | Some w \<Rightarrow> notifyWorkerLost url now i (w_hostname w)) is))) = is"
  using assms(2)
proof (induction "is")
  case (Cons i "is")
  then obtain w where "findWorker i ws = Some w" by fastforce
  with Cons show ?case by (simp add: lostReport_notify [OF assms(1)])
qed simp

text \<open>
  A health check marks exactly the silent workers as LOST, reports each of them once,
  and the gauges it sets afterwards are the numbers of workers in each status.
\<close>

theorem runHealthCheck_correct:
  assumes url: "url \<noteq> []" and run: "runHealthCheck url now (ws, ms) = (ws', ms', posts)"
  shows "ws' = map (\<lambda>w. if silent 30000 now w then w\<lparr>w_status := LOST, w_updatedAt := now\<rparr> else w) ws \<and>
    concat (map lostReport posts) = map w_id (filter (silent 30000 now) ws) \<and>
    ms' = ms @ map (\<lambda>(n, st). SetTo ''btos_workers_total'' [(''status'', n)] (of_nat (inStatus st ws')))
      [(''ONLINE'', ONLINE), (''BUSY'', BUSY), (''OFFLINE'', OFFLINE), (''LOST'', LOST)]"
proof -
  let ?lost = "map w_id (filter (silent 30000 now) ws)"
  have ws': "ws' = map (\<lambda>w. if silent 30000 now w then w\<lparr>w_status := LOST, w_updatedAt := now\<rparr> else w) ws"
    and posts: "posts = concat (map (\<lambda>i. case findWorker i ws' of None \<Rightarrow> []
      | Some w \<Rightarrow> notifyWorkerLost url now i (w_hostname w)) ?lost)"
    and ms': "ms' = refreshWorkerMetrics ws' ms"
    using run by (auto simp: runHealthCheck_def checkWorkers_def detectAndMarkLostWorkers_def markLostWorkers_def
        updateWorkers_def Let_def)
  have "map w_id ws' = map w_id ws" by (simp add: ws')
  then have "w_id ` set ws' = w_id ` set ws" by (metis list.set_map)
  then have "findWorker i ws' \<noteq> None" if "i \<in> set ?lost" for i
    using that by (auto simp: findWorker_def find_None_iff) (metis imageE imageI)
  then have "concat (map lostReport posts) = ?lost" unfolding posts by (intro lostReports [OF url])
  then show ?thesis
    using ws' by (simp add: ms' refreshWorkerMetrics_def getWorkerMetrics_def findAll_def setWorkerCount_def Let_def)
qed

theorem runHealthCheck_correct_witness:
  "\<exists>ws' ms' posts. runHealthCheck ''u'' 40001 ([sample_worker ''w'' 0], []) = (ws', ms', posts) \<and>
     concat (map lostReport posts) = [''w'']"
proof -
  obtain ws' ms' posts where run: "runHealthCheck ''u'' 40001 ([sample_worker ''w'' 0], []) = (ws', ms', posts)"
    by (metis prod_cases3)
  from runHealthCheck_correct [OF _ run] run show ?thesis
    by (simp add: silent_def sample_worker_def)
qed

end
