(* ===== verification/Auth.thy ===== *)
theory Auth
  imports Models
begin

text \<open>
  \<^verbatim>\<open>src/api/middleware/auth.ts\<close>: authentication by JWT or API key and the check of scopes, and
  the key functions of \<^verbatim>\<open>rateLimit.ts\<close>. The token library and bcrypt are arguments: verifying
  a token gives its claims or an error, comparing a key with a hash gives a truth value.
\<close>

section \<open>State and parameters\<close>

datatype authType = jwt | apikey

record AuthUser =
  au_userId :: id
  au_organizationId :: id
  au_email :: string
  au_role :: string
  au_scopes :: "string list"
  au_authType :: authType

record Claims =
  cl_sub :: id
  cl_organizationId :: id
  cl_email :: string
  cl_role :: string
  cl_scopes :: "string list option"

datatype auth_error = TokenExpiredError | JsonWebTokenError | OtherError string

record AuthLib =
  al_verify :: "string \<Rightarrow> string \<Rightarrow> auth_error + Claims"
  al_sign :: "Claims \<Rightarrow> string \<Rightarrow> string \<Rightarrow> string"
  al_compare :: "string \<Rightarrow> string \<Rightarrow> bool"

record ApiKeyRow =
  ak_id :: id
  ak_userId :: id
  ak_organizationId :: id
  ak_key_hash :: string
  ak_key_prefix :: string
  ak_scopes :: "string list"
  ak_isActive :: bool
  ak_expiresAt :: "time option"
  ak_lastUsedAt :: "time option"

record UserRow =
  us_id :: id
  us_email :: string
  us_role :: string

record auth_db =
  ad_keys :: "ApiKeyRow list"
  ad_users :: "UserRow list"

section \<open>auth.ts\<close>

definition verifyJWT :: "AuthLib \<Rightarrow> string \<Rightarrow> string \<Rightarrow> auth_error + AuthUser" where
  "verifyJWT L secret token =
     (case al_verify L token secret of
        Inl e \<Rightarrow> Inl e
      | Inr decoded \<Rightarrow> Inr \<lparr>au_userId = cl_sub decoded, au_organizationId = cl_organizationId decoded,
          au_email = cl_email decoded, au_role = cl_role decoded,
          au_scopes = nullish (cl_scopes decoded) [''jobs:read'', ''jobs:write''], au_authType = jwt\<rparr>)"

text \<open>The join of the key rows with their users, restricted by the conditions of the query.\<close>

definition usable :: "string \<Rightarrow> time \<Rightarrow> ApiKeyRow \<Rightarrow> bool" where
  "usable prefix now k \<longleftrightarrow> ak_key_prefix k = prefix \<and> ak_isActive k \<and>
     (case ak_expiresAt k of None \<Rightarrow> True | Some t \<Rightarrow> t > now)"

definition apiKeyRows :: "string \<Rightarrow> time \<Rightarrow> auth_db \<Rightarrow> (ApiKeyRow \<times> UserRow) list" where
  "apiKeyRows prefix now adb =
     concat (map (\<lambda>k. map (\<lambda>u. (k, u)) (filter (\<lambda>u. us_id u = ak_userId k) (ad_users adb)))
       (filter (usable prefix now) (ad_keys adb)))"

definition touchKey :: "id \<Rightarrow> time \<Rightarrow> auth_db \<Rightarrow> auth_db" where
  "touchKey i now adb = adb\<lparr>ad_keys := map (\<lambda>k. if ak_id k = i then k\<lparr>ak_lastUsedAt := Some now\<rparr> else k) (ad_keys adb)\<rparr>"

definition keyUser :: "ApiKeyRow \<times> UserRow \<Rightarrow> AuthUser" where
  "keyUser row = \<lparr>au_userId = us_id (snd row), au_organizationId = ak_organizationId (fst row),
     au_email = us_email (snd row), au_role = us_role (snd row), au_scopes = ak_scopes (fst row),
     au_authType = apikey\<rparr>"

fun firstMatch :: "AuthLib \<Rightarrow> string \<Rightarrow> time \<Rightarrow> (ApiKeyRow \<times> UserRow) list \<Rightarrow> auth_db \<Rightarrow> (auth_error + AuthUser) \<times> auth_db" where
  "firstMatch L rawKey now [] adb = (Inl (OtherError ''Invalid API key''), adb)"
| "firstMatch L rawKey now (row # rows) adb =
     (if al_compare L rawKey (ak_key_hash (fst row)) then (Inr (keyUser row), touchKey (ak_id (fst row)) now adb)
      else firstMatch L rawKey now rows adb)"

definition verifyApiKey :: "AuthLib \<Rightarrow> string \<Rightarrow> time \<Rightarrow> auth_db \<Rightarrow> (auth_error + AuthUser) \<times> auth_db" where
  "verifyApiKey L rawKey now adb =
     (if rawKey = [] \<or> length rawKey < 8 then (Inl (OtherError ''Invalid API key format''), adb)
      else firstMatch L rawKey now (apiKeyRows (js_slice rawKey 0 8) now adb) adb)"

definition startsWith :: "string \<Rightarrow> string \<Rightarrow> bool" where
  "startsWith s p \<longleftrightarrow> take (length p) s = p"

text \<open>What the middleware does: answer with a status and a message, or go on as a user.\<close>

datatype auth_result = Reject nat string | Proceed AuthUser

definition checkScopes :: "string list \<Rightarrow> AuthUser \<Rightarrow> auth_result" where
  "checkScopes requiredScopes user =
     (if length requiredScopes > 0 \<and> \<not> (\<forall>s \<in> set requiredScopes. s \<in> set (au_scopes user))
      then Reject 403 ''Insufficient permissions'' else Proceed user)"

fun rejectError :: "auth_error \<Rightarrow> auth_result" where
  "rejectError TokenExpiredError = Reject 401 ''Token expired''"
| "rejectError JsonWebTokenError = Reject 401 ''Invalid token''"
| "rejectError (OtherError msg) = Reject 401 ''Authentication failed''"

definition authenticate ::
  "AuthLib \<Rightarrow> string \<Rightarrow> string list \<Rightarrow> string option \<Rightarrow> time \<Rightarrow> auth_db \<Rightarrow> auth_result \<times> auth_db" where
  "authenticate L secret requiredScopes authHeader now adb =
     (case authHeader of
        None \<Rightarrow> (Reject 401 ''Missing Authorization header'', adb)
      | Some h \<Rightarrow>
          if h = [] then (Reject 401 ''Missing Authorization header'', adb)
          else if startsWith h ''Bearer '' then
            (case verifyJWT L secret (drop 7 h) of
               Inl e \<Rightarrow> (rejectError e, adb) | Inr user \<Rightarrow> (checkScopes requiredScopes user, adb))
          else if startsWith h ''ApiKey '' then
            (case verifyApiKey L (drop 7 h) now adb of
               (Inl e, adb') \<Rightarrow> (rejectError e, adb') | (Inr user, adb') \<Rightarrow> (checkScopes requiredScopes user, adb'))
          else (Reject 401 ''Invalid authorization scheme (use Bearer or ApiKey)'', adb))"

definition generateToken :: "AuthLib \<Rightarrow> string \<Rightarrow> string \<Rightarrow> AuthUser \<Rightarrow> string" where
  "generateToken L secret expiresIn user =
     al_sign L \<lparr>cl_sub = au_userId user, cl_organizationId = au_organizationId user, cl_email = au_email user,
       cl_role = au_role user, cl_scopes = Some (au_scopes user)\<rparr> secret expiresIn"

section \<open>rateLimit.ts\<close>

definition apiRateKey :: "AuthUser option \<Rightarrow> string option \<Rightarrow> string" where
  "apiRateKey user ip = (case user of Some u \<Rightarrow> au_userId u | None \<Rightarrow> nullish ip ''unknown'')"

definition bulkRateKey :: "AuthUser option \<Rightarrow> string option \<Rightarrow> string" where
  "bulkRateKey user ip = nullish (map_option au_organizationId user) (nullish ip ''unknown'')"

section \<open>Lemmas\<close>

lemma firstMatch_sound:
  "firstMatch L raw now rows adb = (Inr user, adb') \<Longrightarrow>
   \<exists>row \<in> set rows. al_compare L raw (ak_key_hash (fst row)) \<and> user = keyUser row \<and> adb' = touchKey (ak_id (fst row)) now adb"
  by (induction rows) (auto split: if_splits)

lemma firstMatch_complete:
  "row \<in> set rows \<Longrightarrow> al_compare L raw (ak_key_hash (fst row)) \<Longrightarrow> \<exists>user adb'. firstMatch L raw now rows adb = (Inr user, adb')"
  by (induction rows) auto

lemma apiKeyRows_mem:
  "(k, u) \<in> set (apiKeyRows prefix now adb) \<longleftrightarrow>
     k \<in> set (ad_keys adb) \<and> u \<in> set (ad_users adb) \<and> usable prefix now k \<and> us_id u = ak_userId k"
  by (auto simp: apiKeyRows_def)

lemma verifyApiKey_Inr:
  assumes "verifyApiKey L raw now adb = (Inr user, adb')"
  shows "\<exists>k \<in> set (ad_keys adb). usable (take 8 raw) now k \<and> al_compare L raw (ak_key_hash k) \<and> 8 \<le> length raw \<and>
    au_organizationId user = ak_organizationId k \<and> au_scopes user = ak_scopes k \<and> au_userId user = ak_userId k"
proof -
  have len: "8 \<le> length raw" and m: "firstMatch L raw now (apiKeyRows (take 8 raw) now adb) adb = (Inr user, adb')"
    using assms by (auto simp: verifyApiKey_def js_slice_zero split: if_splits)
  from firstMatch_sound [OF m] obtain k u where "(k, u) \<in> set (apiKeyRows (take 8 raw) now adb)"
    "al_compare L raw (ak_key_hash k)" "user = keyUser (k, u)" by fastforce
  with len show ?thesis by (auto simp: apiKeyRows_mem keyUser_def intro!: bexI [of _ k])
qed

lemma checkScopes_Proceed:
  "checkScopes req user = Proceed u \<longleftrightarrow> u = user \<and> set req \<subseteq> set (au_scopes user)"
  by (auto simp: checkScopes_def)

lemma authenticate_codes:
  assumes "authenticate L secret req header now adb = (Reject code msg, adb')"
  shows "code \<in> {401, 403}"
proof -
  have "\<exists>msg. rejectError e = Reject 401 msg" for e by (cases e) auto
  then show ?thesis
    using assms
    by (auto simp: authenticate_def checkScopes_def split: option.splits if_splits sum.splits prod.splits) (metis auth_result.inject(1))+
qed

section \<open>Properties\<close>

text \<open>
  C19. Only authenticated users with all required scopes get through. A request that
  proceeds carries either a token the library accepts under the secret, and then acts as
  the subject of its claims, or a key whose first eight characters and bcrypt hash
  match an active, unexpired row, and then acts for that row's organization with
  that row's scopes. Every other request is answered 401 or 403.
\<close>

theorem authenticate_sound:
  assumes run: "authenticate L secret req header now adb = (res, adb')"
  shows "case res of
     Reject code msg \<Rightarrow> code \<in> {401, 403}
   | Proceed user \<Rightarrow> set req \<subseteq> set (au_scopes user) \<and>
       ((\<exists>token claims. header = Some (''Bearer '' @ token) \<and> al_verify L token secret = Inr claims \<and>
           au_userId user = cl_sub claims \<and> au_organizationId user = cl_organizationId claims \<and> adb' = adb) \<or>
        (\<exists>raw k. header = Some (''ApiKey '' @ raw) \<and> k \<in> set (ad_keys adb) \<and> ak_isActive k \<and>
           (\<forall>t. ak_expiresAt k = Some t \<longrightarrow> now < t) \<and> ak_key_prefix k = take 8 raw \<and> 8 \<le> length raw \<and>
           al_compare L raw (ak_key_hash k) \<and> au_organizationId user = ak_organizationId k \<and> au_scopes user = ak_scopes k))"
proof -
  have starts: "\<exists>t. h = p @ t \<and> drop 7 h = t" if "startsWith h p" "length p = 7" for h p :: string
    using that append_take_drop_id [of 7 h] by (metis startsWith_def)
  have err: "\<exists>msg. rejectError e = Reject 401 msg" for e by (cases e) auto
  show ?thesis
  proof (cases res)
    case (Reject code msg)
    then show ?thesis using authenticate_codes run by simp
  next
    case (Proceed user)
    from run Proceed obtain h where h: "header = Some h" by (auto simp: authenticate_def split: option.splits)
    consider (bearer) u where "startsWith h ''Bearer ''" "verifyJWT L secret (drop 7 h) = Inr u" "checkScopes req u = Proceed user" "adb' = adb"
      | (key) u where "startsWith h ''ApiKey ''" "verifyApiKey L (drop 7 h) now adb = (Inr u, adb')" "checkScopes req u = Proceed user"
      using run Proceed h err
      by (auto simp: authenticate_def split: if_splits sum.splits prod.splits) (metis auth_result.distinct(1))+
    then show ?thesis
    proof cases
      case bearer
      from starts [OF bearer(1)] obtain t where t: "h = ''Bearer '' @ t" "drop 7 h = t" by auto
      from bearer(2,3) obtain claims where "al_verify L t secret = Inr claims" "au_userId user = cl_sub claims"
        "au_organizationId user = cl_organizationId claims" "set req \<subseteq> set (au_scopes user)"
        by (auto simp: verifyJWT_def checkScopes_Proceed t(2) split: sum.splits)
      with bearer(4) show ?thesis by (auto simp: Proceed h t(1))
    next
      case key
      from starts [OF key(1)] obtain raw where raw: "h = ''ApiKey '' @ raw" "drop 7 h = raw" by auto
      from verifyApiKey_Inr [OF key(2)] key(3) obtain k where "k \<in> set (ad_keys adb)" "usable (take 8 raw) now k"
        "al_compare L raw (ak_key_hash k)" "8 \<le> length raw" "au_organizationId user = ak_organizationId k"
        "au_scopes user = ak_scopes k" "set req \<subseteq> set (au_scopes user)"
        by (auto simp: checkScopes_Proceed raw(2))
      then show ?thesis by (auto simp: Proceed h raw(1) usable_def split: option.splits)
    qed
  qed
qed

definition sample_lib :: AuthLib where
  "sample_lib = \<lparr>al_verify = (\<lambda>t s. Inl JsonWebTokenError), al_sign = (\<lambda>c s e. ''t''), al_compare = (=)\<rparr>"

definition sample_auth_db :: auth_db where
  "sample_auth_db = \<lparr>ad_keys = [\<lparr>ak_id = ''k'', ak_userId = ''u'', ak_organizationId = ''o'', ak_key_hash = ''12345678xyz'',
     ak_key_prefix = ''12345678'', ak_scopes = [''jobs:read''], ak_isActive = True, ak_expiresAt = None, ak_lastUsedAt = None\<rparr>],
     ad_users = [\<lparr>us_id = ''u'', us_email = ''e'', us_role = ''r''\<rparr>]\<rparr>"

theorem authenticate_sound_witness:
  "\<exists>user adb'. authenticate sample_lib ''s'' [''jobs:read''] (Some ''ApiKey 12345678xyz'') 5 sample_auth_db = (Proceed user, adb') \<and>
     set [''jobs:read''] \<subseteq> set (au_scopes user)"
proof -
  have "\<exists>user adb'. authenticate sample_lib ''s'' [''jobs:read''] (Some ''ApiKey 12345678xyz'') 5 sample_auth_db = (Proceed user, adb')"
    by (simp add: authenticate_def startsWith_def verifyApiKey_def js_slice_zero apiKeyRows_def usable_def sample_auth_db_def
        sample_lib_def checkScopes_def keyUser_def)
  then obtain user adb' where run: "authenticate sample_lib ''s'' [''jobs:read''] (Some ''ApiKey 12345678xyz'') 5 sample_auth_db = (Proceed user, adb')"
    by blast
  from authenticate_sound [OF run] run show ?thesis by auto
qed

end
