(* ===== verification/Api.thy ===== *)
theory Api
  imports JobService Monitoring Auth
begin

text \<open>
  The HTTP layer: \<^verbatim>\<open>src/api/routes/jobs.ts\<close>, \<^verbatim>\<open>workers.ts\<close>, \<^verbatim>\<open>health.ts\<close> and
  \<^verbatim>\<open>src/api/middleware/validation.ts\<close>. A route is its middleware
  chain in the order of the source followed by its handler. Whether the rate limiter stops a
  request and what the Joi schemas complain about are arguments, and so are the clock, the
  generated identifiers and the parser of cron expressions.
\<close>

section \<open>validation.ts\<close>

text \<open>A schema maps a value to the messages of its error details; no message means no error.\<close>

record schemas =
  sm_body :: "(json \<Rightarrow> string list) option"
  sm_params :: "(json \<Rightarrow> string list) option"
  sm_query :: "(json \<Rightarrow> string list) option"

definition validate :: "schemas \<Rightarrow> json \<Rightarrow> json \<Rightarrow> json \<Rightarrow> string list" where
  "validate s body params query =
     (case sm_body s of None \<Rightarrow> [] | Some v \<Rightarrow> v body) @
     (case sm_params s of None \<Rightarrow> [] | Some v \<Rightarrow> v params) @
     (case sm_query s of None \<Rightarrow> [] | Some v \<Rightarrow> v query)"

section \<open>routes/jobs.ts\<close>

datatype job_body =
    JobBody Job | PageBody PaginatedJobs | StatsBody JobStats | HistoryBody "ExecutionLog list"
  | SummaryBody nat "DLQSummaryEntry list" | CountBody nat | ReplayedBody | BulkBody "id list" "id list"
  | ErrorBody string | ValidationBody string "string list"

type_synonym job_response = "nat \<times> job_body"

fun errorMessage :: "service_error \<Rightarrow> string" where
  "errorMessage (NotFoundError m) = m"
| "errorMessage (ForbiddenError m) = m"
| "errorMessage (ConflictError m) = m"
| "errorMessage (PlainError m) = m"
| "errorMessage (DatabaseError e) = ''database error''"

definition handleError :: "service_error \<Rightarrow> job_response" where
  "handleError err =
     (let code = nullish (statusCode err) 500
      in (code, ErrorBody (if code < 500 then errorMessage err else ''Internal server error'')))"

text \<open>
  The requests, with the values the handlers take from them. The body of a submission carries
  the fields of the DTO; the handler sets the organization and the creator. The
  query of a listing is a filter, with its page and limit as \<^verbatim>\<open>Number\<close> reads them (\<open>None\<close> for NaN).
  The identifiers of a bulk request are \<open>None\<close> when the body has no array of them.
\<close>

datatype job_request =
    PostJob CreateJobDto
  | ListJobs JobFilter "int option" "int option"
  | GetStats
  | GetDLQ
  | ReplayAll
  | ReplayOne id
  | BulkCancel "id list option"
  | GetJob id
  | GetHistory id
  | CancelJob id
  | RetryJob id

fun jobScopes :: "job_request \<Rightarrow> string list" where
  "jobScopes (PostJob dto) = [''jobs:write'']"
| "jobScopes (ListJobs f p l) = [''jobs:read'']"
| "jobScopes GetStats = [''jobs:read'']"
| "jobScopes GetDLQ = [''jobs:read'']"
| "jobScopes ReplayAll = [''jobs:write'']"
| "jobScopes (ReplayOne i) = [''jobs:write'']"
| "jobScopes (BulkCancel is) = [''jobs:write'']"
| "jobScopes (GetJob i) = [''jobs:read'']"
| "jobScopes (GetHistory i) = [''jobs:read'']"
| "jobScopes (CancelJob i) = [''jobs:write'']"
| "jobScopes (RetryJob i) = [''jobs:write'']"

definition limitMessage :: "job_request \<Rightarrow> string" where
  "limitMessage req = (case req of ReplayAll \<Rightarrow> ''Bulk operation rate limit exceeded''
     | BulkCancel is \<Rightarrow> ''Bulk operation rate limit exceeded'' | _ \<Rightarrow> ''Too many requests'')"

text \<open>\<^verbatim>\<open>Number(x) || d\<close>.\<close>

definition orDefault :: "int option \<Rightarrow> int \<Rightarrow> int" where
  "orDefault x d = (case x of None \<Rightarrow> d | Some n \<Rightarrow> if n = 0 then d else n)"

definition listFilter :: "AuthUser \<Rightarrow> JobFilter \<Rightarrow> int option \<Rightarrow> int option \<Rightarrow> JobFilter" where
  "listFilter user f page limit =
     f\<lparr>f_organizationId := Some (au_organizationId user), f_page := Some (orDefault page 1),
       f_limit := Some (orDefault limit 20)\<rparr>"

definition jobDto :: "AuthUser \<Rightarrow> CreateJobDto \<Rightarrow> CreateJobDto" where
  "jobDto user body = body\<lparr>c_organizationId := au_organizationId user, c_createdBy := au_userId user\<rparr>"

record ('q, 'd) Deps =
  dp_queue :: "(QueueJobPayload, 'q) BullQueue"
  dp_dlq :: "(DLQEntry, 'd) BullQueue"
  dp_cron :: cron
  dp_newId :: id
  dp_now :: time

definition replyJob :: "service_error + Job \<times> jobs \<Rightarrow> Scheduler \<times> ('q, 'd) world \<Rightarrow> job_response \<times> Scheduler \<times> ('q, 'd) world" where
  "replyJob r st =
     (case r of Inl e \<Rightarrow> (handleError e, st) | Inr (job, db) \<Rightarrow> ((200, JobBody job), fst st, (snd st)\<lparr>s_jobs := db\<rparr>))"

fun handleJob ::
  "('q, 'd) Deps \<Rightarrow> AuthUser \<Rightarrow> job_request \<Rightarrow> Scheduler \<times> ('q, 'd) world \<Rightarrow> job_response \<times> Scheduler \<times> ('q, 'd) world" where
  "handleJob P user (PostJob body) st =
     (case createJob (dp_cron P) (dp_newId P) (dp_now P) (jobDto user body) st of
        Inl e \<Rightarrow> (handleError e, st) | Inr (job, st') \<Rightarrow> ((201, JobBody job), st'))"
| "handleJob P user (ListJobs f page limit) st =
     (case listJobs (listFilter user f page limit) (s_jobs (snd st)) of
        Inl e \<Rightarrow> (handleError (DatabaseError e), st) | Inr r \<Rightarrow> ((200, PageBody r), st))"
| "handleJob P user GetStats st =
     (case getJobStats (au_organizationId user) (s_jobs (snd st)) of
        Inl e \<Rightarrow> (handleError (DatabaseError e), st) | Inr r \<Rightarrow> ((200, StatsBody r), st))"
| "handleJob P user GetDLQ st =
     (let (count, entries) = getDLQSummary (dp_dlq P) (s_dlq (snd st)) in ((200, SummaryBody count entries), st))"
| "handleJob P user ReplayAll st =
     (let (n, d, q) = replayAllDLQ (dp_dlq P) (dp_queue P) (s_dlq (snd st), s_queue (snd st))
      in ((200, CountBody n), fst st, (snd st)\<lparr>s_dlq := d, s_queue := q\<rparr>))"
| "handleJob P user (ReplayOne i) st =
     (case replayDLQEntry (dp_dlq P) (dp_queue P) i (s_dlq (snd st), s_queue (snd st)) of
        Inl e \<Rightarrow> (handleError (PlainError e), st)
      | Inr (d, q) \<Rightarrow> ((200, ReplayedBody), fst st, (snd st)\<lparr>s_dlq := d, s_queue := q\<rparr>))"
| "handleJob P user (BulkCancel ids) st =
     (case ids of
        None \<Rightarrow> ((422, ErrorBody ''ids must be a non-empty array''), st)
      | Some is \<Rightarrow>
          if length is = 0 then ((422, ErrorBody ''ids must be a non-empty array''), st)
          else if length is > 100 then ((422, ErrorBody ''Maximum 100 IDs per bulk operation''), st)
          else (let ((cancelled, skipped), db) = bulkCancel is (au_organizationId user) (dp_now P) (s_jobs (snd st))
                in ((200, BulkBody cancelled skipped), fst st, (snd st)\<lparr>s_jobs := db\<rparr>)))"
| "handleJob P user (GetJob i) st =
     (case getJob i (au_organizationId user) (s_jobs (snd st)) of
        Inl e \<Rightarrow> (handleError e, st) | Inr job \<Rightarrow> ((200, JobBody job), st))"
| "handleJob P user (GetHistory i) st =
     (case getJobHistory i (au_organizationId user) (s_jobs (snd st)) (s_logs (snd st)) of
        Inl e \<Rightarrow> (handleError e, st) | Inr logs \<Rightarrow> ((200, HistoryBody logs), st))"
| "handleJob P user (CancelJob i) st =
     replyJob (cancelJob i (au_organizationId user) (dp_now P) (s_jobs (snd st))) st"
| "handleJob P user (RetryJob i) st =
     replyJob (retryJob i (au_organizationId user) (dp_now P) (s_jobs (snd st))) st"

text \<open>The chain of a route: rate limit, authentication, validation, handler.\<close>

definition jobsApi ::
  "('q, 'd) Deps \<Rightarrow> AuthLib \<Rightarrow> string \<Rightarrow> bool \<Rightarrow> string option \<Rightarrow> string list \<Rightarrow> job_request \<Rightarrow>
   auth_db \<times> Scheduler \<times> ('q, 'd) world \<Rightarrow> job_response \<times> auth_db \<times> Scheduler \<times> ('q, 'd) world" where
  "jobsApi P L secret limited header complaints req st =
     (if limited then ((429, ErrorBody (limitMessage req)), st)
      else case authenticate L secret (jobScopes req) header (dp_now P) (fst st) of
             (Reject code msg, adb) \<Rightarrow> ((code, ErrorBody msg), adb, snd st)
           | (Proceed user, adb) \<Rightarrow>
               if complaints \<noteq> [] then ((422, ValidationBody ''Validation failed'' complaints), adb, snd st)
               else (let (resp, st') = handleJob P user req (snd st) in (resp, adb, st')))"

section \<open>routes/workers.ts\<close>

datatype worker_request = ListWorkers | WorkerMetrics | GetWorker id

datatype worker_body = WorkersBody "WorkerNode list" | MetricsBody WorkerCounts | WorkerBody WorkerNode | WorkerError string

fun handleWorker :: "worker_request \<Rightarrow> workers \<Rightarrow> nat \<times> worker_body" where
  "handleWorker ListWorkers ws = (200, WorkersBody (listWorkers None ws))"
| "handleWorker WorkerMetrics ws = (200, MetricsBody (getWorkerMetrics ws))"
| "handleWorker (GetWorker i) ws =
     (case getWorker i ws of Inl msg \<Rightarrow> (500, WorkerError msg) | Inr w \<Rightarrow> (200, WorkerBody w))"

definition workersApi ::
  "AuthLib \<Rightarrow> string \<Rightarrow> bool \<Rightarrow> string option \<Rightarrow> time \<Rightarrow> worker_request \<Rightarrow> auth_db \<times> workers \<Rightarrow> (nat \<times> worker_body) \<times> auth_db" where
  "workersApi L secret limited header now req st =
     (if limited then ((429, WorkerError ''Too many requests''), fst st)
      else case authenticate L secret [''workers:read''] header now (fst st) of
             (Reject code msg, adb) \<Rightarrow> ((code, WorkerError msg), adb)
           | (Proceed user, adb) \<Rightarrow> (handleWorker req (snd st), adb))"

section \<open>routes/health.ts\<close>

record Check =
  ck_ok :: bool
  ck_latencyMs :: "int option"
  ck_error :: "string option"

text \<open>
  The readiness probe: \<open>dbAnswer\<close> is the outcome of \<^verbatim>\<open>SELECT 1\<close>, \<open>queueAnswer\<close> that of the queue's
  health report, each with the time it took.
\<close>

definition ready :: "int \<times> (string + unit) \<Rightarrow> int \<times> (string + QueueHealth) \<Rightarrow> nat \<times> bool \<times> Check \<times> Check" where
  "ready dbAnswer queueAnswer =
     (let postgres = (case snd dbAnswer of
            Inr _ \<Rightarrow> \<lparr>ck_ok = True, ck_latencyMs = Some (fst dbAnswer), ck_error = None\<rparr>
          | Inl msg \<Rightarrow> \<lparr>ck_ok = False, ck_latencyMs = None, ck_error = Some msg\<rparr>);
          redis = (case snd queueAnswer of
            Inr h \<Rightarrow> \<lparr>ck_ok = qh_isHealthy h, ck_latencyMs = Some (fst queueAnswer), ck_error = None\<rparr>
          | Inl msg \<Rightarrow> \<lparr>ck_ok = False, ck_latencyMs = None, ck_error = Some msg\<rparr>);
          allHealthy = (ck_ok postgres \<and> ck_ok redis)
      in (if allHealthy then 200 else 503, allHealthy, postgres, redis))"

record HealthReport =
  hr_status :: string
  hr_version :: string
  hr_uptime :: number
  hr_memory :: obj
  hr_scheduler :: SchedulerStats
  hr_queue :: QueueHealth
  hr_timestamp :: time

definition healthReport ::
  "string option \<Rightarrow> number \<Rightarrow> obj \<Rightarrow> time \<Rightarrow> SchedulerStats \<Rightarrow> string + QueueHealth \<Rightarrow> nat \<times> HealthReport" where
  "healthReport version uptime memory now stats queueAnswer =
     (200, \<lparr>hr_status = ''ok'', hr_version = nullish version ''1.0.0'', hr_uptime = uptime, hr_memory = memory,
       hr_scheduler = stats,
       hr_queue = (case queueAnswer of Inl _ \<Rightarrow> \<lparr>qh_mainQueue = [], qh_dlqCount = 0, qh_isHealthy = False\<rparr> | Inr h \<Rightarrow> h),
       hr_timestamp = now\<rparr>)"

definition live :: "time \<Rightarrow> nat \<times> string \<times> time" where
  "live now = (200, ''ok'', now)"

section \<open>Lemmas\<close>

fun bodyJobs :: "job_body \<Rightarrow> Job list" where
  "bodyJobs (JobBody j) = [j]"
| "bodyJobs (PageBody r) = pg_data r"
| "bodyJobs _ = []"

definition failure :: "job_response \<Rightarrow> bool" where
  "failure r \<longleftrightarrow> fst r \<in> {401, 403, 404, 409, 422, 429, 500} \<and>
     (\<exists>msg. snd r = ErrorBody msg \<or> (\<exists>ms. snd r = ValidationBody msg ms))"

lemma failure_handleError [simp]: "failure (handleError e)"
  by (cases e) (auto simp: failure_def handleError_def statusCode_def)

lemma handleError_code [simp]: "400 \<le> fst (handleError e)" "bodyJobs (snd (handleError e)) = []"
  by (cases e; simp add: handleError_def statusCode_def)+

text \<open>Every handler either fails and changes nothing, or answers 200 or 201.\<close>

lemma handleJob_outcome:
  assumes "handleJob P user req st = (resp, st')"
  shows "failure resp \<and> st' = st \<or> fst resp \<in> {200, 201}"
  using assms
  by (cases req)
     (auto simp: replyJob_def Let_def failure_def [of "(422, _)"] split: sum.splits prod.splits option.splits if_splits)

definition keepsOthers :: "id \<Rightarrow> jobs \<Rightarrow> jobs \<Rightarrow> bool" where
  "keepsOthers org db db' \<longleftrightarrow>
     (\<forall>x j. findById x db = Some j \<and> j_organizationId j \<noteq> org \<longrightarrow> findById x db' = Some j)"

lemma keepsOthers_refl [simp]: "keepsOthers org db db"
  by (simp add: keepsOthers_def)

lemma keepsOthers_bulk: "keepsOthers org db (snd (bulkCancel ids org now db))"
  by (simp add: keepsOthers_def bulkCancel_other)

lemma createJob_Inr:
  assumes "createJob nextCron i now dto st = Inr (job, st')"
  shows "job = newRow i now dto \<and> s_jobs (snd st') = s_jobs (snd st) @ [job]"
  using assms
  by (auto simp: createJob_def submitJob_def create_def Let_def split: option.splits sum.splits if_splits)

lemma listed_own:
  assumes "listJobs (listFilter user f page limit) db = Inr r" "au_organizationId user \<noteq> []" "j \<in> set (pg_data r)"
  shows "j_organizationId j = au_organizationId user"
proof -
  let ?f = "listFilter user f page limit"
  have "set (pg_data r) \<subseteq> set (filter (matches ?f) db)"
    using assms(1) by (auto simp: listJobs_def findMany_def Let_def split: if_splits dest!: in_set_takeD in_set_dropD)
  with assms(3) have "matches ?f j" by auto
  then show ?thesis using assms(2) by (simp add: matches_def listFilter_def optionally_def)
qed

lemma replyJob_isolated:
  assumes "replyJob r st = (resp, st')"
    and "\<And>job db. r = Inr (job, db) \<Longrightarrow> j_organizationId job = org \<and> keepsOthers org (s_jobs (snd st)) db"
  shows "(\<forall>j \<in> set (bodyJobs (snd resp)). j_organizationId j = org) \<and> keepsOthers org (s_jobs (snd st)) (s_jobs (snd st'))"
  using assms by (auto simp: replyJob_def split: sum.splits)

lemma handleJob_isolated:
  assumes run: "handleJob P user req st = (resp, st')" and org: "au_organizationId user \<noteq> []"
  shows "(\<forall>j \<in> set (bodyJobs (snd resp)). j_organizationId j = au_organizationId user) \<and>
    keepsOthers (au_organizationId user) (s_jobs (snd st)) (s_jobs (snd st'))"
proof (cases req)
  case (PostJob body)
  then show ?thesis
    using run by (auto simp: jobDto_def newRow_def keepsOthers_def findById_append dest!: createJob_Inr split: sum.splits)
next
  case (ListJobs f page limit)
  then show ?thesis using run listed_own [OF _ org] by (auto split: sum.splits)
next
  case (BulkCancel ids)
  then show ?thesis
    using run keepsOthers_bulk [of "au_organizationId user" "s_jobs (snd st)"]
    by (auto simp: Let_def case_prod_unfold split: option.splits if_splits)
next
  case (CancelJob i)
  have "replyJob (cancelJob i (au_organizationId user) (dp_now P) (s_jobs (snd st))) st = (resp, st')" using run CancelJob by simp
  then show ?thesis
    by (rule replyJob_isolated) (auto simp: keepsOthers_def cancellable_def dest: cancelJob_rows cancelJob_other)
next
  case (RetryJob i)
  have "replyJob (retryJob i (au_organizationId user) (dp_now P) (s_jobs (snd st))) st = (resp, st')" using run RetryJob by simp
  then show ?thesis
    by (rule replyJob_isolated) (auto simp: keepsOthers_def retryable_def dest: retryJob_rows retryJob_other)
qed (use run in \<open>auto simp: getJob_Inr Let_def split: sum.splits prod.splits\<close>)

section \<open>Properties\<close>


text \<open>
  The job API keeps tenants apart: whatever an authenticated user of an organization
  requests, the jobs in the answer belong to that organization and the rows of every
  other organization stay exactly as they are.
\<close>

theorem jobsApi_isolation:
  assumes run: "jobsApi P L secret limited header complaints req (adb, sc, w) = ((code, body), adb', sc', w')"
    and auth: "authenticate L secret (jobScopes req) header (dp_now P) adb = (Proceed user, adb1)"
    and org: "au_organizationId user \<noteq> []"
  shows "(\<forall>j \<in> set (bodyJobs body). j_organizationId j = au_organizationId user) \<and>
    (\<forall>x j. findById x (s_jobs w) = Some j \<and> j_organizationId j \<noteq> au_organizationId user \<longrightarrow> findById x (s_jobs w') = Some j)"
proof (cases "\<not> limited \<and> complaints = []")
  case True
  have "handleJob P user req (sc, w) = ((code, body), sc', w')"
    using run auth True by (auto simp: jobsApi_def Let_def split: prod.splits)
  from handleJob_isolated [OF this org] show ?thesis by (simp add: keepsOthers_def)
next
  case False
  then show ?thesis using run auth by (auto simp: jobsApi_def split: if_splits)
qed

definition sample_deps :: "((id \<times> QueueJobPayload) list, (id \<times> DLQEntry) list) Deps" where
  "sample_deps = \<lparr>dp_queue = memQueue, dp_dlq = memQueue, dp_cron = minutely, dp_newId = ''new'', dp_now = 5\<rparr>"

definition sample_user :: AuthUser where
  "sample_user = \<lparr>au_userId = ''u'', au_organizationId = ''o'', au_email = ''e'', au_role = ''r'',
     au_scopes = [''jobs:read''], au_authType = apikey\<rparr>"

lemma sample_login:
  "authenticate sample_lib ''s'' [''jobs:read''] (Some ''ApiKey 12345678xyz'') 5 sample_auth_db =
     (Proceed sample_user, touchKey ''k'' 5 sample_auth_db)"
  by (simp add: authenticate_def startsWith_def verifyApiKey_def js_slice_zero apiKeyRows_def usable_def sample_auth_db_def
      sample_lib_def checkScopes_def keyUser_def sample_user_def)


theorem jobsApi_isolation_witness:
  "\<exists>code body adb' sc' w'. jobsApi sample_deps sample_lib ''s'' False (Some ''ApiKey 12345678xyz'') [] (GetJob ''a'')
      (sample_auth_db, new_Scheduler, sample_world [sample_job ''a'' []]) = ((code, body), adb', sc', w') \<and>
    findById ''a'' (s_jobs w') = Some (sample_job ''a'' []) \<and> sample_job ''a'' [] \<notin> set (bodyJobs body)"
proof -
  let ?run = "jobsApi sample_deps sample_lib ''s'' False (Some ''ApiKey 12345678xyz'') [] (GetJob ''a'')
      (sample_auth_db, new_Scheduler, sample_world [sample_job ''a'' []])"
  obtain code body adb' sc' w' where run: "?run = ((code, body), adb', sc', w')" by (metis surj_pair)
  have auth: "authenticate sample_lib ''s'' (jobScopes (GetJob ''a'')) (Some ''ApiKey 12345678xyz'') (dp_now sample_deps) sample_auth_db =
      (Proceed sample_user, touchKey ''k'' 5 sample_auth_db)"
    using sample_login by (simp add: sample_deps_def)
  have "au_organizationId sample_user = ''o''" "j_organizationId (sample_job ''a'' []) = ''org1''"
    "findById ''a'' (s_jobs (sample_world [sample_job ''a'' []])) = Some (sample_job ''a'' [])"
    by (simp_all add: sample_user_def sample_job_def sample_world_def)
  with jobsApi_isolation [OF run auth] run show ?thesis by fastforce
qed

end
