(* ===== verification/GraphQL.thy ===== *)
theory GraphQL
  imports Api
begin

text \<open>
  \<^verbatim>\<open>src/api/graphql/schema.ts\<close> and \<^verbatim>\<open>src/api/graphql/resolvers.ts\<close>. The schema is data: the
  definitions of its types, read from the text the source hands to Apollo. A resolver is its
  case of \<open>resolve\<close>. What Apollo sends for an answer is \<open>gqlValue\<close>: the properties of the
  returned JavaScript object, with \<^verbatim>\<open>executionHistory\<close> of a job from its own resolver. \<open>conforms\<close>
  is the GraphQL specification's notion of a result of a type.
\<close>

section \<open>graphql/schema.ts\<close>

datatype gql_type = Named string | NonNull gql_type | ListOf gql_type

record gql_field =
  fd_name :: string
  fd_args :: "(string \<times> gql_type) list"
  fd_type :: gql_type

datatype type_def = ScalarDef | EnumDef "string list" | ObjectDef "gql_field list" | InputDef "gql_field list"

abbreviation nonNull :: "string \<Rightarrow> gql_type" where
  "nonNull n \<equiv> NonNull (Named n)"

abbreviation nonNullList :: "string \<Rightarrow> gql_type" where
  "nonNullList n \<equiv> NonNull (ListOf (nonNull n))"

definition field :: "string \<Rightarrow> gql_type \<Rightarrow> gql_field" where
  "field n t = \<lparr>fd_name = n, fd_args = [], fd_type = t\<rparr>"

definition JobStatus_enum :: "string list" where
  "JobStatus_enum = [''PENDING'', ''QUEUED'', ''RUNNING'', ''COMPLETED'', ''FAILED'', ''RETRYING'', ''CANCELLED'',
     ''TIMED_OUT'', ''SKIPPED'']"

definition JobPriority_enum :: "string list" where
  "JobPriority_enum = [''CRITICAL'', ''HIGH'', ''MEDIUM'', ''LOW'', ''BACKGROUND'']"

definition JobType_enum :: "string list" where
  "JobType_enum = [''HTTP_REQUEST'', ''SHELL_COMMAND'', ''DATA_PIPELINE'', ''EMAIL_NOTIFICATION'', ''REPORT_GENERATION'',
     ''FILE_PROCESSING'', ''DATABASE_CLEANUP'', ''WEBHOOK'', ''CUSTOM'']"

definition RetryConfig_fields :: "gql_field list" where
  "RetryConfig_fields = [field ''maxRetries'' (nonNull ''Int''), field ''retryDelay'' (nonNull ''Int''),
     field ''retryBackoff'' (nonNull ''String''), field ''retryOn'' (nonNullList ''String'')]"

definition JobDependency_fields :: "gql_field list" where
  "JobDependency_fields = [field ''jobId'' (nonNull ''ID''), field ''requireStatus'' (nonNullList ''JobStatus'')]"

definition Job_fields :: "gql_field list" where
  "Job_fields = [field ''id'' (nonNull ''ID''), field ''name'' (nonNull ''String''), field ''description'' (Named ''String''),
     field ''type'' (nonNull ''JobType''), field ''payload'' (nonNull ''JSON''), field ''status'' (nonNull ''JobStatus''),
     field ''priority'' (nonNull ''JobPriority''), field ''scheduledAt'' (Named ''DateTime''),
     field ''cronExpression'' (Named ''String''), field ''timezone'' (nonNull ''String''),
     field ''nextRunAt'' (Named ''DateTime''), field ''lastRunAt'' (Named ''DateTime''), field ''workerId'' (Named ''ID''),
     field ''startedAt'' (Named ''DateTime''), field ''completedAt'' (Named ''DateTime''),
     field ''timeoutMs'' (nonNull ''Int''), field ''retryConfig'' (nonNull ''RetryConfig''),
     field ''retryCount'' (nonNull ''Int''), field ''maxRetries'' (nonNull ''Int''),
     field ''dependencies'' (nonNullList ''JobDependency''), field ''result'' (Named ''JSON''),
     field ''errorMessage'' (Named ''String''), field ''tags'' (nonNullList ''String''), field ''createdAt'' (nonNull ''DateTime''),
     field ''updatedAt'' (nonNull ''DateTime''), field ''executionHistory'' (nonNullList ''ExecutionLog'')]"

definition ExecutionLog_fields :: "gql_field list" where
  "ExecutionLog_fields = [field ''id'' (nonNull ''ID''), field ''jobId'' (nonNull ''ID''), field ''workerId'' (nonNull ''ID''),
     field ''attemptNumber'' (nonNull ''Int''), field ''status'' (nonNull ''String''), field ''startedAt'' (nonNull ''DateTime''),
     field ''completedAt'' (Named ''DateTime''), field ''durationMs'' (Named ''Int''), field ''stdout'' (Named ''String''),
     field ''stderr'' (Named ''String''), field ''exitCode'' (Named ''Int''), field ''errorMessage'' (Named ''String''),
     field ''createdAt'' (nonNull ''DateTime'')]"

definition WorkerNode_fields :: "gql_field list" where
  "WorkerNode_fields = [field ''id'' (nonNull ''ID''), field ''hostname'' (nonNull ''String''), field ''ipAddress'' (nonNull ''String''),
     field ''pid'' (nonNull ''Int''), field ''status'' (nonNull ''String''), field ''currentJobCount'' (nonNull ''Int''),
     field ''maxConcurrency'' (nonNull ''Int''), field ''lastHeartbeatAt'' (nonNull ''DateTime''),
     field ''registeredAt'' (nonNull ''DateTime'')]"

definition PaginatedJobs_fields :: "gql_field list" where
  "PaginatedJobs_fields = [field ''data'' (nonNullList ''Job''), field ''total'' (nonNull ''Int''), field ''page'' (nonNull ''Int''),
     field ''limit'' (nonNull ''Int''), field ''totalPages'' (nonNull ''Int'')]"

definition JobStats_fields :: "gql_field list" where
  "JobStats_fields = [field ''total'' (nonNull ''Int''), field ''byStatus'' (nonNull ''JSON''),
     field ''byPriority'' (nonNull ''JSON''), field ''avgDurationMs'' (nonNull ''Float'')]"

definition QueueHealth_fields :: "gql_field list" where
  "QueueHealth_fields = [field ''mainQueue'' (nonNull ''JSON''), field ''dlqCount'' (nonNull ''Int''),
     field ''isHealthy'' (nonNull ''Boolean'')]"

definition CreateJobInput_fields :: "gql_field list" where
  "CreateJobInput_fields = [field ''name'' (nonNull ''String''), field ''description'' (Named ''String''),
     field ''type'' (nonNull ''JobType''), field ''payload'' (nonNull ''JSON''), field ''priority'' (Named ''JobPriority''),
     field ''scheduledAt'' (Named ''DateTime''), field ''cronExpression'' (Named ''String''), field ''timezone'' (Named ''String''),
     field ''timeoutMs'' (Named ''Int''), field ''tags'' (ListOf (nonNull ''String'')), field ''metadata'' (Named ''JSON'')]"

definition Query_fields :: "gql_field list" where
  "Query_fields =
     [\<lparr>fd_name = ''job'', fd_args = [(''id'', nonNull ''ID'')], fd_type = Named ''Job''\<rparr>,
      \<lparr>fd_name = ''jobs'', fd_args = [(''status'', Named ''JobStatus''), (''priority'', Named ''JobPriority''),
         (''page'', Named ''Int''), (''limit'', Named ''Int''), (''search'', Named ''String'')], fd_type = nonNull ''PaginatedJobs''\<rparr>,
      field ''jobStats'' (nonNull ''JobStats''), field ''workers'' (nonNullList ''WorkerNode''),
      field ''queueHealth'' (nonNull ''QueueHealth'')]"

definition Mutation_fields :: "gql_field list" where
  "Mutation_fields =
     [\<lparr>fd_name = ''createJob'', fd_args = [(''input'', nonNull ''CreateJobInput'')], fd_type = nonNull ''Job''\<rparr>,
      \<lparr>fd_name = ''cancelJob'', fd_args = [(''id'', nonNull ''ID'')], fd_type = nonNull ''Job''\<rparr>,
      \<lparr>fd_name = ''retryJob'', fd_args = [(''id'', nonNull ''ID'')], fd_type = nonNull ''Job''\<rparr>]"

definition typeDefs :: "(string \<times> type_def) list" where
  "typeDefs = [(''JSON'', ScalarDef), (''DateTime'', ScalarDef), (''JobStatus'', EnumDef JobStatus_enum),
     (''JobPriority'', EnumDef JobPriority_enum), (''JobType'', EnumDef JobType_enum), (''RetryConfig'', ObjectDef RetryConfig_fields),
     (''JobDependency'', ObjectDef JobDependency_fields), (''Job'', ObjectDef Job_fields),
     (''ExecutionLog'', ObjectDef ExecutionLog_fields), (''WorkerNode'', ObjectDef WorkerNode_fields),
     (''PaginatedJobs'', ObjectDef PaginatedJobs_fields), (''JobStats'', ObjectDef JobStats_fields),
     (''QueueHealth'', ObjectDef QueueHealth_fields), (''CreateJobInput'', InputDef CreateJobInput_fields),
     (''Query'', ObjectDef Query_fields), (''Mutation'', ObjectDef Mutation_fields)]"

section \<open>graphql/resolvers.ts\<close>

datatype gql_request =
    QJob id | QJobs JobFilter "int option" "int option" | QJobStats | QWorkers | QQueueHealth
  | MCreateJob CreateJobDto | MCancelJob id | MRetryJob id | QExecutionHistory Job

datatype gql_answer =
    GJob Job | GPage PaginatedJobs | GStats JobStats | GWorkers "WorkerNode list" | GHealth QueueHealth
  | GHistory "ExecutionLog list"

datatype gql_error = Unauthenticated | ServiceError service_error

definition withUser :: "AuthUser option \<Rightarrow> (AuthUser \<Rightarrow> gql_error + 'a) \<Rightarrow> gql_error + 'a" where
  "withUser ctx f = (case ctx of None \<Rightarrow> Inl Unauthenticated | Some u \<Rightarrow> f u)"

definition gqlJob :: "service_error + Job \<times> jobs \<Rightarrow> Scheduler \<times> ('q, 'd) world \<Rightarrow> gql_error + gql_answer \<times> Scheduler \<times> ('q, 'd) world" where
  "gqlJob r st = (case r of Inl e \<Rightarrow> Inl (ServiceError e) | Inr (job, db) \<Rightarrow> Inr (GJob job, fst st, (snd st)\<lparr>s_jobs := db\<rparr>))"

fun resolve ::
  "('q, 'd) Deps \<Rightarrow> AuthUser option \<Rightarrow> gql_request \<Rightarrow> Scheduler \<times> ('q, 'd) world \<Rightarrow> gql_error + gql_answer \<times> Scheduler \<times> ('q, 'd) world" where
  "resolve P ctx (QJob i) st = withUser ctx (\<lambda>u.
     case getJob i (au_organizationId u) (s_jobs (snd st)) of
       Inl e \<Rightarrow> Inl (ServiceError e) | Inr job \<Rightarrow> Inr (GJob job, st))"
| "resolve P ctx (QJobs f page limit) st = withUser ctx (\<lambda>u.
     case listJobs (f\<lparr>f_organizationId := Some (au_organizationId u), f_page := Some (nullish page 1),
         f_limit := Some (nullish limit 20)\<rparr>) (s_jobs (snd st)) of
       Inl e \<Rightarrow> Inl (ServiceError (DatabaseError e)) | Inr r \<Rightarrow> Inr (GPage r, st))"
| "resolve P ctx QJobStats st = withUser ctx (\<lambda>u.
     case getJobStats (au_organizationId u) (s_jobs (snd st)) of
       Inl e \<Rightarrow> Inl (ServiceError (DatabaseError e)) | Inr r \<Rightarrow> Inr (GStats r, st))"
| "resolve P ctx QWorkers st = Inr (GWorkers (listWorkers None (s_workers (snd st))), st)"
| "resolve P ctx QQueueHealth st =
     Inr (GHealth (getHealth (dp_queue P) (dp_dlq P) (s_queue (snd st)) (s_dlq (snd st))), st)"
| "resolve P ctx (MCreateJob input) st = withUser ctx (\<lambda>u.
     case createJob (dp_cron P) (dp_newId P) (dp_now P) (jobDto u input) st of
       Inl e \<Rightarrow> Inl (ServiceError e) | Inr (job, st') \<Rightarrow> Inr (GJob job, st'))"
| "resolve P ctx (MCancelJob i) st = withUser ctx (\<lambda>u.
     gqlJob (cancelJob i (au_organizationId u) (dp_now P) (s_jobs (snd st))) st)"
| "resolve P ctx (MRetryJob i) st = withUser ctx (\<lambda>u.
     gqlJob (retryJob i (au_organizationId u) (dp_now P) (s_jobs (snd st))) st)"
| "resolve P ctx (QExecutionHistory job) st = Inr (GHistory (findByJobId (j_id job) (s_logs (snd st))), st)"

section \<open>Answers as JavaScript objects\<close>

text \<open>An optional property is absent when it is \<^verbatim>\<open>undefined\<close>; \<open>fmt\<close> is the text of a date.\<close>

definition optProp :: "string \<Rightarrow> ('a \<Rightarrow> json) \<Rightarrow> 'a option \<Rightarrow> obj" where
  "optProp n f x = (case x of None \<Rightarrow> [] | Some v \<Rightarrow> [(n, f v)])"

abbreviation jint :: "int \<Rightarrow> json" where
  "jint i \<equiv> JNum (of_int i)"

fun backoffName :: "RetryBackoff \<Rightarrow> string" where
  "backoffName FIXED = ''FIXED''"
| "backoffName EXPONENTIAL = ''EXPONENTIAL''"
| "backoffName JITTER = ''JITTER''"

fun executionStatusName :: "ExecutionStatus \<Rightarrow> string" where
  "executionStatusName EX_RUNNING = ''RUNNING''"
| "executionStatusName EX_COMPLETED = ''COMPLETED''"
| "executionStatusName EX_FAILED = ''FAILED''"
| "executionStatusName EX_TIMED_OUT = ''TIMED_OUT''"
| "executionStatusName EX_CANCELLED = ''CANCELLED''"

fun workerStatusName :: "WorkerStatus \<Rightarrow> string" where
  "workerStatusName ONLINE = ''ONLINE''"
| "workerStatusName BUSY = ''BUSY''"
| "workerStatusName DRAINING = ''DRAINING''"
| "workerStatusName OFFLINE = ''OFFLINE''"
| "workerStatusName LOST = ''LOST''"

definition retryConfigValue :: "RetryConfig \<Rightarrow> json" where
  "retryConfigValue c = JObj [(''maxRetries'', jint (rc_maxRetries c)), (''retryDelay'', jint (rc_retryDelay c)),
     (''retryBackoff'', JStr (backoffName (rc_retryBackoff c))), (''retryOn'', JArr (map JStr (rc_retryOn c)))]"

definition dependencyValue :: "JobDependency \<Rightarrow> json" where
  "dependencyValue d = JObj [(''jobId'', JStr (dep_jobId d)),
     (''requireStatus'', JArr (map (\<lambda>s. JStr (statusName s)) (dep_requireStatus d)))]"

definition logValue :: "(time \<Rightarrow> string) \<Rightarrow> ExecutionLog \<Rightarrow> json" where
  "logValue fmt e = JObj (
     [(''id'', JStr (e_id e)), (''jobId'', JStr (e_jobId e)), (''workerId'', JStr (e_workerId e)),
      (''attemptNumber'', jint (e_attemptNumber e)), (''status'', JStr (executionStatusName (e_status e))),
      (''startedAt'', JStr (fmt (e_startedAt e)))] @
     optProp ''completedAt'' (JStr \<circ> fmt) (e_completedAt e) @ optProp ''durationMs'' jint (e_durationMs e) @
     optProp ''stdout'' JStr (e_stdout e) @ optProp ''stderr'' JStr (e_stderr e) @ optProp ''exitCode'' jint (e_exitCode e) @
     optProp ''result'' JObj (e_result e) @ optProp ''errorMessage'' JStr (e_errorMessage e) @
     optProp ''errorStack'' JStr (e_errorStack e) @ optProp ''errorCode'' JStr (e_errorCode e) @
     optProp ''peakMemoryMb'' JNum (e_peakMemoryMb e) @ optProp ''cpuPercent'' JNum (e_cpuPercent e) @
     [(''createdAt'', JStr (fmt (e_createdAt e)))])"

definition jobObject :: "(time \<Rightarrow> string) \<Rightarrow> Job \<Rightarrow> obj" where
  "jobObject fmt j =
     [(''id'', JStr (j_id j)), (''name'', JStr (j_name j))] @ optProp ''description'' JStr (j_description j) @
     [(''type'', JStr (jobTypeName (j_type j))), (''payload'', JObj (j_payload j)), (''status'', JStr (statusName (j_status j))),
      (''priority'', JStr (priorityName (j_priority j)))] @
     optProp ''scheduledAt'' (JStr \<circ> fmt) (j_scheduledAt j) @ optProp ''cronExpression'' JStr (j_cronExpression j) @
     [(''timezone'', JStr (j_timezone j))] @ optProp ''nextRunAt'' (JStr \<circ> fmt) (j_nextRunAt j) @
     optProp ''lastRunAt'' (JStr \<circ> fmt) (j_lastRunAt j) @ optProp ''workerId'' JStr (j_workerId j) @
     optProp ''startedAt'' (JStr \<circ> fmt) (j_startedAt j) @ optProp ''completedAt'' (JStr \<circ> fmt) (j_completedAt j) @
     [(''timeoutMs'', jint (j_timeoutMs j)), (''retryConfig'', retryConfigValue (j_retryConfig j)),
      (''retryCount'', jint (j_retryCount j)), (''maxRetries'', jint (j_maxRetries j)),
      (''dependencies'', JArr (map dependencyValue (j_dependencies j))), (''dependencyCount'', jint (j_dependencyCount j)),
      (''resolvedDependencyCount'', jint (j_resolvedDependencyCount j))] @
     optProp ''result'' JObj (j_result j) @ optProp ''errorMessage'' JStr (j_errorMessage j) @
     optProp ''errorStack'' JStr (j_errorStack j) @ optProp ''exitCode'' jint (j_exitCode j) @
     [(''organizationId'', JStr (j_organizationId j)), (''createdBy'', JStr (j_createdBy j)),
      (''tags'', JArr (map JStr (j_tags j))), (''metadata'', JObj (j_metadata j)),
      (''createdAt'', JStr (fmt (j_createdAt j))), (''updatedAt'', JStr (fmt (j_updatedAt j)))]"

definition jobValue :: "(time \<Rightarrow> string) \<Rightarrow> execution_logs \<Rightarrow> Job \<Rightarrow> json" where
  "jobValue fmt ls j = JObj ((''executionHistory'', JArr (map (logValue fmt) (findByJobId (j_id j) ls))) # jobObject fmt j)"

definition workerValue :: "(time \<Rightarrow> string) \<Rightarrow> WorkerNode \<Rightarrow> json" where
  "workerValue fmt w = JObj
     [(''id'', JStr (w_id w)), (''hostname'', JStr (w_hostname w)), (''ipAddress'', JStr (w_ipAddress w)), (''pid'', jint (w_pid w)),
      (''version'', JStr (w_version w)), (''status'', JStr (workerStatusName (w_status w))),
      (''currentJobCount'', jint (w_currentJobCount w)), (''maxConcurrency'', jint (w_maxConcurrency w)),
      (''lastHeartbeatAt'', JStr (fmt (w_lastHeartbeatAt w))), (''registeredAt'', JStr (fmt (w_registeredAt w))),
      (''updatedAt'', JStr (fmt (w_updatedAt w)))]"

definition counts :: "(string \<times> nat) list \<Rightarrow> json" where
  "counts cs = JObj (map (\<lambda>(k, n). (k, JNum (of_nat n))) cs)"

fun gqlValue :: "(time \<Rightarrow> string) \<Rightarrow> execution_logs \<Rightarrow> gql_answer \<Rightarrow> json" where
  "gqlValue fmt ls (GJob j) = jobValue fmt ls j"
| "gqlValue fmt ls (GPage p) = JObj ([(''data'', JArr (map (jobValue fmt ls) (pg_data p))), (''total'', JNum (of_nat (pg_total p))),
     (''page'', jint (pg_page p)), (''limit'', jint (pg_limit p))] @ optProp ''totalPages'' jint (pg_totalPages p))"
| "gqlValue fmt ls (GStats s) = JObj [(''total'', JNum (of_nat (js_total s))), (''byStatus'', counts (js_byStatus s)),
     (''byPriority'', counts (js_byPriority s)), (''avgDurationMs'', JNum (of_nat (js_avgDurationMs s)))]"
| "gqlValue fmt ls (GWorkers ws) = JArr (map (workerValue fmt) ws)"
| "gqlValue fmt ls (GHealth h) = JObj [(''mainQueue'', counts (qh_mainQueue h)), (''dlqCount'', JNum (of_nat (qh_dlqCount h))),
     (''isHealthy'', JBool (qh_isHealthy h))]"
| "gqlValue fmt ls (GHistory es) = JArr (map (logValue fmt) es)"

section \<open>Results of a type\<close>

definition int32 :: "int \<Rightarrow> bool" where
  "int32 i \<longleftrightarrow> - (2 ^ 31) \<le> i \<and> i < 2 ^ 31"

fun builtin :: "string \<Rightarrow> json \<Rightarrow> bool" where
  "builtin n (JNum x) = (n = ''Float'' \<or> n = ''Int'' \<and> x = of_int \<lfloor>x\<rfloor> \<and> int32 \<lfloor>x\<rfloor>)"
| "builtin n (JStr s) = (n = ''String'' \<or> n = ''ID'')"
| "builtin n (JBool b) = (n = ''Boolean'')"
| "builtin n v = False"

definition property :: "obj \<Rightarrow> string \<Rightarrow> json" where
  "property es k = (case map_of es k of None \<Rightarrow> JNull | Some v \<Rightarrow> v)"

lemma size_property [termination_simp]: "size (property es k) < Suc (size_list (\<lambda>p. Suc (size (snd p))) es)"
  by (induction es) (auto simp: property_def split: option.splits)

lemma size_element [termination_simp]: "x \<in> set xs \<Longrightarrow> size x < Suc (size_list size xs)"
  by (induction xs) auto

function conforms :: "(string \<times> type_def) list \<Rightarrow> gql_type \<Rightarrow> json \<Rightarrow> bool" where
  "conforms ts (NonNull t) v = (v \<noteq> JNull \<and> conforms ts t v)"
| "conforms ts (ListOf t) v = (case v of JNull \<Rightarrow> True | JArr xs \<Rightarrow> (\<forall>x \<in> set xs. conforms ts t x) | _ \<Rightarrow> False)"
| "conforms ts (Named n) v =
     (v = JNull \<or>
      (case map_of ts n of
         None \<Rightarrow> builtin n v
       | Some ScalarDef \<Rightarrow> True
       | Some (EnumDef vs) \<Rightarrow> v \<in> JStr ` set vs
       | Some (ObjectDef fs) \<Rightarrow>
           (case v of JObj es \<Rightarrow> (\<forall>f \<in> set fs. conforms ts (fd_type f) (property es (fd_name f))) | _ \<Rightarrow> False)
       | Some (InputDef fs) \<Rightarrow> False))"
  by pat_completeness auto

termination
  by (relation "measures [\<lambda>(ts, t, v). size v, \<lambda>(ts, t, v). size t]") (auto simp: termination_simp)

text \<open>The field a request is for, and its declared type.\<close>

fun opField :: "gql_request \<Rightarrow> string \<times> string" where
  "opField (QJob i) = (''Query'', ''job'')"
| "opField (QJobs f p l) = (''Query'', ''jobs'')"
| "opField QJobStats = (''Query'', ''jobStats'')"
| "opField QWorkers = (''Query'', ''workers'')"
| "opField QQueueHealth = (''Query'', ''queueHealth'')"
| "opField (MCreateJob d) = (''Mutation'', ''createJob'')"
| "opField (MCancelJob i) = (''Mutation'', ''cancelJob'')"
| "opField (MRetryJob i) = (''Mutation'', ''retryJob'')"
| "opField (QExecutionHistory j) = (''Job'', ''executionHistory'')"

definition declaredType :: "string \<times> string \<Rightarrow> gql_type option" where
  "declaredType tf = (case map_of typeDefs (fst tf) of
     Some (ObjectDef fs) \<Rightarrow> map_option fd_type (List.find (\<lambda>f. fd_name f = snd tf) fs) | _ \<Rightarrow> None)"

section \<open>Lemmas\<close>

text \<open>Looking up the types, once for each, so that the proofs below do not compare names.\<close>

lemma typeDefs_lookup [simp]:
  "map_of typeDefs ''JSON'' = Some ScalarDef" "map_of typeDefs ''DateTime'' = Some ScalarDef"
  "map_of typeDefs ''JobStatus'' = Some (EnumDef JobStatus_enum)"
  "map_of typeDefs ''JobPriority'' = Some (EnumDef JobPriority_enum)" "map_of typeDefs ''JobType'' = Some (EnumDef JobType_enum)"
  "map_of typeDefs ''RetryConfig'' = Some (ObjectDef RetryConfig_fields)"
  "map_of typeDefs ''JobDependency'' = Some (ObjectDef JobDependency_fields)" "map_of typeDefs ''Job'' = Some (ObjectDef Job_fields)"
  "map_of typeDefs ''ExecutionLog'' = Some (ObjectDef ExecutionLog_fields)"
  "map_of typeDefs ''WorkerNode'' = Some (ObjectDef WorkerNode_fields)"
  "map_of typeDefs ''PaginatedJobs'' = Some (ObjectDef PaginatedJobs_fields)"
  "map_of typeDefs ''JobStats'' = Some (ObjectDef JobStats_fields)" "map_of typeDefs ''QueueHealth'' = Some (ObjectDef QueueHealth_fields)"
  "map_of typeDefs ''CreateJobInput'' = Some (InputDef CreateJobInput_fields)"
  "map_of typeDefs ''Query'' = Some (ObjectDef Query_fields)" "map_of typeDefs ''Mutation'' = Some (ObjectDef Mutation_fields)"
  "map_of typeDefs ''Int'' = None" "map_of typeDefs ''Float'' = None" "map_of typeDefs ''String'' = None"
  "map_of typeDefs ''ID'' = None" "map_of typeDefs ''Boolean'' = None"
  by (simp_all add: typeDefs_def)

lemma conforms_leaf [simp]:
  "conforms typeDefs (Named ''String'') (JStr s)" "conforms typeDefs (Named ''ID'') (JStr s)"
  "conforms typeDefs (Named ''Int'') (jint i) = int32 i" "conforms typeDefs (Named ''Float'') (JNum x)"
  "conforms typeDefs (Named ''Boolean'') (JBool b)" "conforms typeDefs (Named ''JSON'') v" "conforms typeDefs (Named ''DateTime'') v"
  "conforms ts (Named n) JNull" "conforms ts (ListOf t) JNull"
  by simp_all

lemma conforms_count [simp]: "conforms typeDefs (Named ''Int'') (JNum (of_nat n)) = int32 (int n)"
  using conforms_leaf(3) [of "int n"] by (simp del: conforms.simps conforms_leaf)

lemma conforms_enum [simp]:
  "conforms typeDefs (Named ''JobStatus'') (JStr (statusName st))"
  "conforms typeDefs (Named ''JobPriority'') (JStr (priorityName pr))"
  "conforms typeDefs (Named ''JobType'') (JStr (jobTypeName jt))"
proof -
  show "conforms typeDefs (Named ''JobStatus'') (JStr (statusName st))" by (cases st) (simp_all add: JobStatus_enum_def)
  show "conforms typeDefs (Named ''JobPriority'') (JStr (priorityName pr))" by (cases pr) (simp_all add: JobPriority_enum_def)
  show "conforms typeDefs (Named ''JobType'') (JStr (jobTypeName jt))" by (cases jt) (simp_all add: JobType_enum_def)
qed

lemma conforms_list [simp]: "conforms ts (ListOf t) (JArr xs) = (\<forall>x \<in> set xs. conforms ts t x)"
  by simp

lemma conforms_object:
  "map_of ts n = Some (ObjectDef fs) \<Longrightarrow>
   conforms ts (Named n) (JObj es) = (\<forall>f \<in> set fs. conforms ts (fd_type f) (property es (fd_name f)))"
  by simp

declare conforms.simps(2,3) [simp del]

lemma property_simps [simp]:
  "property [] k = JNull" "property ((k', v) # es) k = (if k' = k then v else property es k)"
  "property (optProp k' f x @ es) k =
     (if k' = k then (case x of None \<Rightarrow> property es k | Some v \<Rightarrow> f v) else property es k)"
  "property (optProp k' f x) k = (if k' = k then (case x of None \<Rightarrow> JNull | Some v \<Rightarrow> f v) else JNull)"
  by (simp_all add: property_def optProp_def split: option.split)

text \<open>The integers of an answer are those of INTEGER and SMALLINT columns, and counts.\<close>

definition job_int32 :: "Job \<Rightarrow> bool" where
  "job_int32 j \<longleftrightarrow> int32 (j_timeoutMs j) \<and> int32 (j_retryCount j) \<and> int32 (j_maxRetries j) \<and>
     int32 (rc_maxRetries (j_retryConfig j)) \<and> int32 (rc_retryDelay (j_retryConfig j))"

definition log_int32 :: "ExecutionLog \<Rightarrow> bool" where
  "log_int32 e \<longleftrightarrow> int32 (e_attemptNumber e) \<and> (\<forall>d \<in> set_option (e_durationMs e). int32 d) \<and>
     (\<forall>d \<in> set_option (e_exitCode e). int32 d)"

definition worker_int32 :: "WorkerNode \<Rightarrow> bool" where
  "worker_int32 w \<longleftrightarrow> int32 (w_pid w) \<and> int32 (w_currentJobCount w) \<and> int32 (w_maxConcurrency w)"

lemma logValue_conforms: "log_int32 e \<Longrightarrow> conforms typeDefs (nonNull ''ExecutionLog'') (logValue fmt e)"
  by (simp add: logValue_def conforms_object ExecutionLog_fields_def field_def log_int32_def split: option.split)

lemma retryConfigValue_conforms:
  "int32 (rc_maxRetries c) \<Longrightarrow> int32 (rc_retryDelay c) \<Longrightarrow> conforms typeDefs (nonNull ''RetryConfig'') (retryConfigValue c)"
  by (simp add: retryConfigValue_def conforms_object RetryConfig_fields_def field_def)

lemma dependencyValue_conforms: "conforms typeDefs (nonNull ''JobDependency'') (dependencyValue d)"
  by (simp add: dependencyValue_def conforms_object JobDependency_fields_def field_def)

lemma workerValue_conforms: "worker_int32 w \<Longrightarrow> conforms typeDefs (nonNull ''WorkerNode'') (workerValue fmt w)"
  by (simp add: workerValue_def conforms_object WorkerNode_fields_def field_def worker_int32_def)

lemma jobValue_conforms:
  assumes "job_int32 j" "\<forall>e \<in> set ls. log_int32 e"
  shows "conforms typeDefs (nonNull ''Job'') (jobValue fmt ls j)"
proof -
  have "\<forall>e \<in> set (findByJobId (j_id j) ls). conforms typeDefs (nonNull ''ExecutionLog'') (logValue fmt e)"
    using assms(2) logValue_conforms by (simp add: findByJobId_def)
  with assms(1) retryConfigValue_conforms [of "j_retryConfig j"] dependencyValue_conforms show ?thesis
    by (simp add: jobValue_def jobObject_def conforms_object Job_fields_def field_def job_int32_def split: option.split)
qed

text \<open>
  The integers of the tables are those of INTEGER and SMALLINT columns, and the arguments of a query
  are values of type \<^verbatim>\<open>Int\<close>. A limit of zero is excluded: \<^verbatim>\<open>totalPages\<close> is not a number then.
\<close>

definition tables_int32 :: "('q, 'd) world \<Rightarrow> bool" where
  "tables_int32 w \<longleftrightarrow> (\<forall>j \<in> set (s_jobs w). job_int32 j) \<and> (\<forall>e \<in> set (s_logs w). log_int32 e) \<and>
     (\<forall>v \<in> set (s_workers w). worker_int32 v) \<and> int32 (int (length (s_jobs w)))"

fun args_int32 :: "gql_request \<Rightarrow> bool" where
  "args_int32 (QJobs f page limit) \<longleftrightarrow> (\<forall>p \<in> set_option page. int32 p) \<and> (\<forall>l \<in> set_option limit. int32 l \<and> l \<noteq> 0)"
| "args_int32 _ \<longleftrightarrow> True"

lemma declaredType_simps [simp]:
  "declaredType (''Query'', ''job'') = Some (Named ''Job'')"
  "declaredType (''Query'', ''jobs'') = Some (nonNull ''PaginatedJobs'')"
  "declaredType (''Query'', ''jobStats'') = Some (nonNull ''JobStats'')"
  "declaredType (''Query'', ''workers'') = Some (nonNullList ''WorkerNode'')"
  "declaredType (''Query'', ''queueHealth'') = Some (nonNull ''QueueHealth'')"
  "declaredType (''Mutation'', ''createJob'') = Some (nonNull ''Job'')"
  "declaredType (''Mutation'', ''cancelJob'') = Some (nonNull ''Job'')"
  "declaredType (''Mutation'', ''retryJob'') = Some (nonNull ''Job'')"
  "declaredType (''Job'', ''executionHistory'') = Some (nonNullList ''ExecutionLog'')"
  by (simp_all add: declaredType_def Query_fields_def Mutation_fields_def Job_fields_def field_def)

lemma int32_between: "0 \<le> i \<Longrightarrow> i \<le> n \<Longrightarrow> int32 n \<Longrightarrow> int32 i"
  by (simp add: int32_def)

lemma page_conforms:
  assumes "findMany f db = Inr p" "int32 (nullish (f_page f) 1)" "int32 (nullish (f_limit f) 20)" "nullish (f_limit f) 20 \<noteq> 0"
    and "\<forall>j \<in> set db. job_int32 j" "\<forall>e \<in> set ls. log_int32 e" "int32 (int (length db))"
  shows "conforms typeDefs (nonNull ''PaginatedJobs'') (gqlValue fmt ls (GPage p))"
proof -
  let ?limit = "nullish (f_limit f) 20" and ?rows = "filter (matches f) db"
  have p: "pg_total p = length ?rows" "pg_page p = nullish (f_page f) 1" "pg_limit p = ?limit" "0 < ?limit"
    "pg_totalPages p = Some \<lceil>of_nat (length ?rows) / of_int ?limit :: number\<rceil>" "set (pg_data p) \<subseteq> set db"
    using assms(1,4) by (auto simp: findMany_def Let_def split: if_splits dest!: in_set_takeD in_set_dropD)
  have "(of_nat (length ?rows) :: number) / of_int ?limit \<le> of_nat (length ?rows)"
    using p(4) by (simp add: divide_le_eq mult_le_cancel_left1)
  then have "\<lceil>of_nat (length ?rows) / of_int ?limit :: number\<rceil> \<le> int (length ?rows)"
    by (simp add: ceiling_le_iff)
  moreover have "0 \<le> \<lceil>of_nat (length ?rows) / of_int ?limit :: number\<rceil>"
    using p(4) by (simp add: order_less_le_trans [of "-1" 0])
  moreover have rows: "int (length ?rows) \<le> int (length db)" by simp
  ultimately have "int32 \<lceil>of_nat (length ?rows) / of_int ?limit :: number\<rceil>"
    by (intro int32_between [OF _ _ assms(7)]) linarith+
  moreover have "int32 (int (length ?rows))" by (rule int32_between [OF _ rows assms(7)]) simp
  moreover have "\<forall>j \<in> set (pg_data p). conforms typeDefs (nonNull ''Job'') (jobValue fmt ls j)"
    using assms(5,6) p(6) jobValue_conforms by blast
  ultimately show ?thesis
    using assms(2,3) by (simp add: p(1-3,5) conforms_object PaginatedJobs_fields_def field_def)
qed

lemma stats_conform:
  assumes "getJobStats org db = Inr st" "int32 (int (length db))"
  shows "conforms typeDefs (nonNull ''JobStats'') (gqlValue fmt ls (GStats st))"
proof -
  let ?n = "\<lambda>s. length (filter (\<lambda>j. (org \<noteq> [] \<longrightarrow> j_organizationId j = org) \<and> j_status j = s) db)"
  have "countStatus org db = (\<lambda>s. Inr (?n s))" by (simp add: fun_eq_iff countStatus_eq)
  then have "js_total st = sum_list (map ?n statStatuses)" using assms(1) by (auto simp: getJobStats_def promiseAll_Inr)
  also have "\<dots> \<le> length db" by (subst count_by_status) (simp_all add: statStatuses_def)
  finally have "int32 (int (js_total st))" using assms(2) by (intro int32_between [OF _ _ assms(2)]) simp_all
  then show ?thesis by (simp add: conforms_object JobStats_fields_def field_def counts_def)
qed

text \<open>A job that is answered is in the table, and its field is of type Job.\<close>

lemma resolved_job:
  assumes run: "resolve P ctx req st = Inr (GJob j, st')"
  shows "j \<in> set (s_jobs (snd st'))" and "\<exists>t \<in> {Named ''Job'', nonNull ''Job''}. declaredType (opField req) = Some t"
proof -
  have find: "x \<in> set db" if "findById i db = Some x" for i db x using that by (auto dest: findById_Some)
  show "j \<in> set (s_jobs (snd st'))"
    using run
    by (cases req; auto simp: withUser_def gqlJob_def getJob_Inr intro: find
        dest!: createJob_Inr cancelJob_rows retryJob_rows split: option.splits sum.splits)
  show "\<exists>t \<in> {Named ''Job'', nonNull ''Job''}. declaredType (opField req) = Some t"
    using run by (cases req) (auto simp: withUser_def split: option.splits sum.splits)
qed

lemma resolved_page:
  assumes "resolve P ctx req st = Inr (GPage p, st')" "tables_int32 (snd st')" "args_int32 req"
  shows "\<exists>t. declaredType (opField req) = Some t \<and> conforms typeDefs t (gqlValue fmt (s_logs (snd st')) (GPage p))"
proof -
  obtain f page limit where req: "req = QJobs f page limit"
    using assms(1) by (cases req) (auto simp: withUser_def gqlJob_def split: option.splits sum.splits)
  obtain u :: AuthUser where "findMany (f\<lparr>f_organizationId := Some (au_organizationId u), f_page := Some (nullish page 1),
       f_limit := Some (nullish limit 20)\<rparr>) (s_jobs (snd st')) = Inr p"
    using assms(1) req by (auto simp: withUser_def listJobs_def split: option.splits sum.splits)
  from page_conforms [OF this, of "s_logs (snd st')" fmt] assms(2,3) req show ?thesis
    by (cases page; cases limit) (simp_all add: tables_int32_def int32_def)
qed

section \<open>Properties\<close>


lemma tables_int32_sample: "tables_int32 (sample_world [sample_job ''a'' []])"
  by (simp add: tables_int32_def sample_world_def job_int32_def sample_job_def int32_def)


text \<open>A listing with a limit of zero has no value for the required field \<^verbatim>\<open>totalPages\<close>.\<close>

lemma gql_limit_zero:
  assumes "resolve P (Some u) (QJobs f page (Some 0)) st = Inr (ans, st')"
  shows "\<not> conforms typeDefs (nonNull ''PaginatedJobs'') (gqlValue fmt ls ans)"
  using assms
  by (auto simp: withUser_def listJobs_def findMany_def Let_def conforms_object PaginatedJobs_fields_def field_def
      split: sum.splits if_splits)

text \<open>Every field of the two root types has a resolver, and every resolver is for a declared field.\<close>

lemma resolvers_complete:
  "set (map (\<lambda>f. (''Query'', fd_name f)) Query_fields @ map (\<lambda>f. (''Mutation'', fd_name f)) Mutation_fields @
     [(''Job'', ''executionHistory'')]) = range opField"
proof -
  have "range opField \<subseteq> {(''Query'', ''job''), (''Query'', ''jobs''), (''Query'', ''jobStats''), (''Query'', ''workers''),
      (''Query'', ''queueHealth''), (''Mutation'', ''createJob''), (''Mutation'', ''cancelJob''), (''Mutation'', ''retryJob''),
      (''Job'', ''executionHistory'')}"
  proof
    fix x assume "x \<in> range opField"
    then obtain r where "x = opField r" by blast
    then show "x \<in> {(''Query'', ''job''), (''Query'', ''jobs''), (''Query'', ''jobStats''), (''Query'', ''workers''),
      (''Query'', ''queueHealth''), (''Mutation'', ''createJob''), (''Mutation'', ''cancelJob''), (''Mutation'', ''retryJob''),
      (''Job'', ''executionHistory'')}" by (cases r) simp_all
  qed
  moreover have "{opField (QJob i), opField (QJobs f p l), opField QJobStats, opField QWorkers, opField QQueueHealth,
      opField (MCreateJob d), opField (MCancelJob i), opField (MRetryJob i), opField (QExecutionHistory j)} \<subseteq> range opField" for i f p l d j
    by blast
  ultimately have "range opField = {(''Query'', ''job''), (''Query'', ''jobs''), (''Query'', ''jobStats''), (''Query'', ''workers''),
      (''Query'', ''queueHealth''), (''Mutation'', ''createJob''), (''Mutation'', ''cancelJob''), (''Mutation'', ''retryJob''),
      (''Job'', ''executionHistory'')}" by (intro equalityI) simp_all
  then show ?thesis by (simp add: Query_fields_def Mutation_fields_def field_def)
qed

end
