(* ===== verification/Rows.thy ===== *)
theory Rows
  imports GraphQL
begin

text \<open>
  Rows of the database as the repositories of \<^verbatim>\<open>src/db/repositories/\<close> see them: maps from column names to
  JavaScript values. The text that \<^verbatim>\<open>JSON.stringify\<close> makes of a value is \<open>JsonText\<close>; a JSONB column takes such a
  text and answers the value again, here with its properties in the order they were written.
  The locale \<open>row_table\<close> is the contract of a reading of rows as records with an identifier; it is interpreted for
  jobs, workers and execution logs.
\<close>

section \<open>Values and rows\<close>

datatype js_value = Undef | Null | Text string | Num int | Real number | Stamp time | Json json | JsonText json

type_synonym row = "string \<rightharpoonup> js_value"

definition nullable :: "('a \<Rightarrow> js_value) \<Rightarrow> 'a option \<Rightarrow> js_value" where
  "nullable f x = (case x of None \<Rightarrow> Null | Some v \<Rightarrow> f v)"

definition undefinable :: "('a \<Rightarrow> js_value) \<Rightarrow> 'a option \<Rightarrow> js_value" where
  "undefinable f x = (case x of None \<Rightarrow> Undef | Some v \<Rightarrow> f v)"

text \<open>The columns of type JSONB of the three tables.\<close>

definition jsonbColumns :: "string list" where
  "jsonbColumns = [''payload'', ''retry_config'', ''dependencies'', ''result'', ''metadata'', ''capabilities'', ''stats'']"

definition stored :: "string \<Rightarrow> js_value \<Rightarrow> js_value" where
  "stored c v = (case v of JsonText j \<Rightarrow> if c \<in> set jsonbColumns then Json j else v | _ \<Rightarrow> v)"

text \<open>
  \<^verbatim>\<open>INSERT\<close> takes the default of a column that is not given, \<^verbatim>\<open>UPDATE\<close> keeps such a column. The query builder
  treats a value that is \<^verbatim>\<open>undefined\<close> as not given.
\<close>

definition insertInto :: "row \<Rightarrow> row \<Rightarrow> row" where
  "insertInto defaults r c =
     (case r c of None \<Rightarrow> defaults c | Some v \<Rightarrow> if v = Undef then defaults c else Some (stored c v))"

definition setColumns :: "row \<Rightarrow> row \<Rightarrow> row" where
  "setColumns change r c =
     (case change c of None \<Rightarrow> r c | Some v \<Rightarrow> if v = Undef then r c else Some (stored c v))"

definition column :: "row \<Rightarrow> string \<Rightarrow> js_value" where
  "column r c = (case r c of None \<Rightarrow> Undef | Some v \<Rightarrow> v)"

text \<open>\<^verbatim>\<open>row.c ? new Date(row.c) : undefined\<close>, for a date or NULL.\<close>

definition dateColumn :: "row \<Rightarrow> string \<Rightarrow> js_value" where
  "dateColumn r c = (case column r c of Null \<Rightarrow> Undef | v \<Rightarrow> v)"

definition idIs :: "id \<Rightarrow> row \<Rightarrow> bool" where
  "idIs i r \<longleftrightarrow> column r ''id'' = Text i"

section \<open>Lemmas\<close>

lemma undefinable_Undef [simp]:
  "undefinable Text x = Undef \<longleftrightarrow> x = None" "undefinable Num n = Undef \<longleftrightarrow> n = None"
  "undefinable Stamp t = Undef \<longleftrightarrow> t = None" "undefinable (Text \<circ> f) y = Undef \<longleftrightarrow> y = None"
  "undefinable (Json \<circ> g) z = Undef \<longleftrightarrow> z = None" "undefinable Real q = Undef \<longleftrightarrow> q = None"
  by (auto simp: undefinable_def split: option.splits)

lemma stored_simps [simp]:
  "stored c (Text s) = Text s" "stored c (Num n) = Num n" "stored c (Stamp t) = Stamp t" "stored c (Real q) = Real q"
  "stored c Null = Null" "stored ''result'' (JsonText j) = Json j" "stored ''stats'' (JsonText j) = Json j"
  by (simp_all add: stored_def jsonbColumns_def)

lemma column_setColumns:
  "column (setColumns change r) c =
     (case change c of None \<Rightarrow> column r c | Some v \<Rightarrow> if v = Undef then column r c else stored c v)"
  by (simp add: column_def setColumns_def split: option.split)

text \<open>A reading of rows as records: the identifier column has the key of the record.\<close>

locale row_table =
  fixes rep :: "row \<Rightarrow> 'a \<Rightarrow> bool" and key :: "'a \<Rightarrow> id"
  assumes rep_key: "rep r x \<Longrightarrow> idIs i r \<longleftrightarrow> key x = i"
begin

lemma find_rep:
  assumes "list_all2 rep rows db"
  shows "rel_option rep (List.find (idIs i) rows) (List.find (\<lambda>x. key x = i) db)"
  using assms by induction (auto simp: rep_key)

lemma taken_iff:
  assumes "list_all2 rep rows db"
  shows "(\<exists>r \<in> set rows. idIs i r) \<longleftrightarrow> List.find (\<lambda>x. key x = i) db \<noteq> None"
  using find_rep [OF assms, of i] by (auto simp: find_None_iff option.rel_sel)

lemma update_where_rep:
  assumes "list_all2 rep rows db" "\<And>r x. rep r x \<Longrightarrow> q r = p x" "\<And>r x. rep r x \<Longrightarrow> p x \<Longrightarrow> rep (g r) (f x)"
  shows "list_all2 rep (map (\<lambda>r. if q r then g r else r) rows) (map (\<lambda>x. if p x then f x else x) db)"
  using assms(1) by induction (auto simp: assms(2,3))

lemma update_rep:
  assumes "list_all2 rep rows db" "\<And>r x. rep r x \<Longrightarrow> rep (g r) (f x)"
  shows "list_all2 rep (map (\<lambda>r. if idIs i r then g r else r) rows) (map (\<lambda>x. if key x = i then f x else x) db)"
  using assms by (intro update_where_rep) (auto simp: rep_key)

lemma filter_rep:
  assumes "list_all2 rep rows db"
  shows "list_all2 rep (filter (\<lambda>r. \<not> idIs i r) rows) (filter (\<lambda>x. key x \<noteq> i) db)"
  using assms by induction (auto simp: rep_key)

end

end
