(* ===== verification/JobRows.thy ===== *)
theory JobRows
  imports Rows
begin

text \<open>
  The columns behind \<^verbatim>\<open>src/db/repositories/JobRepository.ts\<close>: the row objects the repository sends to the
  database and reads back, with \<^verbatim>\<open>toRow\<close> and \<^verbatim>\<open>fromRow\<close> as they are written, and the columns and
  defaults of \<^verbatim>\<open>002_create_jobs.sql\<close>. The theorem shows that the table of \<open>Job\<close> records of \<open>JobRepository\<close>
  is what these rows stand for.
\<close>

section \<open>The table\<close>

text \<open>
  The columns with their defaults. The defaults that are not constants belong to columns that every
  insertion gives.
\<close>

definition jobDefaults :: row where
  "jobDefaults = map_of
     [(''id'', Null), (''name'', Null), (''description'', Null), (''type'', Null), (''payload'', Json (JObj [])),
      (''status'', Text ''PENDING''), (''priority'', Text ''MEDIUM''), (''scheduled_at'', Null), (''cron_expression'', Null),
      (''timezone'', Text ''UTC''), (''next_run_at'', Null), (''last_run_at'', Null), (''worker_id'', Null),
      (''started_at'', Null), (''completed_at'', Null), (''timeout_ms'', Num 300000),
      (''retry_config'', Json (retryConfigValue (retryConfigOf None))), (''retry_count'', Num 0), (''max_retries'', Num 3),
      (''dependencies'', Json (JArr [])), (''dependency_count'', Num 0), (''resolved_dependency_count'', Num 0),
      (''result'', Null), (''error_message'', Null), (''error_stack'', Null), (''exit_code'', Null),
      (''organization_id'', Null), (''created_by'', Null), (''tags'', Json (JArr [])), (''metadata'', Json (JObj [])),
      (''created_at'', Null), (''updated_at'', Null)]"

definition insertRow :: "row \<Rightarrow> row" where
  "insertRow r = insertInto jobDefaults r"

text \<open>The trigger of the table sets \<^verbatim>\<open>updated_at\<close> after every update.\<close>

definition updateRow :: "row \<Rightarrow> time \<Rightarrow> row \<Rightarrow> row" where
  "updateRow change now r = (setColumns change r)(''updated_at'' \<mapsto> Stamp now)"

section \<open>toRow and fromRow\<close>

definition columnMap :: "(string \<times> string) list" where
  "columnMap =
     [(''scheduledAt'', ''scheduled_at''), (''cronExpression'', ''cron_expression''), (''nextRunAt'', ''next_run_at''),
      (''lastRunAt'', ''last_run_at''), (''workerId'', ''worker_id''), (''startedAt'', ''started_at''),
      (''completedAt'', ''completed_at''), (''timeoutMs'', ''timeout_ms''), (''retryConfig'', ''retry_config''),
      (''retryCount'', ''retry_count''), (''maxRetries'', ''max_retries''), (''dependencyCount'', ''dependency_count''),
      (''resolvedDependencyCount'', ''resolved_dependency_count''), (''errorMessage'', ''error_message''),
      (''errorStack'', ''error_stack''), (''exitCode'', ''exit_code''), (''organizationId'', ''organization_id''),
      (''createdBy'', ''created_by''), (''createdAt'', ''created_at''), (''updatedAt'', ''updated_at'')]"

definition columnOf :: "string \<Rightarrow> string" where
  "columnOf key = nullish (map_of columnMap key) key"

definition stringified :: "js_value \<Rightarrow> js_value" where
  "stringified v = (case v of Json j \<Rightarrow> JsonText j | _ \<Rightarrow> v)"

definition putEntry :: "string \<times> js_value \<Rightarrow> row \<Rightarrow> row" where
  "putEntry kv r = (if snd kv = Undef then r else r(columnOf (fst kv) \<mapsto> stringified (snd kv)))"

definition toRowObject :: "(string \<times> js_value) list \<Rightarrow> row" where
  "toRowObject data = fold putEntry data Map.empty"

text \<open>The properties of an update, as \<^verbatim>\<open>Object.entries\<close> lists them.\<close>

definition updateEntries :: "UpdateJobDto \<Rightarrow> (string \<times> js_value) list" where
  "updateEntries dto =
     [(''status'', undefinable (Text \<circ> statusName) (u_status dto)), (''workerId'', undefinable Text (u_workerId dto)),
      (''startedAt'', undefinable Stamp (u_startedAt dto)), (''completedAt'', undefinable Stamp (u_completedAt dto)),
      (''result'', undefinable (Json \<circ> JObj) (u_result dto)), (''errorMessage'', undefinable Text (u_errorMessage dto)),
      (''errorStack'', undefinable Text (u_errorStack dto)), (''exitCode'', undefinable Num (u_exitCode dto)),
      (''retryCount'', undefinable Num (u_retryCount dto)), (''nextRunAt'', undefinable Stamp (u_nextRunAt dto)),
      (''lastRunAt'', undefinable Stamp (u_lastRunAt dto)),
      (''resolvedDependencyCount'', undefinable Num (u_resolvedDependencyCount dto))]"

definition createRow :: "id \<Rightarrow> time \<Rightarrow> CreateJobDto \<Rightarrow> row" where
  "createRow newId now dto = map_of
     [(''id'', Text newId), (''name'', Text (c_name dto)), (''description'', undefinable Text (c_description dto)),
      (''type'', Text (jobTypeName (c_type dto))), (''payload'', JsonText (JObj (c_payload dto))),
      (''status'', Text ''PENDING''), (''priority'', Text (priorityName (nullish (c_priority dto) MEDIUM))),
      (''scheduled_at'', nullable Stamp (c_scheduledAt dto)), (''cron_expression'', nullable Text (c_cronExpression dto)),
      (''timezone'', Text (nullish (c_timezone dto) ''UTC'')), (''timeout_ms'', Num (nullish (c_timeoutMs dto) 300000)),
      (''retry_config'', JsonText (JObj
        [(''maxRetries'', jint (nullish (Option.bind (c_retryConfig dto) prc_maxRetries) 3)),
         (''retryDelay'', jint (nullish (Option.bind (c_retryConfig dto) prc_retryDelay) 5000)),
         (''retryBackoff'', JStr (backoffName (nullish (Option.bind (c_retryConfig dto) prc_retryBackoff) EXPONENTIAL))),
         (''retryOn'', JArr (map JStr (nullish (Option.bind (c_retryConfig dto) prc_retryOn) [])))])),
      (''max_retries'', Num (nullish (Option.bind (c_retryConfig dto) prc_maxRetries) 3)), (''retry_count'', Num 0),
      (''dependencies'', JsonText (JArr (map dependencyValue (nullish (c_dependencies dto) [])))),
      (''dependency_count'', Num (int (length (nullish (c_dependencies dto) [])))),
      (''resolved_dependency_count'', Num 0), (''organization_id'', Text (c_organizationId dto)),
      (''created_by'', Text (c_createdBy dto)), (''tags'', Json (JArr (map JStr (nullish (c_tags dto) [])))),
      (''metadata'', JsonText (JObj (nullish (c_metadata dto) []))), (''created_at'', Stamp now), (''updated_at'', Stamp now)]"

definition fromRow :: "row \<Rightarrow> (string \<times> js_value) list" where
  "fromRow r =
     [(''id'', column r ''id''), (''name'', column r ''name''), (''description'', column r ''description''),
      (''type'', column r ''type''), (''payload'', column r ''payload''), (''status'', column r ''status''),
      (''priority'', column r ''priority''), (''scheduledAt'', dateColumn r ''scheduled_at''),
      (''cronExpression'', column r ''cron_expression''), (''timezone'', column r ''timezone''),
      (''nextRunAt'', dateColumn r ''next_run_at''), (''lastRunAt'', dateColumn r ''last_run_at''),
      (''workerId'', column r ''worker_id''), (''startedAt'', dateColumn r ''started_at''),
      (''completedAt'', dateColumn r ''completed_at''), (''timeoutMs'', column r ''timeout_ms''),
      (''retryConfig'', column r ''retry_config''), (''retryCount'', column r ''retry_count''),
      (''maxRetries'', column r ''max_retries''), (''dependencies'', column r ''dependencies''),
      (''dependencyCount'', column r ''dependency_count''),
      (''resolvedDependencyCount'', column r ''resolved_dependency_count''), (''result'', column r ''result''),
      (''errorMessage'', column r ''error_message''), (''errorStack'', column r ''error_stack''),
      (''exitCode'', column r ''exit_code''), (''organizationId'', column r ''organization_id''),
      (''createdBy'', column r ''created_by''), (''tags'', column r ''tags''), (''metadata'', column r ''metadata''),
      (''createdAt'', column r ''created_at''), (''updatedAt'', column r ''updated_at'')]"

section \<open>Statements\<close>

type_synonym job_rows = "row list"

definition insertJob :: "id \<Rightarrow> time \<Rightarrow> CreateJobDto \<Rightarrow> job_rows \<Rightarrow> db_error + (string \<times> js_value) list \<times> job_rows" where
  "insertJob newId now dto rows =
     (if \<exists>r \<in> set rows. idIs newId r then Inl (UniqueViolation newId)
      else let inserted = insertRow (createRow newId now dto) in Inr (fromRow inserted, rows @ [inserted]))"

definition selectJob :: "id \<Rightarrow> job_rows \<Rightarrow> (string \<times> js_value) list option" where
  "selectJob i rows = map_option fromRow (List.find (idIs i) rows)"

definition updateJob :: "id \<Rightarrow> UpdateJobDto \<Rightarrow> time \<Rightarrow> job_rows \<Rightarrow> (string \<times> js_value) list option \<times> job_rows" where
  "updateJob i dto now rows =
     (let rows' = map (\<lambda>r. if idIs i r then updateRow (toRowObject (updateEntries dto)) now r else r) rows
      in (map_option fromRow (List.find (idIs i) rows'), rows'))"

definition deleteJob :: "id \<Rightarrow> job_rows \<Rightarrow> bool \<times> job_rows" where
  "deleteJob i rows = (let rows' = filter (\<lambda>r. \<not> idIs i r) rows in (length rows' < length rows, rows'))"

section \<open>Lemmas\<close>

text \<open>The object that stands for a job: an absent date is \<^verbatim>\<open>undefined\<close>, every other absent value is \<^verbatim>\<open>null\<close>.\<close>

definition jobProps :: "Job \<Rightarrow> (string \<times> js_value) list" where
  "jobProps j =
     [(''id'', Text (j_id j)), (''name'', Text (j_name j)), (''description'', nullable Text (j_description j)),
      (''type'', Text (jobTypeName (j_type j))), (''payload'', Json (JObj (j_payload j))),
      (''status'', Text (statusName (j_status j))), (''priority'', Text (priorityName (j_priority j))),
      (''scheduledAt'', undefinable Stamp (j_scheduledAt j)), (''cronExpression'', nullable Text (j_cronExpression j)),
      (''timezone'', Text (j_timezone j)), (''nextRunAt'', undefinable Stamp (j_nextRunAt j)),
      (''lastRunAt'', undefinable Stamp (j_lastRunAt j)), (''workerId'', nullable Text (j_workerId j)),
      (''startedAt'', undefinable Stamp (j_startedAt j)), (''completedAt'', undefinable Stamp (j_completedAt j)),
      (''timeoutMs'', Num (j_timeoutMs j)), (''retryConfig'', Json (retryConfigValue (j_retryConfig j))),
      (''retryCount'', Num (j_retryCount j)), (''maxRetries'', Num (j_maxRetries j)),
      (''dependencies'', Json (JArr (map dependencyValue (j_dependencies j)))),
      (''dependencyCount'', Num (j_dependencyCount j)),
      (''resolvedDependencyCount'', Num (j_resolvedDependencyCount j)),
      (''result'', nullable (Json \<circ> JObj) (j_result j)), (''errorMessage'', nullable Text (j_errorMessage j)),
      (''errorStack'', nullable Text (j_errorStack j)), (''exitCode'', nullable Num (j_exitCode j)),
      (''organizationId'', Text (j_organizationId j)), (''createdBy'', Text (j_createdBy j)),
      (''tags'', Json (JArr (map JStr (j_tags j)))), (''metadata'', Json (JObj (j_metadata j))),
      (''createdAt'', Stamp (j_createdAt j)), (''updatedAt'', Stamp (j_updatedAt j))]"

definition reads :: "row \<Rightarrow> Job \<Rightarrow> bool" where
  "reads r j \<longleftrightarrow> fromRow r = jobProps j"

lemma putEntry_apply:
  "putEntry (k, v) r c = (if v \<noteq> Undef \<and> columnOf k = c then Some (stringified v) else r c)"
  by (simp add: putEntry_def)

lemma columnOf_simps:
  "columnOf ''status'' = ''status''" "columnOf ''workerId'' = ''worker_id''" "columnOf ''startedAt'' = ''started_at''"
  "columnOf ''completedAt'' = ''completed_at''" "columnOf ''result'' = ''result''" "columnOf ''errorMessage'' = ''error_message''"
  "columnOf ''errorStack'' = ''error_stack''" "columnOf ''exitCode'' = ''exit_code''" "columnOf ''retryCount'' = ''retry_count''"
  "columnOf ''nextRunAt'' = ''next_run_at''" "columnOf ''lastRunAt'' = ''last_run_at''"
  "columnOf ''resolvedDependencyCount'' = ''resolved_dependency_count''"
  by (simp_all add: columnOf_def columnMap_def)

lemma reads_insert: "reads (insertRow (createRow newId now dto)) (newRow newId now dto)"
  by (simp add: reads_def fromRow_def jobProps_def column_def dateColumn_def insertRow_def insertInto_def createRow_def newRow_def
      jobDefaults_def stored_def jsonbColumns_def nullable_def undefinable_def retryConfigOf_def retryConfigValue_def
      split: option.split)

text \<open>The columns that an update writes, and those that it never does.\<close>

lemma written_columns:
  "toRowObject (updateEntries dto) ''status'' = map_option (Text \<circ> statusName) (u_status dto)"
  "toRowObject (updateEntries dto) ''worker_id'' = map_option Text (u_workerId dto)"
  "toRowObject (updateEntries dto) ''started_at'' = map_option Stamp (u_startedAt dto)"
  "toRowObject (updateEntries dto) ''completed_at'' = map_option Stamp (u_completedAt dto)"
  "toRowObject (updateEntries dto) ''result'' = map_option (JsonText \<circ> JObj) (u_result dto)"
  "toRowObject (updateEntries dto) ''error_message'' = map_option Text (u_errorMessage dto)"
  "toRowObject (updateEntries dto) ''error_stack'' = map_option Text (u_errorStack dto)"
  "toRowObject (updateEntries dto) ''exit_code'' = map_option Num (u_exitCode dto)"
  "toRowObject (updateEntries dto) ''retry_count'' = map_option Num (u_retryCount dto)"
  "toRowObject (updateEntries dto) ''next_run_at'' = map_option Stamp (u_nextRunAt dto)"
  "toRowObject (updateEntries dto) ''last_run_at'' = map_option Stamp (u_lastRunAt dto)"
  "toRowObject (updateEntries dto) ''resolved_dependency_count'' = map_option Num (u_resolvedDependencyCount dto)"
  by (simp_all add: toRowObject_def updateEntries_def putEntry_apply columnOf_simps)
     (auto simp: undefinable_def stringified_def)

lemma kept_columns:
  "toRowObject (updateEntries dto) ''id'' = None"
  "toRowObject (updateEntries dto) ''name'' = None"
  "toRowObject (updateEntries dto) ''description'' = None"
  "toRowObject (updateEntries dto) ''type'' = None"
  "toRowObject (updateEntries dto) ''payload'' = None"
  "toRowObject (updateEntries dto) ''priority'' = None"
  "toRowObject (updateEntries dto) ''scheduled_at'' = None"
  "toRowObject (updateEntries dto) ''cron_expression'' = None"
  "toRowObject (updateEntries dto) ''timezone'' = None"
  "toRowObject (updateEntries dto) ''timeout_ms'' = None"
  "toRowObject (updateEntries dto) ''retry_config'' = None"
  "toRowObject (updateEntries dto) ''max_retries'' = None"
  "toRowObject (updateEntries dto) ''dependencies'' = None"
  "toRowObject (updateEntries dto) ''dependency_count'' = None"
  "toRowObject (updateEntries dto) ''organization_id'' = None"
  "toRowObject (updateEntries dto) ''created_by'' = None"
  "toRowObject (updateEntries dto) ''tags'' = None"
  "toRowObject (updateEntries dto) ''metadata'' = None"
  "toRowObject (updateEntries dto) ''created_at'' = None"
  by (simp_all add: toRowObject_def updateEntries_def putEntry_apply columnOf_simps)

lemma column_updateRow:
  "column (updateRow ch now r) c =
     (if c = ''updated_at'' then Stamp now
      else case ch c of None \<Rightarrow> column r c | Some v \<Rightarrow> if v = Undef then column r c else stored c v)"
  by (simp add: column_def updateRow_def setColumns_def split: option.split)

lemma dateColumn_updateRow:
  "c \<noteq> ''updated_at'' \<Longrightarrow> ch c = map_option Stamp x \<Longrightarrow> dateColumn r c = undefinable Stamp y \<Longrightarrow>
   dateColumn (updateRow ch now r) c = undefinable Stamp (orKeep x y)"
  "c \<noteq> ''updated_at'' \<Longrightarrow> ch c = None \<Longrightarrow> dateColumn (updateRow ch now r) c = dateColumn r c"
  by (auto simp: dateColumn_def column_updateRow undefinable_def orKeep_def split: option.splits)

lemma reads_update:
  assumes "reads r j"
  shows "reads (updateRow (toRowObject (updateEntries dto)) now r) (applyUpdate dto now j)"
  using assms
  by (simp add: reads_def fromRow_def jobProps_def column_updateRow dateColumn_updateRow written_columns kept_columns
      applyUpdate_def toRow_def)
     (intro conjI; simp add: nullable_def orKeep_def nullish_def split: option.split)

interpretation job_rows: row_table reads j_id
  by unfold_locales (simp add: reads_def fromRow_def jobProps_def idIs_def)

abbreviation table_reads :: "job_rows \<Rightarrow> jobs \<Rightarrow> bool" where
  "table_reads \<equiv> list_all2 reads"

lemma selectJob_refines: "table_reads rows db \<Longrightarrow> selectJob i rows = map_option jobProps (findById i db)"
  using job_rows.find_rep [of rows db i]
  by (auto simp: selectJob_def findById_def reads_def elim: option.rel_cases)

section \<open>Properties\<close>

text \<open>
  C17. The table of job records is what the rows of the database stand for: creating, reading, updating
  and deleting a job through \<^verbatim>\<open>toRow\<close>, \<^verbatim>\<open>fromRow\<close>, the column names and the defaults answers what the
  operations on records answer, and leads to rows that stand for their result. In particular
  every property of an update reaches the column that \<^verbatim>\<open>fromRow\<close> reads it from.
\<close>

theorem job_rows_refine:
  assumes tab: "table_reads rows db"
  shows "rel_sum (=) (rel_prod (\<lambda>obj j. obj = jobProps j) table_reads) (insertJob newId now dto rows) (create newId now dto db) \<and>
    selectJob i rows = map_option jobProps (findById i db) \<and>
    rel_prod (\<lambda>obj j. obj = map_option jobProps j) table_reads (updateJob i change now rows) (update i change now db) \<and>
    rel_prod (=) table_reads (deleteJob i rows) (delete i db)"
proof (intro conjI)
  have "(\<exists>r \<in> set rows. idIs newId r) \<longleftrightarrow> findById newId db \<noteq> None"
    using job_rows.taken_iff [OF tab] by (simp add: findById_def)
  then show "rel_sum (=) (rel_prod (\<lambda>obj j. obj = jobProps j) table_reads) (insertJob newId now dto rows) (create newId now dto db)"
    using tab reads_insert [of newId now dto]
    by (simp add: insertJob_def create_def Let_def list_all2_appendI reads_def)
  show "selectJob i rows = map_option jobProps (findById i db)" by (rule selectJob_refines [OF tab])
  show "rel_prod (\<lambda>obj j. obj = map_option jobProps j) table_reads (updateJob i change now rows) (update i change now db)"
    using job_rows.update_rep [OF tab reads_update] selectJob_refines [where i = i, OF job_rows.update_rep [OF tab reads_update]]
    by (simp add: updateJob_def update_def updateWhere_def Let_def selectJob_def)
  show "rel_prod (=) table_reads (deleteJob i rows) (delete i db)"
    using job_rows.filter_rep [OF tab] list_all2_lengthD [OF tab] list_all2_lengthD [OF job_rows.filter_rep [OF tab]]
    by (simp add: deleteJob_def delete_def Let_def)
qed

theorem job_rows_refine_witness:
  "map_of (the (fst (updateJob ''a'' (empty_update\<lparr>u_status := Some RUNNING\<rparr>) 9 [insertRow (createRow ''a'' 5 (sample_dto None))])))
     ''status'' = Some (Text ''RUNNING'')"
proof -
  let ?rows = "[insertRow (createRow ''a'' 5 (sample_dto None))]" and ?db = "[newRow ''a'' 5 (sample_dto None)]"
  let ?dto = "empty_update\<lparr>u_status := Some RUNNING\<rparr>"
  have "table_reads ?rows ?db" by (simp add: reads_insert)
  from job_rows_refine [OF this, of "''b''" 9 "sample_dto None" "''a''" ?dto]
  have "rel_prod (\<lambda>obj j. obj = map_option jobProps j) table_reads (updateJob ''a'' ?dto 9 ?rows) (update ''a'' ?dto 9 ?db)"
    by blast
  then have "fst (updateJob ''a'' ?dto 9 ?rows) = map_option jobProps (fst (update ''a'' ?dto 9 ?db))" by (cases "updateJob ''a'' ?dto 9 ?rows"; cases "update ''a'' ?dto 9 ?db") simp
  then show ?thesis by (simp add: update_def updateWhere_def newRow_def applyUpdate_def toRow_def empty_update_def jobProps_def findById_def)
qed

end
