(* ===== verification/WorkerLogRows.thy ===== *)
theory WorkerLogRows
  imports Rows
begin

text \<open>
  The columns behind \<^verbatim>\<open>src/db/repositories/WorkerRepository.ts\<close> and \<^verbatim>\<open>ExecutionRepository.ts\<close>: the rows their
  statements write, \<^verbatim>\<open>fromRow\<close> of each, and the columns of \<^verbatim>\<open>003_create_workers_execution_logs.sql\<close>.
  The theorems show that the tables of records of \<open>WorkerRepository\<close> and \<open>ExecutionRepository\<close> are what
  these rows stand for.
\<close>

section \<open>Workers\<close>

definition capabilitiesValue :: "WorkerCapabilities \<Rightarrow> json" where
  "capabilitiesValue c = JObj (
     [(''jobTypes'', JArr (map (\<lambda>t. JStr (jobTypeName t)) (cap_jobTypes c))), (''maxConcurrency'', jint (cap_maxConcurrency c)),
      (''gpuEnabled'', JBool (cap_gpuEnabled c))] @ optProp ''region'' JStr (cap_region c) @
     [(''labels'', JObj (map (\<lambda>(k, v). (k, JStr v)) (cap_labels c)))])"

definition statsValue :: "WorkerStats \<Rightarrow> json" where
  "statsValue s = JObj (
     optProp ''totalJobsProcessed'' jint (ws_totalJobsProcessed s) @ optProp ''totalJobsSucceeded'' jint (ws_totalJobsSucceeded s) @
     optProp ''totalJobsFailed'' jint (ws_totalJobsFailed s) @ optProp ''totalJobsTimedOut'' jint (ws_totalJobsTimedOut s) @
     optProp ''averageJobDurationMs'' JNum (ws_averageJobDurationMs s) @ optProp ''uptimeMs'' jint (ws_uptimeMs s) @
     optProp ''currentLoad'' JNum (ws_currentLoad s))"

text \<open>Every column is given by the insertion of a worker.\<close>

definition workerDefaults :: row where
  "workerDefaults = map_of
     [(''id'', Null), (''hostname'', Null), (''ip_address'', Null), (''pid'', Null), (''version'', Null),
      (''status'', Text ''ONLINE''), (''capabilities'', Json (JObj [])), (''stats'', Null),
      (''current_job_count'', Num 0), (''max_concurrency'', Num 10), (''last_heartbeat_at'', Null),
      (''registered_at'', Null), (''updated_at'', Null)]"

definition workerRow :: "id \<Rightarrow> time \<Rightarrow> RegisterWorkerDto \<Rightarrow> row" where
  "workerRow newId now dto = map_of
     [(''id'', Text newId), (''hostname'', Text (rw_hostname dto)), (''ip_address'', Text (rw_ipAddress dto)),
      (''pid'', Num (rw_pid dto)), (''version'', Text (rw_version dto)), (''status'', Text ''ONLINE''),
      (''capabilities'', JsonText (capabilitiesValue (rw_capabilities dto))),
      (''stats'', JsonText (JObj [(''totalJobsProcessed'', JNum 0), (''totalJobsSucceeded'', JNum 0), (''totalJobsFailed'', JNum 0),
         (''totalJobsTimedOut'', JNum 0), (''averageJobDurationMs'', JNum 0), (''uptimeMs'', JNum 0), (''currentLoad'', JNum 0)])),
      (''current_job_count'', Num 0), (''max_concurrency'', Num (cap_maxConcurrency (rw_capabilities dto))),
      (''last_heartbeat_at'', Stamp now), (''registered_at'', Stamp now), (''updated_at'', Stamp now)]"

definition workerFromRow :: "row \<Rightarrow> (string \<times> js_value) list" where
  "workerFromRow r =
     [(''id'', column r ''id''), (''hostname'', column r ''hostname''), (''ipAddress'', column r ''ip_address''),
      (''pid'', column r ''pid''), (''version'', column r ''version''), (''status'', column r ''status''),
      (''capabilities'', column r ''capabilities''), (''stats'', column r ''stats''),
      (''currentJobCount'', column r ''current_job_count''), (''maxConcurrency'', column r ''max_concurrency''),
      (''lastHeartbeatAt'', column r ''last_heartbeat_at''), (''registeredAt'', column r ''registered_at''),
      (''updatedAt'', column r ''updated_at'')]"

definition heartbeatColumns :: "WorkerHeartbeatDto \<Rightarrow> time \<Rightarrow> row" where
  "heartbeatColumns dto now = map_of
     [(''status'', Text (workerStatusName (hb_status dto))), (''current_job_count'', Num (hb_currentJobCount dto)),
      (''last_heartbeat_at'', Stamp (hb_timestamp dto)), (''stats'', JsonText (statsValue (hb_stats dto))),
      (''updated_at'', Stamp now)]"

definition statusColumns :: "WorkerStatus \<Rightarrow> time \<Rightarrow> row" where
  "statusColumns st now = map_of [(''status'', Text (workerStatusName st)), (''updated_at'', Stamp now)]"

definition insertWorker :: "id \<Rightarrow> time \<Rightarrow> RegisterWorkerDto \<Rightarrow> row list \<Rightarrow> (string \<times> js_value) list \<times> row list" where
  "insertWorker newId now dto rows =
     (let inserted = insertInto workerDefaults (workerRow newId now dto) in (workerFromRow inserted, rows @ [inserted]))"

definition updateById :: "id \<Rightarrow> row \<Rightarrow> row list \<Rightarrow> row list" where
  "updateById i change rows = map (\<lambda>r. if idIs i r then setColumns change r else r) rows"

text \<open>The condition of \<^verbatim>\<open>markLostWorkers\<close>, on columns.\<close>

definition silentRow :: "int \<Rightarrow> time \<Rightarrow> row \<Rightarrow> bool" where
  "silentRow heartbeatTimeoutMs now r \<longleftrightarrow>
     column r ''status'' \<in> set [Text ''ONLINE'', Text ''BUSY''] \<and>
     (case column r ''last_heartbeat_at'' of Stamp t \<Rightarrow> t < now - heartbeatTimeoutMs | _ \<Rightarrow> False)"

definition markLostRows :: "int \<Rightarrow> time \<Rightarrow> row list \<Rightarrow> js_value list \<times> row list" where
  "markLostRows heartbeatTimeoutMs now rows =
     (map (\<lambda>r. column r ''id'') (filter (silentRow heartbeatTimeoutMs now) rows),
      map (\<lambda>r. if silentRow heartbeatTimeoutMs now r then setColumns (statusColumns LOST now) r else r) rows)"

section \<open>Execution logs\<close>

definition logDefaults :: row where
  "logDefaults = map_of
     [(''id'', Null), (''job_id'', Null), (''worker_id'', Null), (''attempt_number'', Null), (''status'', Text ''RUNNING''),
      (''started_at'', Null), (''completed_at'', Null), (''duration_ms'', Null), (''stdout'', Null), (''stderr'', Null),
      (''exit_code'', Null), (''result'', Null), (''error_message'', Null), (''error_stack'', Null), (''error_code'', Null),
      (''peak_memory_mb'', Null), (''cpu_percent'', Null), (''created_at'', Null)]"

definition logRow :: "id \<Rightarrow> time \<Rightarrow> CreateExecutionLogDto \<Rightarrow> row" where
  "logRow newId now dto = map_of
     [(''id'', Text newId), (''job_id'', Text (ce_jobId dto)), (''worker_id'', Text (ce_workerId dto)),
      (''attempt_number'', Num (ce_attemptNumber dto)), (''status'', Text (executionStatusName (ce_status dto))),
      (''started_at'', Stamp (ce_startedAt dto)), (''created_at'', Stamp now)]"

definition completeColumns :: "CompleteExecutionLogDto \<Rightarrow> row" where
  "completeColumns dto = map_of
     [(''status'', Text (executionStatusName (ct_status dto))), (''completed_at'', Stamp (ct_completedAt dto)),
      (''duration_ms'', Num (ct_durationMs dto)), (''stdout'', undefinable Text (ct_stdout dto)),
      (''stderr'', undefinable Text (ct_stderr dto)), (''exit_code'', undefinable Num (ct_exitCode dto)),
      (''result'', nullable (JsonText \<circ> JObj) (ct_result dto)), (''error_message'', undefinable Text (ct_errorMessage dto)),
      (''error_stack'', undefinable Text (ct_errorStack dto)), (''error_code'', undefinable Text (ct_errorCode dto)),
      (''peak_memory_mb'', undefinable Real (ct_peakMemoryMb dto)), (''cpu_percent'', undefinable Real (ct_cpuPercent dto))]"

definition logFromRow :: "row \<Rightarrow> (string \<times> js_value) list" where
  "logFromRow r =
     [(''id'', column r ''id''), (''jobId'', column r ''job_id''), (''workerId'', column r ''worker_id''),
      (''attemptNumber'', column r ''attempt_number''), (''status'', column r ''status''), (''startedAt'', column r ''started_at''),
      (''completedAt'', dateColumn r ''completed_at''), (''durationMs'', column r ''duration_ms''), (''stdout'', column r ''stdout''),
      (''stderr'', column r ''stderr''), (''exitCode'', column r ''exit_code''), (''result'', column r ''result''),
      (''errorMessage'', column r ''error_message''), (''errorStack'', column r ''error_stack''), (''errorCode'', column r ''error_code''),
      (''peakMemoryMb'', column r ''peak_memory_mb''), (''cpuPercent'', column r ''cpu_percent''), (''createdAt'', column r ''created_at'')]"

definition insertLog :: "id \<Rightarrow> time \<Rightarrow> CreateExecutionLogDto \<Rightarrow> row list \<Rightarrow> (string \<times> js_value) list \<times> row list" where
  "insertLog newId now dto rows =
     (let inserted = insertInto logDefaults (logRow newId now dto) in (logFromRow inserted, rows @ [inserted]))"

definition completeLogRow :: "CompleteExecutionLogDto \<Rightarrow> row list \<Rightarrow> (string \<times> js_value) list option \<times> row list" where
  "completeLogRow dto rows =
     (let rows' = updateById (ct_id dto) (completeColumns dto) rows
      in (map_option logFromRow (List.find (idIs (ct_id dto)) rows'), rows'))"

section \<open>Lemmas\<close>

definition workerProps :: "WorkerNode \<Rightarrow> (string \<times> js_value) list" where
  "workerProps w =
     [(''id'', Text (w_id w)), (''hostname'', Text (w_hostname w)), (''ipAddress'', Text (w_ipAddress w)), (''pid'', Num (w_pid w)),
      (''version'', Text (w_version w)), (''status'', Text (workerStatusName (w_status w))),
      (''capabilities'', Json (capabilitiesValue (w_capabilities w))), (''stats'', Json (statsValue (w_stats w))),
      (''currentJobCount'', Num (w_currentJobCount w)), (''maxConcurrency'', Num (w_maxConcurrency w)),
      (''lastHeartbeatAt'', Stamp (w_lastHeartbeatAt w)), (''registeredAt'', Stamp (w_registeredAt w)),
      (''updatedAt'', Stamp (w_updatedAt w))]"

definition logProps :: "ExecutionLog \<Rightarrow> (string \<times> js_value) list" where
  "logProps e =
     [(''id'', Text (e_id e)), (''jobId'', Text (e_jobId e)), (''workerId'', Text (e_workerId e)),
      (''attemptNumber'', Num (e_attemptNumber e)), (''status'', Text (executionStatusName (e_status e))),
      (''startedAt'', Stamp (e_startedAt e)), (''completedAt'', undefinable Stamp (e_completedAt e)),
      (''durationMs'', nullable Num (e_durationMs e)), (''stdout'', nullable Text (e_stdout e)),
      (''stderr'', nullable Text (e_stderr e)), (''exitCode'', nullable Num (e_exitCode e)),
      (''result'', nullable (Json \<circ> JObj) (e_result e)), (''errorMessage'', nullable Text (e_errorMessage e)),
      (''errorStack'', nullable Text (e_errorStack e)), (''errorCode'', nullable Text (e_errorCode e)),
      (''peakMemoryMb'', nullable Real (e_peakMemoryMb e)), (''cpuPercent'', nullable Real (e_cpuPercent e)),
      (''createdAt'', Stamp (e_createdAt e))]"

definition worker_reads :: "row \<Rightarrow> WorkerNode \<Rightarrow> bool" where
  "worker_reads r w \<longleftrightarrow> workerFromRow r = workerProps w"

definition log_reads :: "row \<Rightarrow> ExecutionLog \<Rightarrow> bool" where
  "log_reads r e \<longleftrightarrow> logFromRow r = logProps e"

interpretation worker_table: row_table worker_reads w_id
  by unfold_locales (simp add: worker_reads_def workerFromRow_def workerProps_def idIs_def)

interpretation log_table: row_table log_reads e_id
  by unfold_locales (simp add: log_reads_def logFromRow_def logProps_def idIs_def)

lemma worker_reads_insert:
  "worker_reads (insertInto workerDefaults (workerRow newId now dto)) (fst (register_worker newId now dto ws))"
  by (simp add: worker_reads_def workerFromRow_def workerProps_def column_def insertInto_def workerRow_def register_worker_def
      stored_def jsonbColumns_def zero_stats_def statsValue_def optProp_def Let_def)

lemma worker_reads_heartbeat:
  "worker_reads r w \<Longrightarrow> worker_reads (setColumns (heartbeatColumns dto now) r)
     (w\<lparr>w_status := hb_status dto, w_currentJobCount := hb_currentJobCount dto, w_lastHeartbeatAt := hb_timestamp dto,
        w_stats := hb_stats dto, w_updatedAt := now\<rparr>)"
  by (simp add: worker_reads_def workerFromRow_def workerProps_def column_setColumns heartbeatColumns_def)

lemma worker_reads_status:
  "worker_reads r w \<Longrightarrow> worker_reads (setColumns (statusColumns st now) r) (w\<lparr>w_status := st, w_updatedAt := now\<rparr>)"
  by (simp add: worker_reads_def workerFromRow_def workerProps_def column_setColumns statusColumns_def)

lemma silentRow_reads: "worker_reads r w \<Longrightarrow> silentRow timeout now r = silent timeout now w"
  by (cases "w_status w") (simp_all add: worker_reads_def workerFromRow_def workerProps_def silentRow_def silent_def)

lemma lost_ids:
  "list_all2 worker_reads rows ws \<Longrightarrow>
   map (\<lambda>r. column r ''id'') (filter (silentRow timeout now) rows) = map (Text \<circ> w_id) (filter (silent timeout now) ws)"
  by (induction rule: list_all2_induct)
     (auto simp: silentRow_reads worker_reads_def workerFromRow_def workerProps_def)

lemma log_reads_insert:
  "log_reads (insertInto logDefaults (logRow newId now dto)) (fst (createLog newId now dto ls))"
  by (simp add: log_reads_def logFromRow_def logProps_def column_def dateColumn_def insertInto_def logRow_def logDefaults_def
      createLog_def nullable_def undefinable_def Let_def)

text \<open>A value that is given replaces the one before.\<close>

lemma kept_or_new:
  "(if x = None then nullable Text y else stored c (undefinable Text x)) = nullable Text (keepUnlessSome x y)"
  "(if n = None then nullable Num k else stored c (undefinable Num n)) = nullable Num (keepUnlessSome n k)"
  "(if q = None then nullable Real p else stored c (undefinable Real q)) = nullable Real (keepUnlessSome q p)"
  by (auto simp: nullable_def undefinable_def keepUnlessSome_def)

lemma result_column:
  "(if nullable (JsonText \<circ> JObj) x = Undef then v else stored ''result'' (nullable (JsonText \<circ> JObj) x)) = nullable (Json \<circ> JObj) x"
  by (auto simp: nullable_def split: option.split)

lemma log_reads_complete: "log_reads r e \<Longrightarrow> log_reads (setColumns (completeColumns dto) r) (completeRow dto e)"
  by (simp add: log_reads_def logFromRow_def logProps_def dateColumn_def column_setColumns completeColumns_def completeRow_def
      kept_or_new result_column cong: if_cong split del: if_split) (simp add: nullable_def undefinable_def)

lemma find_updateById:
  "list_all2 log_reads rows ls \<Longrightarrow> map_option logFromRow (List.find (idIs i) rows) = map_option logProps (findLog i ls)"
  using log_table.find_rep [of rows ls i] by (auto simp: findLog_def log_reads_def elim: option.rel_cases)

section \<open>Properties\<close>

text \<open>
  The table of worker records is what the rows of the database stand for: registering, heartbeats,
  changes of status and the search for silent workers lead to rows that stand for the result on
  records, and answer the same.
\<close>

theorem worker_rows_refine:
  assumes tab: "list_all2 worker_reads rows ws"
  shows "rel_prod (\<lambda>obj w. obj = workerProps w) (list_all2 worker_reads) (insertWorker newId now reg rows) (register_worker newId now reg ws) \<and>
    list_all2 worker_reads (updateById (hb_workerId hb) (heartbeatColumns hb now) rows) (heartbeat hb now ws) \<and>
    list_all2 worker_reads (updateById i (statusColumns st now) rows) (updateStatus i st now ws) \<and>
    rel_prod (\<lambda>ids lost. ids = map Text lost) (list_all2 worker_reads) (markLostRows timeout now rows) (markLostWorkers timeout now ws)"
proof (intro conjI)
  show "rel_prod (\<lambda>obj w. obj = workerProps w) (list_all2 worker_reads) (insertWorker newId now reg rows) (register_worker newId now reg ws)"
    using tab worker_reads_insert [of newId now reg ws]
    by (simp add: insertWorker_def register_worker_def Let_def worker_reads_def list_all2_appendI)
  show "list_all2 worker_reads (updateById (hb_workerId hb) (heartbeatColumns hb now) rows) (heartbeat hb now ws)"
    using worker_table.update_rep [OF tab worker_reads_heartbeat] by (simp add: updateById_def heartbeat_def updateWorkers_def)
  show "list_all2 worker_reads (updateById i (statusColumns st now) rows) (updateStatus i st now ws)"
    using worker_table.update_rep [OF tab worker_reads_status] by (simp add: updateById_def updateStatus_def updateWorkers_def)
  have "list_all2 worker_reads (map (\<lambda>r. if silentRow timeout now r then setColumns (statusColumns LOST now) r else r) rows)
      (map (\<lambda>w. if silent timeout now w then w\<lparr>w_status := LOST, w_updatedAt := now\<rparr> else w) ws)"
    by (intro worker_table.update_where_rep [OF tab]) (simp_all add: silentRow_reads worker_reads_status)
  then show "rel_prod (\<lambda>ids lost. ids = map Text lost) (list_all2 worker_reads) (markLostRows timeout now rows) (markLostWorkers timeout now ws)"
    by (simp add: markLostRows_def markLostWorkers_def updateWorkers_def lost_ids [OF tab])
qed

text \<open>
  The table of execution logs is what the rows of the database stand for, through the creation and the
  completion of a log; a completion keeps what it does not give, except the result.
\<close>

theorem log_rows_refine:
  assumes tab: "list_all2 log_reads rows ls"
  shows "rel_prod (\<lambda>obj e. obj = logProps e) (list_all2 log_reads) (insertLog newId now dto rows) (createLog newId now dto ls) \<and>
    rel_prod (\<lambda>obj e. obj = map_option logProps e) (list_all2 log_reads) (completeLogRow fin rows) (completeLog fin ls)"
proof (intro conjI)
  show "rel_prod (\<lambda>obj e. obj = logProps e) (list_all2 log_reads) (insertLog newId now dto rows) (createLog newId now dto ls)"
    using tab log_reads_insert [of newId now dto ls]
    by (simp add: insertLog_def createLog_def Let_def log_reads_def list_all2_appendI)
  have upd: "list_all2 log_reads (updateById (ct_id fin) (completeColumns fin) rows)
      (map (\<lambda>e. if e_id e = ct_id fin then completeRow fin e else e) ls)"
    using log_table.update_rep [OF tab log_reads_complete] by (simp add: updateById_def)
  then show "rel_prod (\<lambda>obj e. obj = map_option logProps e) (list_all2 log_reads) (completeLogRow fin rows) (completeLog fin ls)"
    by (simp add: completeLogRow_def completeLog_def Let_def find_updateById)
qed

end
