(* ===== verification/Validation.thy ===== *)
theory Validation
  imports GraphQL
begin

text \<open>
  The schemas of \<^verbatim>\<open>src/api/middleware/validation.ts\<close> and what a validated submission guarantees of
  the row it becomes. A schema is data, one constructor per kind of Joi schema with the rules the
  source chains to it. Joi is an argument, a function from schemas and values to the messages of its
  error details; \<open>joi_sound\<close> states the documented meaning of the rules: what holds of a value
  that is accepted.
\<close>

section \<open>Schemas\<close>

datatype presence = Required | Optional | Default "json option"

datatype joi =
    JoiString "nat option" "string list option" bool
  | JoiNumber bool "int option" "int option"
  | JoiDate
  | JoiObject "(string \<times> presence \<times> joi) list option"
  | JoiArray "joi option" "nat option" "nat option"
  | JoiAlternatives "joi list"

abbreviation anyString :: joi where
  "anyString \<equiv> JoiString None None False"

abbreviation maxString :: "nat \<Rightarrow> joi" where
  "maxString n \<equiv> JoiString (Some n) None False"

abbreviation oneOf :: "string list \<Rightarrow> joi" where
  "oneOf vs \<equiv> JoiString None (Some vs) False"

abbreviation intBetween :: "int \<Rightarrow> int \<Rightarrow> joi" where
  "intBetween a b \<equiv> JoiNumber True (Some a) (Some b)"

abbreviation anyObject :: joi where
  "anyObject \<equiv> JoiObject None"

definition retryConfig_keys :: "(string \<times> presence \<times> joi) list" where
  "retryConfig_keys =
     [(''maxRetries'', Default (Some (jint 3)), intBetween 0 10),
      (''retryDelay'', Default (Some (jint 5000)), intBetween 100 300000),
      (''retryBackoff'', Default (Some (JStr ''EXPONENTIAL'')), oneOf [''FIXED'', ''EXPONENTIAL'', ''JITTER'']),
      (''retryOn'', Default (Some (JArr [])), JoiArray (Some anyString) None None)]"

definition dependency_keys :: "(string \<times> presence \<times> joi) list" where
  "dependency_keys =
     [(''jobId'', Required, JoiString None None True),
      (''requireStatus'', Required, JoiArray (Some (oneOf [''COMPLETED'', ''FAILED'', ''CANCELLED''])) (Some 1) None)]"

definition job_keys :: "(string \<times> presence \<times> joi) list" where
  "job_keys =
     [(''name'', Required, maxString 255), (''description'', Optional, maxString 1000),
      (''type'', Required, oneOf [''HTTP_REQUEST'', ''SHELL_COMMAND'', ''DATA_PIPELINE'', ''EMAIL_NOTIFICATION'',
         ''REPORT_GENERATION'', ''FILE_PROCESSING'', ''DATABASE_CLEANUP'', ''WEBHOOK'', ''CUSTOM'']),
      (''payload'', Required, anyObject),
      (''priority'', Default (Some (JStr ''MEDIUM'')), oneOf [''CRITICAL'', ''HIGH'', ''MEDIUM'', ''LOW'', ''BACKGROUND'']),
      (''scheduledAt'', Optional, JoiDate), (''cronExpression'', Optional, maxString 100),
      (''timezone'', Default (Some (JStr ''UTC'')), maxString 100),
      (''timeoutMs'', Default (Some (jint 300000)), intBetween 1000 3600000),
      (''retryConfig'', Default None, JoiObject (Some retryConfig_keys)),
      (''dependencies'', Default (Some (JArr [])), JoiArray (Some (JoiObject (Some dependency_keys))) None None),
      (''tags'', Default (Some (JArr [])), JoiArray (Some (maxString 50)) None (Some 20)),
      (''metadata'', Default (Some (JObj [])), anyObject)]"

definition jobSchemas_create :: joi where
  "jobSchemas_create = JoiObject (Some job_keys)"

definition jobSchemas_list :: joi where
  "jobSchemas_list = JoiObject (Some
     [(''status'', Optional, JoiAlternatives [anyString, JoiArray (Some anyString) None None]),
      (''priority'', Optional, anyString), (''type'', Optional, anyString),
      (''page'', Default (Some (jint 1)), JoiNumber True (Some 1) None),
      (''limit'', Default (Some (jint 20)), intBetween 1 100),
      (''sortBy'', Default (Some (JStr ''createdAt'')), oneOf [''createdAt'', ''scheduledAt'', ''priority'', ''status'']),
      (''sortOrder'', Default (Some (JStr ''DESC'')), oneOf [''ASC'', ''DESC'']),
      (''search'', Optional, maxString 200)])"

definition scheduleSchemas_create :: joi where
  "scheduleSchemas_create = JoiObject (Some
     [(''name'', Required, maxString 255), (''description'', Optional, maxString 1000),
      (''cronExpression'', Required, maxString 100), (''timezone'', Default (Some (JStr ''UTC'')), maxString 100),
      (''jobTemplate'', Required, JoiObject (Some
         [(''type'', Required, anyString), (''payload'', Required, anyObject),
          (''priority'', Default (Some (JStr ''MEDIUM'')), anyString),
          (''timeoutMs'', Default (Some (jint 300000)), JoiNumber False None None),
          (''retryConfig'', Default (Some (JObj [])), anyObject),
          (''tags'', Default (Some (JArr [])), JoiArray (Some anyString) None None)]))])"

section \<open>What Joi promises\<close>

type_synonym joi_lib = "joi \<Rightarrow> json \<Rightarrow> string list"

definition string_sound :: "joi_lib \<Rightarrow> bool" where
  "string_sound J \<longleftrightarrow> (\<forall>mx vs uuid s. J (JoiString mx vs uuid) (JStr s) = [] \<longrightarrow>
     s \<noteq> [] \<and> (\<forall>n \<in> set_option mx. length s \<le> n) \<and> (\<forall>v \<in> set_option vs. s \<in> set v))"

definition number_sound :: "joi_lib \<Rightarrow> bool" where
  "number_sound J \<longleftrightarrow> (\<forall>i mn mx x. J (JoiNumber i mn mx) (JNum x) = [] \<longrightarrow>
     (i \<longrightarrow> x = of_int \<lfloor>x\<rfloor>) \<and> (\<forall>a \<in> set_option mn. of_int a \<le> x) \<and> (\<forall>b \<in> set_option mx. x \<le> of_int b))"

definition object_sound :: "joi_lib \<Rightarrow> bool" where
  "object_sound J \<longleftrightarrow> (\<forall>ks es. J (JoiObject (Some ks)) (JObj es) = [] \<longrightarrow>
     (\<forall>(k, v) \<in> set es. \<exists>pr s. map_of ks k = Some (pr, s) \<and> J s v = []) \<and>
     (\<forall>(k, pr, s) \<in> set ks. pr = Required \<longrightarrow> k \<in> fst ` set es))"

definition array_sound :: "joi_lib \<Rightarrow> bool" where
  "array_sound J \<longleftrightarrow> (\<forall>s mn mx xs. J (JoiArray (Some s) mn mx) (JArr xs) = [] \<longrightarrow>
     (\<forall>x \<in> set xs. J s x = []) \<and> (\<forall>a \<in> set_option mn. a \<le> length xs) \<and> (\<forall>b \<in> set_option mx. length xs \<le> b))"

definition joi_sound :: "joi_lib \<Rightarrow> bool" where
  "joi_sound J \<longleftrightarrow> string_sound J \<and> number_sound J \<and> object_sound J \<and> array_sound J"

section \<open>Submissions\<close>

text \<open>
  The body of which a DTO is the reading: the handler spreads its properties into the DTO and adds
  the organization and the creator.
\<close>

definition partialRetryValue :: "PartialRetryConfig \<Rightarrow> json" where
  "partialRetryValue rc = JObj (optProp ''maxRetries'' jint (prc_maxRetries rc) @ optProp ''retryDelay'' jint (prc_retryDelay rc) @
     optProp ''retryBackoff'' (JStr \<circ> backoffName) (prc_retryBackoff rc) @
     optProp ''retryOn'' (JArr \<circ> map JStr) (prc_retryOn rc))"

definition bodyProps :: "(time \<Rightarrow> string) \<Rightarrow> CreateJobDto \<Rightarrow> obj" where
  "bodyProps fmt d =
     [(''name'', JStr (c_name d)), (''type'', JStr (jobTypeName (c_type d))), (''payload'', JObj (c_payload d))] @
     optProp ''description'' JStr (c_description d) @ optProp ''priority'' (JStr \<circ> priorityName) (c_priority d) @
     optProp ''scheduledAt'' (JStr \<circ> fmt) (c_scheduledAt d) @ optProp ''cronExpression'' JStr (c_cronExpression d) @
     optProp ''timezone'' JStr (c_timezone d) @ optProp ''timeoutMs'' jint (c_timeoutMs d) @
     optProp ''retryConfig'' partialRetryValue (c_retryConfig d) @
     optProp ''dependencies'' (JArr \<circ> map dependencyValue) (c_dependencies d) @
     optProp ''tags'' (JArr \<circ> map JStr) (c_tags d) @ optProp ''metadata'' JObj (c_metadata d)"

definition createComplaints :: "joi_lib \<Rightarrow> (time \<Rightarrow> string) \<Rightarrow> CreateJobDto \<Rightarrow> string list" where
  "createComplaints J fmt d =
     validate \<lparr>sm_body = Some (J jobSchemas_create), sm_params = None, sm_query = None\<rparr> (JObj (bodyProps fmt d)) (JObj []) (JObj [])"

section \<open>Lemmas\<close>

lemma joi_string:
  assumes "joi_sound J" "J (JoiString mx vs uuid) (JStr s) = []"
  shows "s \<noteq> []" "n \<in> set_option mx \<Longrightarrow> length s \<le> n" "v \<in> set_option vs \<Longrightarrow> s \<in> set v"
  using assms unfolding joi_sound_def string_sound_def by blast+

lemma joi_int:
  assumes "joi_sound J" "J (JoiNumber i (Some a) (Some b)) (jint n) = []"
  shows "a \<le> n" "n \<le> b"
proof -
  have "(of_int a :: number) \<le> of_int n" "(of_int n :: number) \<le> of_int b"
    using assms unfolding joi_sound_def number_sound_def by (metis option.set_intros)+
  then show "a \<le> n" "n \<le> b" by simp_all
qed

lemma joi_key:
  assumes "joi_sound J" "J (JoiObject (Some ks)) (JObj es) = []" "(k, v) \<in> set es" "map_of ks k = Some (pr, s)"
  shows "J s v = []"
  using assms unfolding joi_sound_def object_sound_def by fastforce

lemma joi_array:
  assumes "joi_sound J" "J (JoiArray (Some s) mn mx) (JArr xs) = []"
  shows "x \<in> set xs \<Longrightarrow> J s x = []" "a \<in> set_option mn \<Longrightarrow> a \<le> length xs" "b \<in> set_option mx \<Longrightarrow> length xs \<le> b"
  using assms unfolding joi_sound_def array_sound_def by blast+

lemma in_optProp [simp]: "(k, v) \<in> set (optProp n f x) \<longleftrightarrow> k = n \<and> (\<exists>y. x = Some y \<and> v = f y)"
  by (auto simp: optProp_def split: option.splits)

text \<open>What each property of an accepted body satisfies.\<close>

lemma accepted_property:
  assumes "joi_sound J" "createComplaints J fmt d = []" "(k, v) \<in> set (bodyProps fmt d)" "map_of job_keys k = Some (pr, s)"
  shows "J s v = []"
proof (rule joi_key [OF assms(1) _ assms(3,4)])
  show "J (JoiObject (Some job_keys)) (JObj (bodyProps fmt d)) = []"
    using assms(2) by (simp add: createComplaints_def validate_def jobSchemas_create_def)
qed

lemma job_keys_lookup:
  "map_of job_keys ''name'' = Some (Required, maxString 255)"
  "map_of job_keys ''timezone'' = Some (Default (Some (JStr ''UTC'')), maxString 100)"
  "map_of job_keys ''cronExpression'' = Some (Optional, maxString 100)"
  "map_of job_keys ''timeoutMs'' = Some (Default (Some (jint 300000)), intBetween 1000 3600000)"
  "map_of job_keys ''retryConfig'' = Some (Default None, JoiObject (Some retryConfig_keys))"
  "map_of job_keys ''dependencies'' = Some (Default (Some (JArr [])), JoiArray (Some (JoiObject (Some dependency_keys))) None None)"
  "map_of job_keys ''tags'' = Some (Default (Some (JArr [])), JoiArray (Some (maxString 50)) None (Some 20))"
  "map_of retryConfig_keys ''maxRetries'' = Some (Default (Some (jint 3)), intBetween 0 10)"
  "map_of retryConfig_keys ''retryDelay'' = Some (Default (Some (jint 5000)), intBetween 100 300000)"
  by (simp_all add: job_keys_def retryConfig_keys_def)

definition dependency_fits :: "JobDependency \<Rightarrow> bool" where
  "dependency_fits d \<longleftrightarrow> dep_requireStatus d \<noteq> [] \<and> set (dep_requireStatus d) \<subseteq> {COMPLETED, FAILED, CANCELLED}"

lemma accepted_dependency:
  assumes J: "joi_sound J" and "J (JoiObject (Some dependency_keys)) (dependencyValue dep) = []"
  shows "dependency_fits dep"
proof -
  let ?ss = "dep_requireStatus dep"
  have "J (JoiArray (Some (oneOf [''COMPLETED'', ''FAILED'', ''CANCELLED''])) (Some 1) None) (JArr (map (\<lambda>s. JStr (statusName s)) ?ss)) = []"
    by (rule joi_key [OF J assms(2) [unfolded dependencyValue_def]]) (auto simp: dependency_keys_def)
  note arr = joi_array [OF J this]
  have "s \<in> {COMPLETED, FAILED, CANCELLED}" if "s \<in> set ?ss" for s
  proof -
    have "statusName s \<in> set [''COMPLETED'', ''FAILED'', ''CANCELLED'']"
      using joi_string(3) [OF J arr(1)] that by simp
    then show ?thesis by (cases s) auto
  qed
  moreover have "?ss \<noteq> []" using arr(2) by auto
  ultimately show ?thesis by (auto simp: dependency_fits_def)
qed

text \<open>
  The bounds of a submitted row. Those of the strings are the widths of the VARCHAR columns, and the
  numbers fit INTEGER and SMALLINT.
\<close>

definition submission_fits :: "Job \<Rightarrow> bool" where
  "submission_fits j \<longleftrightarrow> j_name j \<noteq> [] \<and> length (j_name j) \<le> 255 \<and> length (j_timezone j) \<le> 100 \<and>
     (\<forall>c \<in> set_option (j_cronExpression j). length c \<le> 100) \<and> 1000 \<le> j_timeoutMs j \<and> j_timeoutMs j \<le> 3600000 \<and>
     j_maxRetries j = rc_maxRetries (j_retryConfig j) \<and> 0 \<le> j_maxRetries j \<and> j_maxRetries j \<le> 10 \<and>
     100 \<le> rc_retryDelay (j_retryConfig j) \<and> rc_retryDelay (j_retryConfig j) \<le> 300000 \<and>
     length (j_tags j) \<le> 20 \<and> (\<forall>t \<in> set (j_tags j). length t \<le> 50) \<and> (\<forall>d \<in> set (j_dependencies j). dependency_fits d)"

lemma accepted_retry:
  assumes J: "joi_sound J" and ok: "createComplaints J fmt d = []"
  shows "0 \<le> rc_maxRetries (retryConfigOf (c_retryConfig d)) \<and> rc_maxRetries (retryConfigOf (c_retryConfig d)) \<le> 10 \<and>
    100 \<le> rc_retryDelay (retryConfigOf (c_retryConfig d)) \<and> rc_retryDelay (retryConfigOf (c_retryConfig d)) \<le> 300000"
proof (cases "c_retryConfig d")
  case None
  then show ?thesis by (simp add: retryConfigOf_def)
next
  case (Some rc)
  have "J (JoiObject (Some retryConfig_keys)) (partialRetryValue rc) = []"
    by (rule accepted_property [OF J ok _ job_keys_lookup(5)]) (simp add: bodyProps_def Some)
  note key = joi_key [OF J this [unfolded partialRetryValue_def]]
  have "J (intBetween 0 10) (jint n) = []" if "prc_maxRetries rc = Some n" for n
    by (rule key [OF _ job_keys_lookup(8)]) (simp add: that)
  then have "0 \<le> n \<and> n \<le> 10" if "prc_maxRetries rc = Some n" for n using joi_int [OF J] that by blast
  moreover have "J (intBetween 100 300000) (jint n) = []" if "prc_retryDelay rc = Some n" for n
    by (rule key [OF _ job_keys_lookup(9)]) (simp add: that)
  then have "100 \<le> n \<and> n \<le> 300000" if "prc_retryDelay rc = Some n" for n using joi_int [OF J] that by blast
  ultimately show ?thesis
    by (cases "prc_maxRetries rc"; cases "prc_retryDelay rc") (auto simp: retryConfigOf_def Some)
qed

lemma accepted_strings:
  assumes J: "joi_sound J" and ok: "createComplaints J fmt d = []"
  shows "c_name d \<noteq> []" "length (c_name d) \<le> 255" "c_timezone d = Some z \<Longrightarrow> length z \<le> 100"
    "c_cronExpression d = Some c \<Longrightarrow> length c \<le> 100" "c_timeoutMs d = Some n \<Longrightarrow> 1000 \<le> n \<and> n \<le> 3600000"
proof -
  note acc = accepted_property [OF J ok]
  have name: "J (maxString 255) (JStr (c_name d)) = []" by (rule acc [OF _ job_keys_lookup(1)]) (simp add: bodyProps_def)
  show "c_name d \<noteq> []" "length (c_name d) \<le> 255" using joi_string [OF J name] by simp_all
  show "length z \<le> 100" if "c_timezone d = Some z"
  proof -
    have "J (maxString 100) (JStr z) = []" by (rule acc [OF _ job_keys_lookup(2)]) (simp add: bodyProps_def that)
    then show ?thesis using joi_string(2) [OF J] by simp
  qed
  show "length c \<le> 100" if "c_cronExpression d = Some c"
  proof -
    have "J (maxString 100) (JStr c) = []" by (rule acc [OF _ job_keys_lookup(3)]) (simp add: bodyProps_def that)
    then show ?thesis using joi_string(2) [OF J] by simp
  qed
  show "1000 \<le> n \<and> n \<le> 3600000" if "c_timeoutMs d = Some n"
  proof -
    have "J (intBetween 1000 3600000) (jint n) = []" by (rule acc [OF _ job_keys_lookup(4)]) (simp add: bodyProps_def that)
    then show ?thesis using joi_int [OF J] by blast
  qed
qed

lemma accepted_lists:
  assumes J: "joi_sound J" and ok: "createComplaints J fmt d = []"
  shows "c_tags d = Some ts \<Longrightarrow> length ts \<le> 20 \<and> (\<forall>t \<in> set ts. length t \<le> 50)"
    "c_dependencies d = Some ds \<Longrightarrow> \<forall>x \<in> set ds. dependency_fits x"
proof -
  note acc = accepted_property [OF J ok]
  show "length ts \<le> 20 \<and> (\<forall>t \<in> set ts. length t \<le> 50)" if "c_tags d = Some ts"
  proof -
    have "J (JoiArray (Some (maxString 50)) None (Some 20)) (JArr (map JStr ts)) = []"
      by (rule acc [OF _ job_keys_lookup(7)]) (simp add: bodyProps_def that)
    note arr = joi_array [OF J this]
    have "length t \<le> 50" if "t \<in> set ts" for t using joi_string(2) [OF J arr(1), of t 50] that by simp
    with arr(3) show ?thesis by simp
  qed
  show "\<forall>x \<in> set ds. dependency_fits x" if "c_dependencies d = Some ds"
  proof -
    have "J (JoiArray (Some (JoiObject (Some dependency_keys))) None None) (JArr (map dependencyValue ds)) = []"
      by (rule acc [OF _ job_keys_lookup(6)]) (simp add: bodyProps_def that)
    from joi_array(1) [OF J this] accepted_dependency [OF J] show ?thesis by simp
  qed
qed

lemma accepted_fits:
  assumes "joi_sound J" "createComplaints J fmt d = []"
  shows "submission_fits (newRow i now (jobDto user d))"
  using accepted_strings [OF assms] accepted_lists [OF assms] accepted_retry [OF assms]
  by (cases "c_timezone d"; cases "c_timeoutMs d"; cases "c_tags d"; cases "c_dependencies d")
     (auto simp: submission_fits_def newRow_def jobDto_def retryConfigOf_def)

section \<open>Properties\<close>


section \<open>A validator that satisfies the assumption\<close>

lemma size_key [termination_simp]: "map_of ks k = Some (pr, s) \<Longrightarrow> size s < Suc (size_list (\<lambda>p. Suc (Suc (size (snd (snd p))))) ks)"
  by (induction ks) (auto split: if_splits)

function refAccepts :: "joi \<Rightarrow> json \<Rightarrow> bool" where
  "refAccepts (JoiString mx vs uuid) v = (case v of JStr s \<Rightarrow> s \<noteq> [] \<and> (\<forall>n \<in> set_option mx. length s \<le> n) \<and>
     (\<forall>ws \<in> set_option vs. s \<in> set ws) | _ \<Rightarrow> False)"
| "refAccepts (JoiNumber i mn mx) v = (case v of JNum x \<Rightarrow> (i \<longrightarrow> x = of_int \<lfloor>x\<rfloor>) \<and>
     (\<forall>a \<in> set_option mn. of_int a \<le> x) \<and> (\<forall>b \<in> set_option mx. x \<le> of_int b) | _ \<Rightarrow> False)"
| "refAccepts (JoiObject None) v = (case v of JObj es \<Rightarrow> True | _ \<Rightarrow> False)"
| "refAccepts (JoiObject (Some ks)) v = (case v of JObj es \<Rightarrow>
     (\<forall>(k, v) \<in> set es. case map_of ks k of None \<Rightarrow> False | Some (pr, s) \<Rightarrow> refAccepts s v) \<and>
     (\<forall>(k, pr, s) \<in> set ks. pr = Required \<longrightarrow> k \<in> fst ` set es) | _ \<Rightarrow> False)"
| "refAccepts (JoiArray (Some s) mn mx) v = (case v of JArr xs \<Rightarrow> (\<forall>x \<in> set xs. refAccepts s x) \<and>
     (\<forall>a \<in> set_option mn. a \<le> length xs) \<and> (\<forall>b \<in> set_option mx. length xs \<le> b) | _ \<Rightarrow> False)"
| "refAccepts (JoiArray None mn mx) v = False"
| "refAccepts JoiDate v = False"
| "refAccepts (JoiAlternatives ss) v = False"
  by pat_completeness auto

termination
  by (relation "measure (\<lambda>(s, v). size s)") (auto simp: termination_simp)

definition refJoi :: joi_lib where
  "refJoi s v = (if refAccepts s v then [] else [''invalid''])"

lemma refJoi_sound: "joi_sound refJoi"
proof -
  have "object_sound refJoi"
    unfolding object_sound_def refJoi_def by (auto split: if_splits option.splits) fastforce
  then show ?thesis
    by (auto simp: joi_sound_def string_sound_def number_sound_def array_sound_def refJoi_def split: if_splits)
qed

definition sample_dto :: CreateJobDto where
  "sample_dto = \<lparr>c_name = ''n'', c_description = None, c_type = WEBHOOK, c_payload = [], c_priority = None, c_scheduledAt = None,
     c_cronExpression = None, c_timezone = None, c_timeoutMs = Some 1000, c_retryConfig = None, c_dependencies = None,
     c_tags = None, c_metadata = None, c_organizationId = ''o'', c_createdBy = ''u''\<rparr>"

definition writer_db :: auth_db where
  "writer_db = sample_auth_db\<lparr>ad_keys := map (\<lambda>k. k\<lparr>ak_scopes := [''jobs:write'']\<rparr>) (ad_keys sample_auth_db)\<rparr>"


end
