(* ===== verification/Routing.thy ===== *)
theory Routing
  imports GraphQL
begin

text \<open>
  The whole HTTP interface: the routers of \<^verbatim>\<open>src/api/routes/\<close> in the order of their declarations, the
  mount points of \<^verbatim>\<open>src/app.ts\<close>, the middleware chain of the schedule routes, and \<open>serve\<close>, which takes a
  request through all of them. A path is the list of its segments. As Express documents, a router
  tries its routes in order, a literal segment matches regardless of case, and a parameter matches
  one segment that is not empty.
\<close>

section \<open>Routers\<close>

datatype verb = GET | POST | PATCH | DELETE

datatype segment = Lit string | Param

definition sameSegment :: "string \<Rightarrow> string \<Rightarrow> bool" where
  "sameSegment s t \<longleftrightarrow> map lower s = map lower t"

fun matchPath :: "segment list \<Rightarrow> string list \<Rightarrow> string list option" where
  "matchPath [] [] = Some []"
| "matchPath (Lit l # pat) (s # path) = (if sameSegment s l then matchPath pat path else None)"
| "matchPath (Param # pat) (s # path) = (if s = [] then None else map_option ((#) s) (matchPath pat path))"
| "matchPath _ _ = None"

text \<open>A route gives its target the values of its parameters.\<close>

type_synonym 'a router = "(verb \<times> segment list \<times> (string list \<Rightarrow> 'a)) list"

fun firstRoute :: "'a router \<Rightarrow> verb \<Rightarrow> string list \<Rightarrow> 'a option" where
  "firstRoute [] v path = None"
| "firstRoute ((v', pat, f) # rs) v path =
     (case (if v' = v then matchPath pat path else None) of Some ps \<Rightarrow> Some (f ps) | None \<Rightarrow> firstRoute rs v path)"

datatype job_route = RCreate | RList | RStats | RDlq | RReplayAll | RReplayOne id | RBulkCancel | RGet id
  | RHistory id | RCancel id | RRetry id

definition jobRouter :: "job_route router" where
  "jobRouter =
     [(POST, [], \<lambda>ps. RCreate),
      (GET, [], \<lambda>ps. RList),
      (GET, [Lit ''stats''], \<lambda>ps. RStats),
      (GET, [Lit ''dlq''], \<lambda>ps. RDlq),
      (POST, [Lit ''dlq'', Lit ''replay-all''], \<lambda>ps. RReplayAll),
      (POST, [Lit ''dlq'', Param, Lit ''replay''], \<lambda>ps. RReplayOne (hd ps)),
      (POST, [Lit ''bulk'', Lit ''cancel''], \<lambda>ps. RBulkCancel),
      (GET, [Param], \<lambda>ps. RGet (hd ps)),
      (GET, [Param, Lit ''history''], \<lambda>ps. RHistory (hd ps)),
      (PATCH, [Param, Lit ''cancel''], \<lambda>ps. RCancel (hd ps)),
      (POST, [Param, Lit ''retry''], \<lambda>ps. RRetry (hd ps))]"

definition workerRouter :: "worker_request router" where
  "workerRouter = [(GET, [], \<lambda>ps. ListWorkers), (GET, [Lit ''metrics''], \<lambda>ps. WorkerMetrics), (GET, [Param], \<lambda>ps. GetWorker (hd ps))]"

datatype schedule_route = SList | SCreate | SPause id | SResume id | SDelete id

definition scheduleRouter :: "schedule_route router" where
  "scheduleRouter =
     [(GET, [], \<lambda>ps. SList), (POST, [], \<lambda>ps. SCreate), (PATCH, [Param, Lit ''pause''], \<lambda>ps. SPause (hd ps)),
      (PATCH, [Param, Lit ''resume''], \<lambda>ps. SResume (hd ps)), (DELETE, [Param], \<lambda>ps. SDelete (hd ps))]"

datatype health_route = HLive | HReady | HReport

definition healthRouter :: "health_route router" where
  "healthRouter = [(GET, [Lit ''live''], \<lambda>ps. HLive), (GET, [Lit ''ready''], \<lambda>ps. HReady), (GET, [], \<lambda>ps. HReport)]"

section \<open>Mount points\<close>

datatype target = ToHealth health_route | ToJobs job_route | ToWorkers worker_request | ToSchedules schedule_route
  | ToMetrics | ToGraphQL | NotFound

text \<open>
  A router mounted at a path sees the rest of the path, and a request it has no route for goes on to
  the next one. The GraphQL endpoint takes every method.
\<close>

fun mounted :: "string list \<Rightarrow> string list \<Rightarrow> string list option" where
  "mounted [] path = Some path"
| "mounted (m # ms) (s # path) = (if sameSegment s m then mounted ms path else None)"
| "mounted (m # ms) [] = None"

definition under :: "string list \<Rightarrow> 'a router \<Rightarrow> verb \<Rightarrow> string list \<Rightarrow> 'a option" where
  "under mount r v path = Option.bind (mounted mount path) (firstRoute r v)"

definition dispatchRequest :: "string \<Rightarrow> verb \<Rightarrow> string list \<Rightarrow> target" where
  "dispatchRequest apiVersion v path =
     (case under [''health''] healthRouter v path of Some h \<Rightarrow> ToHealth h | None \<Rightarrow>
     (case under [''api'', apiVersion, ''jobs''] jobRouter v path of Some j \<Rightarrow> ToJobs j | None \<Rightarrow>
     (case under [''api'', apiVersion, ''workers''] workerRouter v path of Some w \<Rightarrow> ToWorkers w | None \<Rightarrow>
     (case under [''api'', apiVersion, ''schedules''] scheduleRouter v path of Some s \<Rightarrow> ToSchedules s | None \<Rightarrow>
     if v = GET \<and> matchPath [Lit ''metrics''] path \<noteq> None then ToMetrics
     else if mounted [''graphql''] path \<noteq> None then ToGraphQL
     else NotFound))))"

section \<open>Schedule routes\<close>

datatype schedule_body = SchedulesBody "Schedule list" | ScheduleBody Schedule | PausedBody | ResumedBody time | EmptyBody
  | ScheduleError string | ScheduleInvalid "string list"

fun scheduleScopes :: "schedule_route \<Rightarrow> string list" where
  "scheduleScopes SList = [''jobs:read'']"
| "scheduleScopes _ = [''jobs:write'']"

fun handleSchedule ::
  "cron \<Rightarrow> (id \<Rightarrow> string) \<Rightarrow> id \<Rightarrow> time \<Rightarrow> AuthUser \<Rightarrow> CreateScheduleBody \<Rightarrow> schedule_route \<Rightarrow> schedules \<Rightarrow>
   (nat \<times> schedule_body) \<times> schedules" where
  "handleSchedule nextCron dup newId now user body SList ss =
     ((200, SchedulesBody (snd (listSchedules (au_organizationId user) ss))), ss)"
| "handleSchedule nextCron dup newId now user body SCreate ss =
     (let ((code, r), ss') = createSchedule nextCron dup newId now (au_organizationId user) (au_userId user) body ss
      in ((code, case r of Inl msg \<Rightarrow> ScheduleError msg | Inr s \<Rightarrow> ScheduleBody s), ss'))"
| "handleSchedule nextCron dup newId now user body (SPause i) ss =
     (let (code, ss') = pauseSchedule i (au_organizationId user) now ss in ((code, PausedBody), ss'))"
| "handleSchedule nextCron dup newId now user body (SResume i) ss =
     (let ((code, next), ss') = resumeSchedule nextCron i (au_organizationId user) now ss
      in ((code, case next of Some t \<Rightarrow> ResumedBody t
             | None \<Rightarrow> ScheduleError (if code = 404 then ''Schedule not found'' else ''Internal server error'')), ss'))"
| "handleSchedule nextCron dup newId now user body (SDelete i) ss =
     (let (code, ss') = deleteSchedule i (au_organizationId user) ss in ((code, EmptyBody), ss'))"

definition schedulesApi ::
  "cron \<Rightarrow> (id \<Rightarrow> string) \<Rightarrow> id \<Rightarrow> time \<Rightarrow> AuthLib \<Rightarrow> string \<Rightarrow> bool \<Rightarrow> string option \<Rightarrow> string list \<Rightarrow> CreateScheduleBody \<Rightarrow>
   schedule_route \<Rightarrow> auth_db \<times> schedules \<Rightarrow> (nat \<times> schedule_body) \<times> auth_db \<times> schedules" where
  "schedulesApi nextCron dup newId now L secret limited header complaints body r st =
     (if limited then ((429, ScheduleError ''Too many requests''), st)
      else case authenticate L secret (scheduleScopes r) header now (fst st) of
             (Reject code msg, adb) \<Rightarrow> ((code, ScheduleError msg), adb, snd st)
           | (Proceed user, adb) \<Rightarrow>
               if r = SCreate \<and> complaints \<noteq> [] then ((422, ScheduleInvalid complaints), adb, snd st)
               else (let (resp, ss) = handleSchedule nextCron dup newId now user body r (snd st) in (resp, adb, ss)))"

section \<open>The application\<close>

text \<open>
  A request with what the middleware and the handlers read from it: whether the limiter stops it,
  the complaints of the validation, and the readings of body and query.
\<close>

record http_input =
  hi_verb :: verb
  hi_path :: "string list"
  hi_header :: "string option"
  hi_limited :: bool
  hi_complaints :: "string list"
  hi_dto :: CreateJobDto
  hi_filter :: JobFilter
  hi_page :: "int option"
  hi_limit :: "int option"
  hi_ids :: "id list option"
  hi_schedule :: CreateScheduleBody
  hi_gql :: gql_request

fun jobRequest :: "http_input \<Rightarrow> job_route \<Rightarrow> job_request" where
  "jobRequest r RCreate = PostJob (hi_dto r)"
| "jobRequest r RList = ListJobs (hi_filter r) (hi_page r) (hi_limit r)"
| "jobRequest r RStats = GetStats"
| "jobRequest r RDlq = GetDLQ"
| "jobRequest r RReplayAll = ReplayAll"
| "jobRequest r (RReplayOne i) = ReplayOne i"
| "jobRequest r RBulkCancel = BulkCancel (hi_ids r)"
| "jobRequest r (RGet i) = GetJob i"
| "jobRequest r (RHistory i) = GetHistory i"
| "jobRequest r (RCancel i) = CancelJob i"
| "jobRequest r (RRetry i) = RetryJob i"

datatype app_response =
    LiveAnswer "nat \<times> string \<times> time" | ReadyAnswer "nat \<times> bool \<times> Check \<times> Check" | ReportAnswer "nat \<times> HealthReport"
  | JobAnswer job_response | WorkerAnswer "nat \<times> worker_body" | ScheduleAnswer "nat \<times> schedule_body"
  | MetricsAnswer metrics | GraphQLAnswer "gql_error + gql_answer" | NotFoundAnswer "nat \<times> string"

record ('q, 'd) app_state =
  as_auth :: auth_db
  as_schedules :: schedules
  as_scheduler :: Scheduler
  as_world :: "('q, 'd) world"

record app_env =
  ae_lib :: AuthLib
  ae_secret :: string
  ae_apiVersion :: string
  ae_duplicate :: "id \<Rightarrow> string"
  ae_version :: "string option"
  ae_uptime :: number
  ae_memory :: obj
  ae_postgres :: "int \<times> (string + unit)"
  ae_redis :: "int \<times> string option"

text \<open>
  The health endpoints: \<open>ae_postgres\<close> is the answer of the database to the probe and \<open>ae_redis\<close> the error of
  the queues' server, each with the time it took.
\<close>

definition queueAnswer :: "('q, 'd) Deps \<Rightarrow> app_env \<Rightarrow> ('q, 'd) world \<Rightarrow> string + QueueHealth" where
  "queueAnswer P E w =
     (case snd (ae_redis E) of Some err \<Rightarrow> Inl err
      | None \<Rightarrow> Inr (getHealth (dp_queue P) (dp_dlq P) (s_queue w) (s_dlq w)))"

fun handleHealth :: "('q, 'd) Deps \<Rightarrow> app_env \<Rightarrow> health_route \<Rightarrow> ('q, 'd) app_state \<Rightarrow> app_response" where
  "handleHealth P E HLive s = LiveAnswer (live (dp_now P))"
| "handleHealth P E HReady s = ReadyAnswer (ready (ae_postgres E) (fst (ae_redis E), queueAnswer P E (as_world s)))"
| "handleHealth P E HReport s = ReportAnswer (healthReport (ae_version E) (ae_uptime E) (ae_memory E) (dp_now P)
     (schedulerStats (as_scheduler s) (as_world s)) (queueAnswer P E (as_world s)))"

text \<open>The GraphQL context takes \<^verbatim>\<open>req.user\<close>, which no middleware sets on that path.\<close>

definition serve ::
  "('q, 'd) Deps \<Rightarrow> app_env \<Rightarrow> http_input \<Rightarrow> ('q, 'd) app_state \<Rightarrow> app_response \<times> ('q, 'd) app_state" where
  "serve P E r s =
     (case dispatchRequest (ae_apiVersion E) (hi_verb r) (hi_path r) of
        ToHealth h \<Rightarrow> (handleHealth P E h s, s)
      | ToJobs j \<Rightarrow>
          (let (resp, adb, sc, w) = jobsApi P (ae_lib E) (ae_secret E) (hi_limited r) (hi_header r)
                 (if j = RCreate \<or> j = RList then hi_complaints r else []) (jobRequest r j)
                 (as_auth s, as_scheduler s, as_world s)
           in (JobAnswer resp, s\<lparr>as_auth := adb, as_scheduler := sc, as_world := w\<rparr>))
      | ToWorkers q \<Rightarrow>
          (let (resp, adb) = workersApi (ae_lib E) (ae_secret E) (hi_limited r) (hi_header r) (dp_now P) q
                 (as_auth s, s_workers (as_world s))
           in (WorkerAnswer resp, s\<lparr>as_auth := adb\<rparr>))
      | ToSchedules q \<Rightarrow>
          (let (resp, adb, ss) = schedulesApi (dp_cron P) (ae_duplicate E) (dp_newId P) (dp_now P) (ae_lib E) (ae_secret E)
                 (hi_limited r) (hi_header r) (hi_complaints r) (hi_schedule r) q (as_auth s, as_schedules s)
           in (ScheduleAnswer resp, s\<lparr>as_auth := adb, as_schedules := ss\<rparr>))
      | ToMetrics \<Rightarrow> (MetricsAnswer (s_metrics (as_world s)), s)
      | ToGraphQL \<Rightarrow>
          (case resolve P None (hi_gql r) (as_scheduler s, as_world s) of
             Inl e \<Rightarrow> (GraphQLAnswer (Inl e), s)
           | Inr (ans, sc, w) \<Rightarrow> (GraphQLAnswer (Inr ans), s\<lparr>as_scheduler := sc, as_world := w\<rparr>))
      | NotFound \<Rightarrow> (NotFoundAnswer (404, ''Not found''), s))"

section \<open>Lemmas\<close>

lemma sameSegment_refl [simp]: "sameSegment s s"
  by (simp add: sameSegment_def)

text \<open>The literal segments that have to be told apart.\<close>

lemma distinct_segments [simp]:
  "\<not> sameSegment ''api'' ''health''" "\<not> sameSegment ''jobs'' ''workers''" "\<not> sameSegment ''history'' ''replay-all''"
  "\<not> sameSegment ''stats'' ''dlq''" "\<not> sameSegment ''dlq'' ''stats''" "\<not> sameSegment ''retry'' ''replay-all''"
  "\<not> sameSegment ''retry'' ''cancel''" "\<not> sameSegment ''bulk'' ''dlq''" "\<not> sameSegment ''cancel'' ''replay-all''"
  "\<not> sameSegment ''replay-all'' ''cancel''"
  by (simp_all add: sameSegment_def lower_def)

fun urlOf :: "job_route \<Rightarrow> verb \<times> string list" where
  "urlOf RCreate = (POST, [])"
| "urlOf RList = (GET, [])"
| "urlOf RStats = (GET, [''stats''])"
| "urlOf RDlq = (GET, [''dlq''])"
| "urlOf RReplayAll = (POST, [''dlq'', ''replay-all''])"
| "urlOf (RReplayOne i) = (POST, [''dlq'', i, ''replay''])"
| "urlOf RBulkCancel = (POST, [''bulk'', ''cancel''])"
| "urlOf (RGet i) = (GET, [i])"
| "urlOf (RHistory i) = (GET, [i, ''history''])"
| "urlOf (RCancel i) = (PATCH, [i, ''cancel''])"
| "urlOf (RRetry i) = (POST, [i, ''retry''])"

fun addressable :: "job_route \<Rightarrow> bool" where
  "addressable (RGet i) \<longleftrightarrow> i \<noteq> [] \<and> \<not> sameSegment i ''stats'' \<and> \<not> sameSegment i ''dlq''"
| "addressable (RHistory i) \<longleftrightarrow> i \<noteq> []"
| "addressable (RCancel i) \<longleftrightarrow> i \<noteq> []"
| "addressable (RRetry i) \<longleftrightarrow> i \<noteq> []"
| "addressable (RReplayOne i) \<longleftrightarrow> i \<noteq> []"
| "addressable _ \<longleftrightarrow> True"

lemma firstRoute_job: "addressable r \<Longrightarrow> firstRoute jobRouter (fst (urlOf r)) (snd (urlOf r)) = Some r"
  by (cases r) (simp_all add: jobRouter_def)

subsection \<open>What a request may see and change\<close>

fun answerJobs :: "app_response \<Rightarrow> Job list" where
  "answerJobs (JobAnswer r) = bodyJobs (snd r)"
| "answerJobs (GraphQLAnswer (Inr (GJob j))) = [j]"
| "answerJobs (GraphQLAnswer (Inr (GPage p))) = pg_data p"
| "answerJobs _ = []"

fun answerSchedules :: "app_response \<Rightarrow> Schedule list" where
  "answerSchedules (ScheduleAnswer (c, SchedulesBody ss)) = ss"
| "answerSchedules (ScheduleAnswer (c, ScheduleBody s)) = [s]"
| "answerSchedules _ = []"

definition othersSchedules :: "id \<Rightarrow> schedules \<Rightarrow> schedules" where
  "othersSchedules org ss = filter (\<lambda>s. sd_organizationId s \<noteq> org) ss"

text \<open>The header of a request authenticates nobody, or only users of one organization.\<close>

definition identities :: "('q, 'd) Deps \<Rightarrow> app_env \<Rightarrow> http_input \<Rightarrow> auth_db \<Rightarrow> string list \<Rightarrow> auth_result" where
  "identities P E r adb scopes = fst (authenticate (ae_lib E) (ae_secret E) scopes (hi_header r) (dp_now P) adb)"

text \<open>Credentials that stand for nobody leave no trace.\<close>

lemma firstMatch_error: "firstMatch L key now rows adb = (Inl e, adb') \<Longrightarrow> adb' = adb"
  by (induction rows) (auto split: if_splits)

lemma authenticate_nobody:
  assumes "\<And>user. fst (authenticate L secret [] header now adb) \<noteq> Proceed user"
  shows "\<exists>code msg. authenticate L secret scopes header now adb = (Reject code msg, adb) \<and> code \<in> {401, 403}"
proof -
  obtain res adb' where run: "authenticate L secret scopes header now adb = (res, adb')" by fastforce
  have "\<exists>code msg. rejectError e = Reject code msg" for e by (cases e) auto
  then have "(\<exists>code msg. res = Reject code msg) \<and> adb' = adb"
    using assms run
    by (auto simp: authenticate_def verifyApiKey_def checkScopes_def dest: firstMatch_error
        split: option.splits if_splits sum.splits prod.splits)
  with run authenticate_codes show ?thesis by blast
qed

lemma resolve_anonymous:
  "resolve P None q st = Inr (ans, st') \<Longrightarrow> st' = st \<and> ((\<exists>ws. ans = GWorkers ws) \<or> (\<exists>h. ans = GHealth h) \<or> (\<exists>es. ans = GHistory es))"
  by (cases q) (auto simp: withUser_def)

lemma others_update:
  "(\<And>s. p s \<Longrightarrow> sd_organizationId s = org) \<Longrightarrow> (\<And>s. sd_organizationId (f s) = sd_organizationId s) \<Longrightarrow>
   othersSchedules org (updateSchedules p f ss) = othersSchedules org ss"
  by (induction ss) (auto simp: othersSchedules_def updateSchedules_def)

lemma others_filter:
  "(\<And>s. sd_organizationId s \<noteq> org \<Longrightarrow> p s) \<Longrightarrow> othersSchedules org (filter p ss) = othersSchedules org ss"
  by (induction ss) (auto simp: othersSchedules_def)

lemma handleSchedule_isolated:
  assumes "handleSchedule nextCron dup newId now user body q ss = (resp, ss')"
  shows "othersSchedules (au_organizationId user) ss' = othersSchedules (au_organizationId user) ss \<and>
    (\<forall>s \<in> set (answerSchedules (ScheduleAnswer resp)). sd_organizationId s = au_organizationId user)"
proof (cases q)
  case SCreate
  then show ?thesis
    using assms by (auto simp: createSchedule_def othersSchedules_def Let_def split: sum.splits if_splits)
next
  case (SPause i)
  then show ?thesis using assms by (auto simp: pauseSchedule_def intro!: others_update)
next
  case (SDelete i)
  then show ?thesis using assms by (auto simp: deleteSchedule_def intro!: others_filter)
qed (use assms in \<open>auto simp: listSchedules_def resumeSchedule_def destructureFirst_def\<close>)

lemma jobsApi_cases:
  assumes "jobsApi P L secret limited header complaints req (adb, st) = (resp, adb', st')"
  shows "st' = st \<and> bodyJobs (snd resp) = [] \<or>
    (\<exists>user adb1. authenticate L secret (jobScopes req) header (dp_now P) adb = (Proceed user, adb1) \<and>
      handleJob P user req st = (resp, st'))"
  using assms by (auto simp: jobsApi_def Let_def split: if_splits prod.splits auth_result.splits)

lemma schedulesApi_cases:
  assumes "schedulesApi nextCron dup newId now L secret limited header complaints body q (adb, ss) = (resp, adb', ss')"
  shows "ss' = ss \<and> answerSchedules (ScheduleAnswer resp) = [] \<or>
    (\<exists>user adb1. authenticate L secret (scheduleScopes q) header now adb = (Proceed user, adb1) \<and>
      handleSchedule nextCron dup newId now user body q ss = (resp, ss'))"
  using assms by (auto simp: schedulesApi_def Let_def split: if_splits prod.splits auth_result.splits)

section \<open>Properties\<close>

text \<open>
  The addresses of the job API are unambiguous: the path of every endpoint, under the prefix of
  the API, leads to that endpoint with its identifier, whatever the identifier, except that a job
  cannot be fetched whose identifier is \<^verbatim>\<open>stats\<close> or \<^verbatim>\<open>dlq\<close> up to case.
\<close>

theorem job_routes_roundtrip:
  assumes "addressable r"
  shows "dispatchRequest apiVersion (fst (urlOf r)) ([''api'', apiVersion, ''jobs''] @ snd (urlOf r)) = ToJobs r"
  using firstRoute_job [OF assms] by (simp add: dispatchRequest_def under_def)

theorem job_routes_roundtrip_witness:
  "dispatchRequest ''v1'' GET [''api'', ''v1'', ''jobs'', ''42''] = ToJobs (RGet ''42'')"
  using job_routes_roundtrip [of "RGet ''42''" "''v1''"] by (simp add: sameSegment_def lower_def)


definition sample_env :: app_env where
  "sample_env = \<lparr>ae_lib = sample_lib, ae_secret = ''s'', ae_apiVersion = ''v1'', ae_duplicate = (\<lambda>i. ''duplicate''), ae_version = None,
     ae_uptime = 1, ae_memory = [], ae_postgres = (1, Inr ()), ae_redis = (1, None)\<rparr>"

definition sample_input :: "verb \<Rightarrow> string list \<Rightarrow> string option \<Rightarrow> http_input" where
  "sample_input v path header =
     \<lparr>hi_verb = v, hi_path = path, hi_header = header, hi_limited = False, hi_complaints = [], hi_dto = sample_dto None,
      hi_filter = no_filter, hi_page = None, hi_limit = None, hi_ids = None,
      hi_schedule = \<lparr>b_name = ''n'', b_description = None, b_cronExpression = ''* * * * *'', b_timezone = None,
        b_jobTemplate = sd_jobTemplate (sample_schedule ''a'' ''* * * * *'')\<rparr>,
      hi_gql = QWorkers\<rparr>"

definition sample_app :: "((id \<times> QueueJobPayload) list, (id \<times> DLQEntry) list) app_state" where
  "sample_app = \<lparr>as_auth = sample_auth_db, as_schedules = [(sample_schedule ''a'' ''* * * * *'')\<lparr>sd_organizationId := ''org1''\<rparr>],
     as_scheduler = new_Scheduler, as_world = sample_world [sample_job ''a'' []]\<rparr>"

lemma sample_identities:
  "identities sample_deps sample_env (sample_input v path (Some ''ApiKey 12345678xyz'')) (as_auth sample_app) scopes = checkScopes scopes sample_user"
  by (simp add: identities_def sample_env_def sample_input_def sample_app_def sample_deps_def authenticate_def startsWith_def
      verifyApiKey_def js_slice_zero apiKeyRows_def usable_def sample_auth_db_def sample_lib_def keyUser_def sample_user_def)




end
