(* ===== verification/CronOverlap.thy ===== *)
theory CronOverlap
  imports CronScheduler
begin

text \<open>
  Overlapping ticks of \<^verbatim>\<open>src/scheduler/CronScheduler.ts\<close>. The interval does not await \<^verbatim>\<open>tick\<close>, so a
  tick that takes longer than the interval runs beside the next one. A state has the list of the fetched
  schedules that each started tick has still to trigger. The locks of \<^verbatim>\<open>forUpdate().skipLocked()\<close> end with
  their statement, as no transaction is open, so no tick locks a row for another. The steps
  are the two database rounds of a tick: to fetch, and to trigger the next schedule.
\<close>

section \<open>Steps\<close>

datatype cron_event = BeginTick time | StepTick nat string time id

type_synonym ('q, 'd) cron_state = "Schedule list list \<times> schedules \<times> Scheduler \<times> ('q, 'd) world"

fun cronEvent :: "cron \<Rightarrow> cron_event \<Rightarrow> ('q, 'd) cron_state \<Rightarrow> ('q, 'd) cron_state" where
  "cronEvent nextCron (BeginTick now) (ticks, st) = (ticks @ [fetchDueSchedules now {} (fst st)], st)"
| "cronEvent nextCron (StepTick k stamp now newId) (ticks, st) =
     (if k < length ticks
      then case ticks ! k of
             [] \<Rightarrow> (ticks, st)
           | s # rest \<Rightarrow>
               (case triggerSchedule nextCron stamp now newId s st of
                  (None, st') \<Rightarrow> (ticks[k := rest], st')
                | (Some err, st') \<Rightarrow> (ticks[k := []], st'))
      else (ticks, st))"

definition cronRun :: "cron \<Rightarrow> cron_event list \<Rightarrow> ('q, 'd) cron_state \<Rightarrow> ('q, 'd) cron_state" where
  "cronRun nextCron es st = fold (cronEvent nextCron) es st"

section \<open>Lemmas\<close>

lemma cronRun_simps [simp]:
  "cronRun nextCron [] st = st" "cronRun nextCron (e # es) st = cronRun nextCron es (cronEvent nextCron e st)"
  by (simp_all add: cronRun_def)

text \<open>The steps of one tick with nothing in between are the tick of \<^verbatim>\<open>CronScheduler\<close>.\<close>

definition tickEvents :: "string \<Rightarrow> time \<Rightarrow> (id \<Rightarrow> id) \<Rightarrow> nat \<Rightarrow> Schedule list \<Rightarrow> cron_event list" where
  "tickEvents stamp now newId k ds = map (\<lambda>s. StepTick k stamp now (newId (sd_id s))) ds"

lemma finished_tick: "cronRun nextCron (tickEvents stamp now newId (length ticks) ds) (ticks @ [[]], st) = (ticks @ [[]], st)"
  by (induction ds) (simp_all add: tickEvents_def)

lemma tick_steps:
  "cronRun nextCron (tickEvents stamp now newId (length ticks) ds) (ticks @ [ds], st) =
     (ticks @ [[]], snd (triggerAll nextCron stamp now newId ds st))"
proof (induction ds arbitrary: st)
  case (Cons d ds)
  obtain e st' where one: "triggerSchedule nextCron stamp now (newId (sd_id d)) d st = (e, st')" by (metis surj_pair)
  show ?case
  proof (cases e)
    case None
    with one Cons show ?thesis by (simp add: tickEvents_def)
  next
    case (Some err)
    with one finished_tick [of nextCron stamp now newId ticks ds st'] show ?thesis by (simp add: tickEvents_def)
  qed
qed (simp add: tickEvents_def)

lemma uninterrupted_tick:
  "cronRun nextCron (BeginTick now # tickEvents stamp now newId (length ticks) (fetchDueSchedules now {} (fst st))) (ticks, st) =
     (ticks @ [[]], cronTick nextCron stamp now newId {} st)"
  by (simp add: tick_steps cronTick_def)

text \<open>The jobs made from a schedule, by their metadata, and the counter of the schedule.\<close>

definition madeFrom :: "id \<Rightarrow> jobs \<Rightarrow> nat" where
  "madeFrom i db = length (filter (\<lambda>j. map_of (j_metadata j) ''scheduleId'' = Some (JStr i)) db)"

definition counted :: "schedules \<Rightarrow> jobs \<Rightarrow> bool" where
  "counted ss db \<longleftrightarrow> (\<forall>s \<in> set ss. int (madeFrom (sd_id s) db) \<le> sd_totalTriggeredCount s)"

lemma madeFrom_cron: "madeFrom i (db @ [newRow newId now (cronDto stamp s)]) = madeFrom i db + (if sd_id s = i then 1 else 0)"
  by (simp add: madeFrom_def newRow_def cronDto_def nullish_def)

lemma submitJob_jobs:
  "submitJob newId now dto st = Inr (job, st') \<Longrightarrow> s_jobs (snd st') = s_jobs (snd st) @ [newRow newId now dto]"
  by (auto simp: submitJob_def create_def Let_def split: sum.splits if_splits)

lemma counted_trigger:
  assumes "counted ss (s_jobs w)" "triggerSchedule nextCron stamp now newId s (ss, sc, w) = (e, ss', sc', w')"
  shows "counted ss' (s_jobs w')"
proof (cases "nextCron (sd_cronExpression s) (sd_timezone s) now")
  case (Inr nextRun)
  let ?ss = "updateSchedules (\<lambda>x. sd_id x = sd_id s) (advanced nextRun now) ss"
  from assms(2) Inr have ss': "ss' = ?ss"
    and "s_jobs w' = s_jobs w \<or> s_jobs w' = s_jobs w @ [newRow newId now (cronDto stamp s)]"
    by (auto simp: triggerSchedule_def Let_def dest: submitJob_jobs split: sum.splits)
  then have "int (madeFrom i (s_jobs w')) \<le> int (madeFrom i (s_jobs w)) + (if sd_id s = i then 1 else 0)" for i
    by (auto simp: madeFrom_cron)
  note le = order_trans [OF this]
  show ?thesis
    unfolding counted_def ss' updateSchedules_def
    using assms(1) by (auto simp: counted_def advanced_def intro!: le)
qed (use assms in \<open>simp add: triggerSchedule_def\<close>)

section \<open>Properties\<close>

text \<open>
  C25. However the ticks overlap, no trigger goes uncounted: as long as every schedule has been counted at least as often as
  jobs were made from it, this stays so after any sequence of steps of any number of ticks.
\<close>

theorem cron_jobs_counted:
  assumes "counted ss (s_jobs w)" and run: "cronRun nextCron es (ticks, ss, sc, w) = (ticks', ss', sc', w')"
  shows "counted ss' (s_jobs w')"
  using assms
proof (induction es arbitrary: ticks ss sc w)
  case (Cons e es)
  obtain ticks1 ss1 sc1 w1 where step: "cronEvent nextCron e (ticks, ss, sc, w) = (ticks1, ss1, sc1, w1)" by (metis prod_cases4)
  have "counted ss1 (s_jobs w1)"
    using step Cons.prems(1)
    by (cases e) (auto dest: counted_trigger split: if_splits list.splits prod.splits option.splits)
  with Cons.IH step Cons.prems(2) show ?case by simp
qed simp

text \<open>
  Two overlapping ticks trigger a schedule twice: both have fetched it before either has moved it on, and each creates
  a job from it.
\<close>

theorem cron_overlap_duplicates:
  assumes due: "fetchDueSchedules now {} ss = s # rest" and cron: "cron_ok nextCron now s"
    and new: "findById i (s_jobs w) = None" "findById k (s_jobs w) = None" "i \<noteq> k"
  shows "\<exists>ticks' ss' sc' w'. cronRun nextCron [BeginTick now, BeginTick now, StepTick 0 stamp now i, StepTick 1 stamp now k]
      ([], ss, sc, w) = (ticks', ss', sc', w') \<and>
    s_jobs w' = s_jobs w @ [newRow i now (cronDto stamp s), newRow k now (cronDto stamp s)]"
proof -
  obtain sc1 w1 where one: "triggerSchedule nextCron stamp now i s (ss, sc, w) = (None, advance nextCron now s ss, sc1, w1)"
    "s_jobs w1 = s_jobs w @ [newRow i now (cronDto stamp s)]"
    using triggerSchedule_ok [OF cron new(1)] by blast
  have "findById k (s_jobs w1) = None" using new by (auto simp: one(2) findById_append newRow_def)
  from triggerSchedule_ok [OF cron this] obtain sc2 w2 where
    "triggerSchedule nextCron stamp now k s (advance nextCron now s ss, sc1, w1) =
       (None, advance nextCron now s (advance nextCron now s ss), sc2, w2)"
    "s_jobs w2 = s_jobs w1 @ [newRow k now (cronDto stamp s)]" by blast
  with one due show ?thesis by simp
qed

theorem cron_jobs_counted_witness:
  "\<exists>ticks' ss' sc' w'. cronRun minutely [BeginTick 10, BeginTick 10, StepTick 0 ''t'' 10 ''x'', StepTick 1 ''t'' 10 ''y'']
      ([], [sample_schedule ''a'' ''* * * * *''], new_Scheduler, sample_world []) = (ticks', ss', sc', w') \<and> counted ss' (s_jobs w')"
proof -
  let ?es = "[BeginTick 10, BeginTick 10, StepTick 0 ''t'' 10 ''x'', StepTick 1 ''t'' 10 ''y'']"
  let ?ss = "[sample_schedule ''a'' ''* * * * *'']"
  obtain ticks' ss' sc' w' where run: "cronRun minutely ?es ([], ?ss, new_Scheduler, sample_world []) = (ticks', ss', sc', w')"
    by (metis prod_cases4)
  have "counted ?ss (s_jobs (sample_world []))" by (simp add: counted_def madeFrom_def sample_world_def sample_schedule_def)
  from cron_jobs_counted [OF this run] run show ?thesis by blast
qed

theorem cron_overlap_duplicates_witness:
  "\<exists>ticks' ss' sc' w'. cronRun minutely [BeginTick 10, BeginTick 10, StepTick 0 ''t'' 10 ''x'', StepTick 1 ''t'' 10 ''y'']
      ([], [sample_schedule ''a'' ''* * * * *''], new_Scheduler, sample_world []) = (ticks', ss', sc', w') \<and>
    map j_id (s_jobs w') = [''x'', ''y'']"
proof -
  have "fetchDueSchedules 10 {} [sample_schedule ''a'' ''* * * * *''] = [sample_schedule ''a'' ''* * * * *'']"
    by (simp add: fetchDueSchedules_def due_def sample_schedule_def)
  from cron_overlap_duplicates [OF this minutely_ok, of "''x''" "sample_world []" "''y''" "''t''" new_Scheduler]
  show ?thesis by (auto simp: sample_world_def newRow_def)
qed

end
