(* ===== verification/WorkerLiveness.thy ===== *)
theory WorkerLiveness
  imports Monitoring
begin

text \<open>
  The process of \<^verbatim>\<open>src/workers/WorkerNode.ts\<close> in time: the interval that sends heartbeats, the
  signals and the shutdown, and the health check of \<^verbatim>\<open>src/monitoring/HealthCheck.ts\<close> that
  judges the worker by its row. A statement is sent at one instant and executed by the
  database at a later one, so statements in flight are part of the state and are
  executed in any order; a statement that was sent is executed even if the process has
  gone meanwhile. The effects on the table are those of \<open>WorkerProcess\<close> and \<open>Monitoring\<close>.
\<close>

section \<open>The process\<close>

text \<open>Where each call of \<^verbatim>\<open>shutdown\<close> stands: which of its three awaits it waits for.\<close>

datatype shutdownStage = AwaitDraining | AwaitClose | AwaitOffline | ShutDown

text \<open>Statements in flight: a heartbeat with the number of active jobs, the update of a call of \<^verbatim>\<open>shutdown\<close>, each with the instant it was sent.\<close>

datatype statement = Beat int time | SetStatus WorkerStatus time nat

record WorkerNodeProcess =
  np_heartbeatTimer :: "time option"
  np_pending :: "statement list"
  np_shutdowns :: "shutdownStage list"
  np_exit :: "int option"

text \<open>The end of \<^verbatim>\<open>start\<close>: the interval is set, the handlers of the signals wait.\<close>

definition newProcess :: "int \<Rightarrow> time \<Rightarrow> WorkerNodeProcess" where
  "newProcess heartbeatIntervalMs now =
     \<lparr>np_heartbeatTimer = Some (now + heartbeatIntervalMs), np_pending = [], np_shutdowns = [], np_exit = None\<rparr>"

definition sendHeartbeat :: "int \<Rightarrow> int \<Rightarrow> time \<Rightarrow> WorkerNodeProcess \<Rightarrow> WorkerNodeProcess" where
  "sendHeartbeat heartbeatIntervalMs activeCount now p =
     p\<lparr>np_heartbeatTimer := Some (now + heartbeatIntervalMs), np_pending := np_pending p @ [Beat activeCount now]\<rparr>"

text \<open>
  \<^verbatim>\<open>shutdown\<close> up to its first await. It is called for each SIGTERM, SIGINT and uncaught
  exception, without asking whether it is running already.
\<close>

definition shutdownNode :: "time \<Rightarrow> WorkerNodeProcess \<Rightarrow> WorkerNodeProcess" where
  "shutdownNode now p = p\<lparr>np_heartbeatTimer := None,
     np_pending := np_pending p @ [SetStatus DRAINING now (length (np_shutdowns p))],
     np_shutdowns := np_shutdowns p @ [AwaitDraining]\<rparr>"

text \<open>The BullMQ worker has closed: the status is sent, the third await.\<close>

definition workerClosed :: "time \<Rightarrow> nat \<Rightarrow> WorkerNodeProcess \<Rightarrow> WorkerNodeProcess" where
  "workerClosed now k p = p\<lparr>np_pending := np_pending p @ [SetStatus OFFLINE now k], np_shutdowns := (np_shutdowns p)[k := AwaitOffline]\<rparr>"

text \<open>The reply to a statement: a heartbeat has nothing to do, a call of \<^verbatim>\<open>shutdown\<close> goes on, at last to \<^verbatim>\<open>process.exit(0)\<close>.\<close>

fun statementReply :: "statement \<Rightarrow> WorkerNodeProcess \<Rightarrow> WorkerNodeProcess" where
  "statementReply (Beat n t) p = p"
| "statementReply (SetStatus st t k) p =
     (if np_exit p \<noteq> None then p
      else if st = DRAINING then p\<lparr>np_shutdowns := (np_shutdowns p)[k := AwaitClose]\<rparr>
      else p\<lparr>np_shutdowns := (np_shutdowns p)[k := ShutDown], np_exit := Some 0\<rparr>)"

text \<open>What a statement does to the table.\<close>

fun executeStatement :: "WorkerEnv \<Rightarrow> time \<Rightarrow> statement \<Rightarrow> workers \<Rightarrow> workers" where
  "executeStatement W startedAt (Beat n t) ws = heartbeatTick W startedAt n t ws"
| "executeStatement W startedAt (SetStatus st t k) ws = updateStatus (we_workerId W) st t ws"

text \<open>
  The entry point: an error of the connection or of the registration ends the process with
  code 1; otherwise the process runs.
\<close>

definition startNode ::
  "(string + unit) \<Rightarrow> (string + unit) \<Rightarrow> int \<Rightarrow> id \<Rightarrow> time \<Rightarrow> string \<Rightarrow> (string \<times> NetAddress list option) list \<Rightarrow> int \<Rightarrow> int \<Rightarrow>
   string option \<Rightarrow> string \<Rightarrow> string option \<Rightarrow> workers \<Rightarrow> int + WorkerEnv \<times> WorkerNodeProcess \<times> workers" where
  "startNode dbConnect dbRegister heartbeatIntervalMs newId now hostname nets pid concurrency region env version ws =
     (case dbConnect of Inl err \<Rightarrow> Inl 1
      | Inr _ \<Rightarrow> (case dbRegister of Inl err \<Rightarrow> Inl 1
        | Inr _ \<Rightarrow> (let (W, ws') = startWorker newId now hostname nets pid concurrency region env version ws
                    in Inr (W, newProcess heartbeatIntervalMs now, ws'))))"

section \<open>Steps\<close>

text \<open>
  Time, the process, the database and the health check. The interval fires at most \<open>late\<close> milliseconds after it is due,
  and a heartbeat is executed at most \<open>delay\<close> milliseconds after it was sent: time does not pass
  beyond these deadlines. An update of \<^verbatim>\<open>shutdown\<close> may fail: nothing catches the rejection, so
  that it reaches the handler of uncaught exceptions, which calls \<^verbatim>\<open>shutdown\<close> again. Others may change
  the table, but not the status and the last heartbeat of this worker.
\<close>

type_synonym node_system = "time \<times> WorkerNodeProcess \<times> workers"

definition vital :: "id \<Rightarrow> workers \<Rightarrow> (WorkerStatus \<times> time) option" where
  "vital i ws = map_option (\<lambda>w. (w_status w, w_lastHeartbeatAt w)) (findWorker i ws)"

inductive node_step :: "WorkerEnv \<Rightarrow> time \<Rightarrow> int \<Rightarrow> int \<Rightarrow> int \<Rightarrow> node_system \<Rightarrow> node_system \<Rightarrow> bool"
  for W startedAt interval late delay where
  tick: "c \<le> t \<Longrightarrow> \<forall>b. np_heartbeatTimer p = Some b \<longrightarrow> t \<le> b + late \<Longrightarrow>
    \<forall>n s. Beat n s \<in> set (np_pending p) \<longrightarrow> t \<le> s + delay \<Longrightarrow> node_step W startedAt interval late delay (c, p, ws) (t, p, ws)"
| beat: "np_heartbeatTimer p = Some b \<Longrightarrow> b \<le> c \<Longrightarrow>
    node_step W startedAt interval late delay (c, p, ws) (c, sendHeartbeat interval n c p, ws)"
| signal: "np_exit p = None \<Longrightarrow> node_step W startedAt interval late delay (c, p, ws) (c, shutdownNode c p, ws)"
| run: "np_pending p = xs @ s # ys \<Longrightarrow>
    node_step W startedAt interval late delay (c, p, ws) (c, statementReply s (p\<lparr>np_pending := xs @ ys\<rparr>), executeStatement W startedAt s ws)"
| reject: "np_pending p = xs @ SetStatus st t k # ys \<Longrightarrow> np_exit p = None \<Longrightarrow>
    node_step W startedAt interval late delay (c, p, ws) (c, shutdownNode c (p\<lparr>np_pending := xs @ ys\<rparr>), ws)"
| close: "k < length (np_shutdowns p) \<Longrightarrow> np_shutdowns p ! k = AwaitClose \<Longrightarrow> np_exit p = None \<Longrightarrow>
    node_step W startedAt interval late delay (c, p, ws) (c, workerClosed c k p, ws)"
| check: "checkWorkers url c ws = (lost, ws', posts) \<Longrightarrow> node_step W startedAt interval late delay (c, p, ws) (c, p, ws')"
| others: "vital (we_workerId W) ws' = vital (we_workerId W) ws \<Longrightarrow> node_step W startedAt interval late delay (c, p, ws) (c, p, ws')"

inductive node_reach :: "WorkerEnv \<Rightarrow> time \<Rightarrow> int \<Rightarrow> int \<Rightarrow> int \<Rightarrow> node_system \<Rightarrow> node_system \<Rightarrow> bool"
  for W startedAt interval late delay s0 where
  refl: "node_reach W startedAt interval late delay s0 s0"
| step: "node_reach W startedAt interval late delay s0 s1 \<Longrightarrow> node_step W startedAt interval late delay s1 s2 \<Longrightarrow>
    node_reach W startedAt interval late delay s0 s2"

text \<open>What every step keeps holds in every state that is reached.\<close>

locale node_invariant =
  fixes W :: WorkerEnv and startedAt :: time and interval late delay :: int and I :: "node_system \<Rightarrow> bool"
  assumes keeps: "node_step W startedAt interval late delay s s' \<Longrightarrow> I s \<Longrightarrow> I s'"
begin

lemma reached:
  assumes "node_reach W startedAt interval late delay s s'" "I s"
  shows "I s'"
  using assms by induction (auto intro: keeps)

end

section \<open>Lemmas\<close>

lemma vital_execute:
  "vital (we_workerId W) (heartbeatTick W startedAt n t ws) = map_option (\<lambda>_. (if n > 0 then BUSY else ONLINE, t)) (vital (we_workerId W) ws)"
  "vital (we_workerId W) (updateStatus (we_workerId W) st u ws) = map_option (\<lambda>(_, l). (st, l)) (vital (we_workerId W) ws)"
  by (cases "findWorker (we_workerId W) ws";
      auto simp: vital_def heartbeatTick_def heartbeat_def updateStatus_def findWorker_updateWorkers dest: findWorker_Some)+

lemma vital_check:
  assumes "checkWorkers url c ws = (lost, ws', posts)"
  shows "vital i ws' = map_option (\<lambda>(st, l). (if (st = ONLINE \<or> st = BUSY) \<and> l < c - 30000 then LOST else st, l)) (vital i ws)"
proof -
  have "ws' = snd (markLostWorkers 30000 c ws)"
    using assms by (auto simp: checkWorkers_def detectAndMarkLostWorkers_def Let_def split: prod.splits)
  then show ?thesis by (cases "findWorker i ws") (auto simp: vital_def markLostWorkers_row silent_def)
qed

lemma vital_start:
  assumes "startWorker newId now hostname nets pid concurrency region env version ws = (W, ws')" "findWorker newId ws = None"
  shows "vital (we_workerId W) ws' = Some (ONLINE, now)" "we_workerId W = newId"
  using assms by (auto simp: vital_def startWorker_def register_worker_def Let_def worker_rows.look_append)

text \<open>
  While the interval runs, only heartbeats are in flight, none beyond its deadline, and
  some \<open>h\<close>, the instant the last heartbeat was executed, bounds both the age of the row
  and the wait for the next heartbeat.
\<close>

definition in_time :: "int \<Rightarrow> int \<Rightarrow> int \<Rightarrow> time \<Rightarrow> WorkerNodeProcess \<Rightarrow> time \<Rightarrow> bool" where
  "in_time interval late delay c p b \<longleftrightarrow> np_shutdowns p = [] \<and> b \<le> c + interval \<and> c \<le> b + late \<and>
     (\<forall>s \<in> set (np_pending p). \<exists>n t. s = Beat n t \<and> t \<le> c \<and> c \<le> t + delay)"

definition awaited :: "int \<Rightarrow> int \<Rightarrow> WorkerNodeProcess \<Rightarrow> time \<Rightarrow> time \<Rightarrow> bool" where
  "awaited interval late p b h \<longleftrightarrow>
     b \<le> h + interval \<or> (\<exists>n t. Beat n t \<in> set (np_pending p) \<and> t \<le> h + interval + late)"

definition beating :: "id \<Rightarrow> int \<Rightarrow> int \<Rightarrow> int \<Rightarrow> node_system \<Rightarrow> bool" where
  "beating i interval late delay = (\<lambda>(c, p, ws). \<forall>b. np_heartbeatTimer p = Some b \<longrightarrow>
     in_time interval late delay c p b \<and> (\<exists>st l h. vital i ws = Some (st, l) \<and> (st = ONLINE \<or> st = BUSY) \<and>
       h - delay \<le> l \<and> awaited interval late p b h))"

lemmas process_defs = sendHeartbeat_def shutdownNode_def workerClosed_def newProcess_def

lemma beating_fresh:
  assumes "beating i interval late delay (c, p, ws)" "np_heartbeatTimer p = Some b" "0 \<le> delay"
  obtains st l where "vital i ws = Some (st, l)" "st = ONLINE \<or> st = BUSY" "c \<le> l + interval + late + 2 * delay"
proof -
  from assms(1,2) obtain st l h where v: "vital i ws = Some (st, l)" "st = ONLINE \<or> st = BUSY" "h - delay \<le> l"
    and more: "awaited interval late p b h" and time: "in_time interval late delay c p b"
    unfolding beating_def by auto
  have "c \<le> t + delay" if "Beat n t \<in> set (np_pending p)" for n t
    using time that unfolding in_time_def by fastforce
  with more time have "c \<le> h + interval + late + delay"
    unfolding awaited_def in_time_def using assms(3) by force
  with v show thesis by (intro that [of st l]) auto
qed

lemma beating_send:
  assumes inv: "beating i interval late delay (c, p, ws)" and b: "np_heartbeatTimer p = Some b"
    and bounds: "0 \<le> interval" "0 \<le> late" "0 \<le> delay"
  shows "beating i interval late delay (c, sendHeartbeat interval n c p, ws)"
proof -
  from inv b obtain st l h where v: "vital i ws = Some (st, l)" "st = ONLINE \<or> st = BUSY" "h - delay \<le> l"
    and more: "awaited interval late p b h" and time: "in_time interval late delay c p b"
    unfolding beating_def by auto
  from more time have "awaited interval late (sendHeartbeat interval n c p) (c + interval) h"
    unfolding awaited_def in_time_def sendHeartbeat_def by force
  moreover have "in_time interval late delay c (sendHeartbeat interval n c p) (c + interval)"
    using time bounds unfolding in_time_def sendHeartbeat_def by fastforce
  ultimately show ?thesis using v unfolding beating_def by (auto simp: sendHeartbeat_def)
qed

lemma beating_executed:
  assumes inv: "beating (we_workerId W) interval late delay (c, p, ws)" and fly: "np_pending p = xs @ Beat n t # ys"
  shows "beating (we_workerId W) interval late delay (c, p\<lparr>np_pending := xs @ ys\<rparr>, heartbeatTick W startedAt n t ws)"
  unfolding beating_def prod.case
proof (intro allI impI conjI)
  let ?p = "p\<lparr>np_pending := xs @ ys\<rparr>" and ?ws = "heartbeatTick W startedAt n t ws"
  fix b assume "np_heartbeatTimer ?p = Some b"
  with inv have old: "in_time interval late delay c p b" and v: "vital (we_workerId W) ws \<noteq> None"
    unfolding beating_def by auto
  from old fly show time: "in_time interval late delay c ?p b" unfolding in_time_def by auto
  from v have "vital (we_workerId W) ?ws = Some (if n > 0 then BUSY else ONLINE, t)" by (auto simp: vital_execute)
  moreover have "c - delay \<le> t" using old fly unfolding in_time_def by force
  moreover have "awaited interval late ?p b c" using time unfolding in_time_def awaited_def by blast
  ultimately show "\<exists>st l h. vital (we_workerId W) ?ws = Some (st, l) \<and> (st = ONLINE \<or> st = BUSY) \<and>
      h - delay \<le> l \<and> awaited interval late ?p b h"
    by (metis (full_types))
qed

text \<open>While the interval runs, no call of \<^verbatim>\<open>shutdown\<close> is under way and none of its updates in flight.\<close>

lemma beating_stopped:
  assumes "beating i interval late delay (c, p, ws)" "SetStatus st t k \<in> set (np_pending p) \<or> np_shutdowns p \<noteq> []"
  shows "np_heartbeatTimer p = None"
  using assms unfolding beating_def in_time_def by (cases "np_heartbeatTimer p") auto

lemma beating_step:
  assumes step: "node_step W startedAt interval late delay s s'" and inv: "beating (we_workerId W) interval late delay s"
    and bounds: "0 \<le> interval" "0 \<le> late" "0 \<le> delay" "interval + late + 2 * delay \<le> 30000"
  shows "beating (we_workerId W) interval late delay s'"
  using step inv
proof induction
  case (tick c t p ws)
  then have "in_time interval late delay t p b" if "np_heartbeatTimer p = Some b" for b
    using that unfolding beating_def in_time_def by fastforce
  with tick show ?case unfolding beating_def by auto
next
  case (beat p b c ws n)
  then show ?case using beating_send bounds by blast
next
  case (run p xs s ys c ws)
  show ?case
  proof (cases s)
    case (Beat n t)
    with run beating_executed show ?thesis by simp
  next
    case (SetStatus st t k)
    with run beating_stopped [OF run(2), of st t k] show ?thesis by (simp add: beating_def)
  qed
next
  case (close k p c ws)
  then have "np_shutdowns p \<noteq> []" by auto
  then have "np_heartbeatTimer p = None" using beating_stopped [OF close(4)] by blast
  then show ?case by (simp add: beating_def workerClosed_def)
next
  case (check url c ws lost ws' posts p)
  have "vital (we_workerId W) ws' = vital (we_workerId W) ws" if "np_heartbeatTimer p = Some b" for b
    using beating_fresh [OF check(2) that bounds(3)] bounds(4) vital_check [OF check(1), of "we_workerId W"] by fastforce
  with check(2) show ?case unfolding beating_def by auto
qed (simp_all add: beating_def shutdownNode_def)

interpretation alive: node_invariant W startedAt interval late delay
  "\<lambda>s. 0 \<le> interval \<and> 0 \<le> late \<and> 0 \<le> delay \<and> interval + late + 2 * delay \<le> 30000 \<and> beating (we_workerId W) interval late delay s"
  for W startedAt interval late delay
  by unfold_locales (use beating_step in blast)

text \<open>The stages of a shutdown that begins with nothing in flight, as long as no second one begins.\<close>

fun stage :: "shutdownStage list \<Rightarrow> statement list \<Rightarrow> int option \<Rightarrow> WorkerStatus \<Rightarrow> bool" where
  "stage [AwaitDraining] pending ex st \<longleftrightarrow> (\<exists>t. pending = [SetStatus DRAINING t 0]) \<and> ex = None"
| "stage [AwaitClose] pending ex st \<longleftrightarrow> pending = [] \<and> ex = None \<and> st = DRAINING"
| "stage [AwaitOffline] pending ex st \<longleftrightarrow> (\<exists>t. pending = [SetStatus OFFLINE t 0]) \<and> ex = None"
| "stage [ShutDown] pending ex st \<longleftrightarrow> pending = [] \<and> ex = Some 0 \<and> st = OFFLINE"
| "stage phases pending ex st \<longleftrightarrow> length phases \<ge> 2"

definition orderly :: "id \<Rightarrow> node_system \<Rightarrow> bool" where
  "orderly i = (\<lambda>(c, p, ws). np_heartbeatTimer p = None \<and>
     (\<exists>st l. vital i ws = Some (st, l) \<and> stage (np_shutdowns p) (np_pending p) (np_exit p) st))"

lemma stage_longer: "2 \<le> length phases \<Longrightarrow> stage phases pending ex st"
  by (cases "(phases, pending, ex, st)" rule: stage.cases) auto

lemma stage_cases:
  assumes "stage phases pending ex st"
  obtains "2 \<le> length phases"
  | t where "phases = [AwaitDraining]" "pending = [SetStatus DRAINING t 0]" "ex = None"
  | "phases = [AwaitClose]" "pending = []" "ex = None" "st = DRAINING"
  | t where "phases = [AwaitOffline]" "pending = [SetStatus OFFLINE t 0]" "ex = None"
  | "phases = [ShutDown]" "pending = []" "ex = Some 0" "st = OFFLINE"
  using assms by (cases "(phases, pending, ex, st)" rule: stage.cases) auto

lemma length_shutdowns_reply [simp]: "length (np_shutdowns (statementReply s p)) = length (np_shutdowns p)"
  "np_heartbeatTimer (statementReply s p) = np_heartbeatTimer p"
  by (cases s; simp)+

lemma stage_run:
  assumes "stage (np_shutdowns p) (xs @ s # ys) (np_exit p) st" "vital (we_workerId W) ws = Some (st, l)"
  obtains st' l' where "vital (we_workerId W) (executeStatement W startedAt s ws) = Some (st', l')"
    "stage (np_shutdowns (statementReply s (p\<lparr>np_pending := xs @ ys\<rparr>))) (np_pending (statementReply s (p\<lparr>np_pending := xs @ ys\<rparr>)))
      (np_exit (statementReply s (p\<lparr>np_pending := xs @ ys\<rparr>))) st'"
proof -
  obtain st' l' where v: "vital (we_workerId W) (executeStatement W startedAt s ws) = Some (st', l')"
    using assms(2) by (cases s) (fastforce simp: vital_execute)+
  from assms(1) show thesis
  proof (cases rule: stage_cases)
    case 1
    then show thesis by (intro that [OF v] stage_longer) simp
  qed (use assms v that in \<open>auto simp: append_eq_Cons_conv vital_execute\<close>)
qed

lemma stage_close:
  assumes "stage phases pending ex st" "k < length phases" "phases ! k = AwaitClose"
  shows "stage (phases[k := AwaitOffline]) (pending @ [SetStatus OFFLINE c k]) ex st"
  using assms(1)
proof (cases rule: stage_cases)
  case 1
  then show ?thesis by (intro stage_longer) simp
qed (use assms in auto)

lemma orderly_step:
  assumes "node_step W startedAt interval late delay s s'" "orderly (we_workerId W) s"
  shows "orderly (we_workerId W) s'"
  using assms
proof induction
  case (signal p c ws)
  then show ?case by (auto simp: orderly_def shutdownNode_def elim!: stage_cases intro!: stage_longer)
next
  case (run p xs s ys c ws)
  then obtain st l where "stage (np_shutdowns p) (xs @ s # ys) (np_exit p) st" "vital (we_workerId W) ws = Some (st, l)"
    "np_heartbeatTimer p = None"
    by (auto simp: orderly_def)
  from stage_run [OF this(1,2), of startedAt] this(3) show ?case by (fastforce simp: orderly_def)
next
  case (reject p xs st t k ys c ws)
  then show ?case by (auto simp: orderly_def shutdownNode_def elim!: stage_cases intro!: stage_longer)
next
  case (close k p c ws)
  then show ?case by (auto simp: orderly_def workerClosed_def dest: stage_close)
next
  case (check url c ws lost ws' posts p)
  then obtain st l where inv: "stage (np_shutdowns p) (np_pending p) (np_exit p) st" "vital (we_workerId W) ws = Some (st, l)"
    "np_heartbeatTimer p = None"
    by (auto simp: orderly_def)
  let ?st = "if (st = ONLINE \<or> st = BUSY) \<and> l < c - 30000 then LOST else st"
  have "stage (np_shutdowns p) (np_pending p) (np_exit p) ?st"
    using inv(1) by (cases rule: stage_cases) (auto intro: stage_longer)
  moreover have "vital (we_workerId W) ws' = Some (?st, l)" using inv(2) vital_check [OF check(1)] by simp
  ultimately show ?case using inv(3) by (auto simp: orderly_def)
qed (auto simp: orderly_def)

interpretation draining: node_invariant W startedAt interval late delay "orderly (we_workerId W)"
  for W startedAt interval late delay
  by unfold_locales (rule orderly_step)

section \<open>Properties\<close>

text \<open>
  C27. A worker that is alive is never declared lost: when the heartbeat interval, the lateness of
  the timer and twice the delay of a statement stay within the 30 seconds of the
  health check, then in every state reached from the registration, as long as no
  shutdown has begun, the row of the worker is ONLINE or BUSY and its last heartbeat is
  no older than the limit, however health checks, heartbeats in flight that overtake each other, and
  changes by others interleave.
\<close>

theorem beating_worker_never_lost:
  assumes start: "startNode (Inr ()) (Inr ()) interval newId now hostname nets pid concurrency region env version ws0 = Inr (W, p0, ws1)"
      "findWorker newId ws0 = None"
    and bounds: "0 \<le> interval" "0 \<le> late" "0 \<le> delay" "interval + late + 2 * delay \<le> 30000"
    and reach: "node_reach W startedAt interval late delay (now, p0, ws1) (c, p, ws)" and alive: "np_heartbeatTimer p \<noteq> None"
  shows "\<exists>w. findWorker newId ws = Some w \<and> w_status w \<in> {ONLINE, BUSY} \<and> c - w_lastHeartbeatAt w \<le> 30000"
proof -
  from start(1) have s: "startWorker newId now hostname nets pid concurrency region env version ws0 = (W, ws1)" "p0 = newProcess interval now"
    by (auto simp: startNode_def split: prod.splits)
  note v = vital_start [OF s(1) start(2)]
  have "beating (we_workerId W) interval late delay (now, p0, ws1)"
    using v bounds by (auto simp: beating_def in_time_def awaited_def s(2) newProcess_def intro!: exI [of _ now])
  then have "beating (we_workerId W) interval late delay (c, p, ws)" using alive.reached [OF reach] bounds by blast
  moreover obtain b where "np_heartbeatTimer p = Some b" using alive by blast
  ultimately show ?thesis using beating_fresh [OF _ _ bounds(3)] bounds(4) v(2) by (fastforce simp: vital_def)
qed

theorem beating_worker_never_lost_witness:
  "\<exists>W p ws. startNode (Inr ()) (Inr ()) 5000 ''w'' 0 ''h'' [] 1 10 None ''test'' None [] = Inr (W, p, ws) \<and>
    node_reach W 0 5000 1000 10000 (0, p, ws) (5000, p, ws) \<and>
    (\<exists>w. findWorker ''w'' ws = Some w \<and> w_status w \<in> {ONLINE, BUSY} \<and> 5000 - w_lastHeartbeatAt w \<le> 30000)"
proof -
  obtain W p ws where start: "startNode (Inr ()) (Inr ()) 5000 ''w'' 0 ''h'' [] 1 10 None ''test'' None [] = Inr (W, p, ws)"
    "p = newProcess 5000 0" by (simp add: startNode_def startWorker_def register_worker_def Let_def)
  have reach: "node_reach W 0 5000 1000 10000 (0, p, ws) (5000, p, ws)"
    by (rule node_reach.step [OF node_reach.refl node_step.tick]) (simp_all add: start(2) newProcess_def)
  from beating_worker_never_lost [OF start(1) _ _ _ _ _ reach] start reach show ?thesis
    by (auto simp: newProcess_def)
qed

text \<open>
  C28. An orderly shutdown: a single signal that arrives while no statement is in flight
  takes the worker from DRAINING to OFFLINE, in this order; when the process has exited,
  its code is 0, nothing is in flight, and the row is OFFLINE and stays so, whatever
  the health check and others do.
\<close>

theorem shutdown_leaves_offline:
  assumes quiet: "np_pending p0 = []" "np_shutdowns p0 = []" "np_exit p0 = None" "findWorker (we_workerId W) ws0 \<noteq> None"
    and reach: "node_reach W startedAt interval late delay (c0, shutdownNode c0 p0, ws0) (c, p, ws)"
    and single: "length (np_shutdowns p) = 1"
  shows "np_exit p = None \<and> np_shutdowns p \<noteq> [ShutDown] \<or>
    np_exit p = Some 0 \<and> np_pending p = [] \<and> (\<exists>w. findWorker (we_workerId W) ws = Some w \<and> w_status w = OFFLINE)"
proof -
  have "orderly (we_workerId W) (c0, shutdownNode c0 p0, ws0)"
    using quiet by (auto simp: orderly_def shutdownNode_def vital_def)
  then have "orderly (we_workerId W) (c, p, ws)" by (rule draining.reached [OF reach])
  with single show ?thesis by (auto simp: orderly_def vital_def elim!: stage_cases)
qed

theorem shutdown_leaves_offline_witness:
  "\<exists>p ws. node_reach \<lparr>we_workerId = ''w'', we_concurrency = 10\<rparr> 0 5000 0 0 (9, shutdownNode 9 (newProcess 5000 5), [sample_worker ''w'' 0]) (9, p, ws) \<and>
    np_exit p = Some 0 \<and> (\<exists>w. findWorker ''w'' ws = Some w \<and> w_status w = OFFLINE)"
proof -
  let ?W = "\<lparr>we_workerId = ''w'', we_concurrency = 10\<rparr>" and ?ws = "[sample_worker ''w'' 0]"
  let ?p0 = "shutdownNode 9 (newProcess 5000 5)"
  let ?p1 = "statementReply (SetStatus DRAINING 9 0) (?p0\<lparr>np_pending := [] @ []\<rparr>)"
  let ?p2 = "workerClosed 9 0 ?p1"
  let ?p3 = "statementReply (SetStatus OFFLINE 9 0) (?p2\<lparr>np_pending := [] @ []\<rparr>)"
  let ?ws1 = "executeStatement ?W 0 (SetStatus DRAINING 9 0) ?ws" and ?ws3 = "executeStatement ?W 0 (SetStatus OFFLINE 9 0) (executeStatement ?W 0 (SetStatus DRAINING 9 0) ?ws)"
  have "node_step ?W 0 5000 0 0 (9, ?p0, ?ws) (9, ?p1, ?ws1)" by (rule node_step.run) (simp add: process_defs)
  moreover have "node_step ?W 0 5000 0 0 (9, ?p1, ?ws1) (9, ?p2, ?ws1)" by (rule node_step.close) (simp_all add: process_defs)
  moreover have "node_step ?W 0 5000 0 0 (9, ?p2, ?ws1) (9, ?p3, ?ws3)" by (rule node_step.run) (simp add: process_defs)
  ultimately have reach: "node_reach ?W 0 5000 0 0 (9, ?p0, ?ws) (9, ?p3, ?ws3)" by (meson node_reach.intros)
  from shutdown_leaves_offline [OF _ _ _ _ reach] reach show ?thesis
    by (intro exI [of _ ?p3] exI [of _ ?ws3]) (simp add: process_defs sample_worker_def)
qed

text \<open>
  Two races of the shutdown, both with all deadlines met. A heartbeat that is in flight when the signal
  arrives can be executed after the worker was set OFFLINE: the process has exited with code 0 and its row
  is ONLINE, until the health check reports it as lost. And of two signals the update of the second
  can be executed last: the process has exited and its row is DRAINING, which no check looks at.
\<close>

theorem late_heartbeat_race:
  assumes start: "startNode (Inr ()) (Inr ()) interval newId now hostname nets pid concurrency region env version ws0 = Inr (W, p0, ws1)"
      "findWorker newId ws0 = None" and bounds: "0 \<le> interval" "0 \<le> late" "0 \<le> delay"
  shows "\<exists>c p ws w. node_reach W startedAt interval late delay (now, p0, ws1) (c, p, ws) \<and> np_exit p = Some 0 \<and>
    np_pending p = [] \<and> findWorker newId ws = Some w \<and> w_status w = ONLINE"
proof -
  from start(1) have s: "startWorker newId now hostname nets pid concurrency region env version ws0 = (W, ws1)" "p0 = newProcess interval now"
    by (auto simp: startNode_def split: prod.splits)
  note v = vital_start [OF s(1) start(2)]
  let ?reach = "node_reach W startedAt interval late delay (now, p0, ws1)" and ?b = "now + interval"
  let ?p1 = "sendHeartbeat interval 0 ?b p0" let ?p2 = "shutdownNode ?b ?p1"
  let ?p3 = "statementReply (SetStatus DRAINING ?b 0) (?p2\<lparr>np_pending := [Beat 0 ?b] @ []\<rparr>)" let ?p4 = "workerClosed ?b 0 ?p3"
  let ?p5 = "statementReply (SetStatus OFFLINE ?b 0) (?p4\<lparr>np_pending := [Beat 0 ?b] @ []\<rparr>)"
  let ?p6 = "statementReply (Beat 0 ?b) (?p5\<lparr>np_pending := [] @ []\<rparr>)"
  let ?ws3 = "executeStatement W startedAt (SetStatus DRAINING ?b 0) ws1"
  let ?ws5 = "executeStatement W startedAt (SetStatus OFFLINE ?b 0) ?ws3"
  let ?ws6 = "executeStatement W startedAt (Beat 0 ?b) ?ws5"
  have r1: "?reach (?b, p0, ws1)" by (rule node_reach.step [OF node_reach.refl node_step.tick]) (use bounds in \<open>simp_all add: s process_defs\<close>)
  have r2: "?reach (?b, ?p1, ws1)" by (rule node_reach.step [OF r1 node_step.beat [of _ ?b]]) (simp_all add: s process_defs)
  have r3: "?reach (?b, ?p2, ws1)" by (rule node_reach.step [OF r2 node_step.signal]) (simp add: s process_defs)
  have r4: "?reach (?b, ?p3, ?ws3)" by (rule node_reach.step [OF r3 node_step.run]) (simp add: s process_defs)
  have r5: "?reach (?b, ?p4, ?ws3)" by (rule node_reach.step [OF r4 node_step.close]) (simp_all add: s process_defs)
  have r6: "?reach (?b, ?p5, ?ws5)" by (rule node_reach.step [OF r5 node_step.run]) (simp add: s process_defs)
  have r7: "?reach (?b, ?p6, ?ws6)" by (rule node_reach.step [OF r6 node_step.run]) (simp add: s process_defs)
  have "vital newId ?ws6 = Some (ONLINE, ?b)" unfolding v(2) [symmetric] by (simp add: vital_execute v(1))
  then obtain w where "findWorker newId ?ws6 = Some w" "w_status w = ONLINE" by (auto simp: vital_def)
  moreover have "np_exit ?p6 = Some 0" "np_pending ?p6 = []" by (simp_all add: s process_defs)
  ultimately show ?thesis using r7 by blast
qed

theorem late_heartbeat_race_witness:
  "\<exists>W p0 ws1 c p ws. startNode (Inr ()) (Inr ()) 5000 ''w'' 0 ''h'' [] 1 10 None ''test'' None [] = Inr (W, p0, ws1) \<and>
    node_reach W 0 5000 0 0 (0, p0, ws1) (c, p, ws) \<and> np_exit p = Some 0 \<and> map_option w_status (findWorker ''w'' ws) = Some ONLINE"
proof -
  obtain W p0 ws1 where start: "startNode (Inr ()) (Inr ()) 5000 ''w'' 0 ''h'' [] 1 10 None ''test'' None [] = Inr (W, p0, ws1)"
    by (simp add: startNode_def startWorker_def register_worker_def Let_def)
  from late_heartbeat_race [OF start, of 0 0 0] start show ?thesis by fastforce
qed

theorem double_signal_race:
  assumes start: "startNode (Inr ()) (Inr ()) interval newId now hostname nets pid concurrency region env version ws0 = Inr (W, p0, ws1)"
      "findWorker newId ws0 = None"
  shows "\<exists>p ws w. node_reach W startedAt interval late delay (now, p0, ws1) (now, p, ws) \<and> np_exit p = Some 0 \<and>
    np_pending p = [] \<and> findWorker newId ws = Some w \<and> w_status w = DRAINING"
proof -
  from start(1) have s: "startWorker newId now hostname nets pid concurrency region env version ws0 = (W, ws1)" "p0 = newProcess interval now"
    by (auto simp: startNode_def split: prod.splits)
  note v = vital_start [OF s(1) start(2)]
  let ?reach = "node_reach W startedAt interval late delay (now, p0, ws1)"
  let ?p1 = "shutdownNode now p0" let ?p2 = "statementReply (SetStatus DRAINING now 0) (?p1\<lparr>np_pending := [] @ []\<rparr>)"
  let ?p3 = "workerClosed now 0 ?p2" let ?p4 = "shutdownNode now ?p3"
  let ?p5 = "statementReply (SetStatus OFFLINE now 0) (?p4\<lparr>np_pending := [] @ [SetStatus DRAINING now 1]\<rparr>)"
  let ?p6 = "statementReply (SetStatus DRAINING now 1) (?p5\<lparr>np_pending := [] @ []\<rparr>)"
  let ?ws2 = "executeStatement W startedAt (SetStatus DRAINING now 0) ws1"
  let ?ws5 = "executeStatement W startedAt (SetStatus OFFLINE now 0) ?ws2"
  let ?ws6 = "executeStatement W startedAt (SetStatus DRAINING now 1) ?ws5"
  have r1: "?reach (now, ?p1, ws1)" by (rule node_reach.step [OF node_reach.refl node_step.signal]) (simp add: s process_defs)
  have r2: "?reach (now, ?p2, ?ws2)" by (rule node_reach.step [OF r1 node_step.run]) (simp add: s process_defs)
  have r3: "?reach (now, ?p3, ?ws2)" by (rule node_reach.step [OF r2 node_step.close]) (simp_all add: s process_defs)
  have r4: "?reach (now, ?p4, ?ws2)" by (rule node_reach.step [OF r3 node_step.signal]) (simp add: s process_defs)
  have r5: "?reach (now, ?p5, ?ws5)" by (rule node_reach.step [OF r4 node_step.run]) (simp add: s process_defs)
  have r6: "?reach (now, ?p6, ?ws6)" by (rule node_reach.step [OF r5 node_step.run]) (simp add: s process_defs)
  have "vital newId ?ws6 = Some (DRAINING, now)" unfolding v(2) [symmetric] by (simp add: vital_execute v(1))
  then obtain w where "findWorker newId ?ws6 = Some w" "w_status w = DRAINING" by (auto simp: vital_def)
  moreover have "np_exit ?p6 = Some 0" "np_pending ?p6 = []" by (simp_all add: s process_defs)
  ultimately show ?thesis using r6 by blast
qed

theorem double_signal_race_witness:
  "\<exists>W p0 ws1 p ws. startNode (Inr ()) (Inr ()) 5000 ''w'' 0 ''h'' [] 1 10 None ''test'' None [] = Inr (W, p0, ws1) \<and>
    node_reach W 0 5000 0 0 (0, p0, ws1) (0, p, ws) \<and> np_exit p = Some 0 \<and> map_option w_status (findWorker ''w'' ws) = Some DRAINING"
proof -
  obtain W p0 ws1 where start: "startNode (Inr ()) (Inr ()) 5000 ''w'' 0 ''h'' [] 1 10 None ''test'' None [] = Inr (W, p0, ws1)"
    by (simp add: startNode_def startWorker_def register_worker_def Let_def)
  from double_signal_race [OF start, of 0 0 0] start show ?thesis by fastforce
qed

end
