(* ===== verification/JsonText.thy ===== *)
theory JsonText
  imports Config NodeRegister
begin

text \<open>
  The text of JSON: \<^verbatim>\<open>JSON.stringify\<close> and \<^verbatim>\<open>JSON.parse\<close> as the program uses them for values that
  travel through Redis and PostgreSQL, \<^verbatim>\<open>safeJsonParse\<close> of \<^verbatim>\<open>src/utils/helpers.ts\<close>, and
  the log line of \<^verbatim>\<open>src/utils/logger.ts\<close>. Strings are UTF-8, so that a character
  beyond ASCII is copied as its bytes. Parsing is a lexer followed by a machine with a stack that reads one
  token at a time.
\<close>

section \<open>JSON.stringify\<close>

definition hexDigit :: "nat \<Rightarrow> char" where
  "hexDigit d = ''0123456789abcdef'' ! (d mod 16)"

definition escapeChar :: "char \<Rightarrow> string" where
  "escapeChar c =
     (if c = CHR 0x22 then [CHR 0x5C, CHR 0x22]
      else if c = CHR 0x5C then [CHR 0x5C, CHR 0x5C]
      else if c = CHR 0x08 then [CHR 0x5C, CHR ''b'']
      else if c = CHR 0x09 then [CHR 0x5C, CHR ''t'']
      else if c = CHR 0x0A then [CHR 0x5C, CHR ''n'']
      else if c = CHR 0x0C then [CHR 0x5C, CHR ''f'']
      else if c = CHR 0x0D then [CHR 0x5C, CHR ''r'']
      else if (of_char c :: nat) < 32
      then [CHR 0x5C, CHR ''u'', CHR ''0'', CHR ''0'', hexDigit (of_char c div 16), hexDigit (of_char c mod 16)]
      else [c])"

definition quoted :: "string \<Rightarrow> string" where
  "quoted s = [CHR 0x22] @ concat (map escapeChar s) @ [CHR 0x22]"

text \<open>
  The numeral of a number. A number with at most six decimals and fifteen digits is printed in plain decimal
  notation, which is what the language prints for it; other numbers are outside the model.
\<close>

definition decimals :: "number \<Rightarrow> nat option" where
  "decimals x = List.find (\<lambda>k. x * 10 ^ k = of_int \<lfloor>x * 10 ^ k\<rfloor> \<and> \<bar>x * 10 ^ k\<bar> < 10 ^ 15) [0..<7]"

fun fixedDigits :: "nat \<Rightarrow> nat \<Rightarrow> string" where
  "fixedDigits 0 n = []"
| "fixedDigits (Suc k) n = fixedDigits k (n div 10) @ [digit_char (n mod 10)]"

definition showDecimal :: "nat \<Rightarrow> number \<Rightarrow> string" where
  "showDecimal k x =
     (let n = nat \<bar>\<lfloor>x * 10 ^ k\<rfloor>\<bar>
      in (if x < 0 then ''-'' else []) @ show_nat (n div 10 ^ k) @ (if k = 0 then [] else ''.'' @ fixedDigits k (n mod 10 ^ k)))"

fun commaSep :: "string list \<Rightarrow> string" where
  "commaSep [] = []"
| "commaSep [x] = x"
| "commaSep (x # xs) = x @ '','' @ commaSep xs"

text \<open>The result is defined when all numbers inside are.\<close>

fun allSome :: "'a option list \<Rightarrow> 'a list option" where
  "allSome [] = Some []"
| "allSome (None # xs) = None"
| "allSome (Some x # xs) = map_option ((#) x) (allSome xs)"

fun stringify :: "json \<Rightarrow> string option" where
  "stringify JNull = Some ''null''"
| "stringify (JBool b) = Some (if b then ''true'' else ''false'')"
| "stringify (JNum x) = map_option (\<lambda>k. showDecimal k x) (decimals x)"
| "stringify (JStr s) = Some (quoted s)"
| "stringify (JArr vs) = map_option (\<lambda>ts. ''['' @ commaSep ts @ '']'') (allSome (map stringify vs))"
| "stringify (JObj ps) = map_option (\<lambda>ts. ''{'' @ commaSep ts @ ''}'')
     (allSome (map (\<lambda>(k, v). map_option (\<lambda>t. quoted k @ '':'' @ t) (stringify v)) ps))"

section \<open>JSON.parse: lexer\<close>

datatype token = TLBrace | TRBrace | TLBrack | TRBrack | TComma | TColon | TNull | TBool bool | TNum number | TStr string

definition hexValue :: "char \<Rightarrow> nat option" where
  "hexValue c =
     (let n = of_char c
      in if 48 \<le> n \<and> n \<le> 57 then Some (n - 48)
         else if 97 \<le> n \<and> n \<le> 102 then Some (n - 87)
         else if 65 \<le> n \<and> n \<le> 70 then Some (n - 55) else None)"

definition hex4 :: "string \<Rightarrow> nat option" where
  "hex4 s = (if length s < 4 then None
     else map_option (foldl (\<lambda>n d. n * 16 + d) 0) (allSome (map hexValue (take 4 s))))"

text \<open>The UTF-8 bytes of a code point.\<close>

definition utf8 :: "nat \<Rightarrow> string" where
  "utf8 u = map char_of
     (if u < 128 then [u]
      else if u < 2048 then [192 + u div 64, 128 + u mod 64]
      else if u < 65536 then [224 + u div 4096, 128 + u div 64 mod 64, 128 + u mod 64]
      else [240 + u div 262144, 128 + u div 4096 mod 64, 128 + u div 64 mod 64, 128 + u mod 64])"

definition simpleEscape :: "char \<Rightarrow> char option" where
  "simpleEscape c = map_of [(CHR 0x22, CHR 0x22), (CHR 0x5C, CHR 0x5C), (CHR ''/'', CHR ''/''), (CHR ''b'', CHR 0x08),
     (CHR ''f'', CHR 0x0C), (CHR ''n'', CHR 0x0A), (CHR ''r'', CHR 0x0D), (CHR ''t'', CHR 0x09)] c"

text \<open>The second half of a surrogate pair at the start of the text.\<close>

definition lowSurrogate :: "string \<Rightarrow> nat option" where
  "lowSurrogate s = (if take 2 s \<noteq> [CHR 0x5C, CHR ''u''] then None
     else case hex4 (drop 2 s) of None \<Rightarrow> None
       | Some l \<Rightarrow> if 56320 \<le> l \<and> l < 57344 then Some l else None)"

text \<open>What follows the opening quotation mark: the content and the text behind the closing one.\<close>

fun readString :: "string \<Rightarrow> (string \<times> string) option" where
  "readString [] = None"
| "readString (c # cs) =
     (if c = CHR 0x22 then Some ([], cs)
      else if c = CHR 0x5C then
        (case cs of
           [] \<Rightarrow> None
         | e # r \<Rightarrow>
             if e = CHR ''u'' then
               (case hex4 r of
                  None \<Rightarrow> None
                | Some u \<Rightarrow>
                    (case (if 55296 \<le> u \<and> u < 56320 then lowSurrogate (drop 4 r) else None) of
                       Some l \<Rightarrow> map_option (apfst ((@) (utf8 (65536 + (u - 55296) * 1024 + (l - 56320))))) (readString (drop 10 r))
                     | None \<Rightarrow> map_option (apfst ((@) (utf8 u))) (readString (drop 4 r))))
             else
               (case simpleEscape e of
                  None \<Rightarrow> None | Some d \<Rightarrow> map_option (apfst ((#) d)) (readString r)))
      else if (of_char c :: nat) < 32 then None
      else map_option (apfst ((#) c)) (readString cs))"

definition readFraction :: "string \<Rightarrow> (string \<times> string) option" where
  "readFraction s =
     (case s of
        [] \<Rightarrow> Some ([], s)
      | c # t \<Rightarrow> if c \<noteq> CHR ''.'' then Some ([], s)
          else if takeWhile isDigit t = [] then None else Some (takeWhile isDigit t, dropWhile isDigit t))"

definition readExponent :: "string \<Rightarrow> (int \<times> string) option" where
  "readExponent s =
     (if s = [] \<or> hd s \<notin> set ''eE'' then Some (0, s)
      else let t = tl s; sign = (if t \<noteq> [] \<and> hd t = CHR ''-'' then -1 else 1);
               u = (if t \<noteq> [] \<and> hd t \<in> set ''+-'' then tl t else t)
           in if takeWhile isDigit u = [] then None else Some (sign * decimal (takeWhile isDigit u), dropWhile isDigit u))"

definition scaled :: "number \<Rightarrow> int \<Rightarrow> number" where
  "scaled x e = (if e < 0 then x / 10 ^ nat (- e) else x * 10 ^ nat e)"

definition readNumber :: "string \<Rightarrow> (number \<times> string) option" where
  "readNumber s =
     (let neg = (s \<noteq> [] \<and> hd s = CHR ''-''); t = (if neg then tl s else s)
      in if t = [] \<or> \<not> isDigit (hd t) then None
         else
           (let whole = (if hd t = CHR ''0'' then ''0'' else takeWhile isDigit t); r = drop (length whole) t
            in case readFraction r of
                 None \<Rightarrow> None
               | Some (part, r1) \<Rightarrow>
                   (case readExponent r1 of
                      None \<Rightarrow> None
                    | Some (e, r2) \<Rightarrow>
                        Some ((if neg then - 1 else 1) * scaled (of_int (decimal (whole @ part)) / 10 ^ length part) e, r2))))"

definition punctuation :: "char \<Rightarrow> token option" where
  "punctuation c = map_of [(CHR ''{'', TLBrace), (CHR ''}'', TRBrace), (CHR ''['', TLBrack), (CHR '']'', TRBrack),
     (CHR '','', TComma), (CHR '':'', TColon)] c"

definition jsonSpace :: "char \<Rightarrow> bool" where
  "jsonSpace c \<longleftrightarrow> c = CHR 0x20 \<or> c = CHR 0x09 \<or> c = CHR 0x0A \<or> c = CHR 0x0D"

text \<open>One token and the text behind it, for a text that begins with neither space nor end.\<close>

definition readToken :: "string \<Rightarrow> (token \<times> string) option" where
  "readToken s =
     (case punctuation (hd s) of
        Some t \<Rightarrow> Some (t, tl s)
      | None \<Rightarrow>
          if hd s = CHR 0x22 then map_option (apfst TStr) (readString (tl s))
          else if take 4 s = ''null'' then Some (TNull, drop 4 s)
          else if take 4 s = ''true'' then Some (TBool True, drop 4 s)
          else if take 5 s = ''false'' then Some (TBool False, drop 5 s)
          else map_option (apfst TNum) (readNumber s))"

lemma readString_shorter: "readString s = Some (x, r) \<Longrightarrow> length r < length s"
proof (induction s arbitrary: x rule: readString.induct)
  case (2 c cs)
  show ?case
    using "2.prems" "2.IH"
    by (fastforce split: if_splits list.splits option.splits simp: apfst_def map_prod_def)
qed simp

lemma readFraction_shorter: "readFraction s = Some (x, r) \<Longrightarrow> length r \<le> length s"
  by (auto simp: readFraction_def length_dropWhile_le le_SucI split: list.splits if_splits)

lemma readExponent_shorter: "readExponent s = Some (x, r) \<Longrightarrow> length r \<le> length s"
proof -
  have "length (dropWhile isDigit (tl u)) \<le> length u" for u :: string
    using length_dropWhile_le [of isDigit "tl u"] by simp
  moreover have "length (dropWhile isDigit (tl (tl u))) \<le> length u" for u :: string
    using length_dropWhile_le [of isDigit "tl (tl u)"] by simp
  ultimately show "readExponent s = Some (x, r) \<Longrightarrow> length r \<le> length s"
    by (auto simp: readExponent_def Let_def split: if_splits)
qed

lemma readNumber_shorter: "readNumber s = Some (x, r) \<Longrightarrow> length r < length s"
proof -
  assume a: "readNumber s = Some (x, r)"
  let ?t = "if s \<noteq> [] \<and> hd s = CHR ''-'' then tl s else s"
  let ?whole = "if hd ?t = CHR ''0'' then ''0'' else takeWhile isDigit ?t"
  from a obtain part r1 e where t: "?t \<noteq> []" "isDigit (hd ?t)" and
    f: "readFraction (drop (length ?whole) ?t) = Some (part, r1)" and x: "readExponent r1 = Some (e, r)"
    unfolding readNumber_def Let_def by (auto split: if_splits option.splits)
  from t have "?whole \<noteq> []" by (cases ?t) auto
  with t(1) have "length (drop (length ?whole) ?t) < length ?t" by (cases ?t; cases ?whole) auto
  moreover have "length ?t \<le> length s" by simp
  ultimately show ?thesis using readFraction_shorter [OF f] readExponent_shorter [OF x] by linarith
qed

lemma readToken_shorter: "s \<noteq> [] \<Longrightarrow> readToken s = Some (t, r) \<Longrightarrow> length r < length s"
  by (cases s) (auto simp: readToken_def split: option.splits if_splits dest: readString_shorter readNumber_shorter)

function lexJson :: "string \<Rightarrow> token list option" where
  "lexJson s =
     (if s = [] then Some []
      else if jsonSpace (hd s) then lexJson (tl s)
      else case readToken s of None \<Rightarrow> None | Some (t, r) \<Rightarrow> map_option ((#) t) (lexJson r))"
  by pat_completeness auto
termination
  by (relation "measure length") (auto simp: readToken_shorter)

declare lexJson.simps [simp del]

section \<open>JSON.parse: values\<close>

text \<open>
  Setting a property of an object: a property keeps its place; a new one comes last, but keys that are array
  indices come first, in ascending order.
\<close>

definition arrayIndex :: "string \<Rightarrow> nat option" where
  "arrayIndex k = (if k \<noteq> [] \<and> list_all isDigit k \<and> show_nat (nat (decimal k)) = k \<and> decimal k < 4294967295
     then Some (nat (decimal k)) else None)"

fun precedes :: "nat option \<Rightarrow> nat option \<Rightarrow> bool" where
  "precedes (Some i) (Some j) = (i < j)"
| "precedes (Some i) None = True"
| "precedes None k = False"

fun setProperty :: "string \<Rightarrow> json \<Rightarrow> obj \<Rightarrow> obj" where
  "setProperty k v [] = [(k, v)]"
| "setProperty k v ((k', v') # ps) =
     (if k = k' then (k, v) # ps
      else if precedes (arrayIndex k) (arrayIndex k') then (k, v) # (k', v') # ps
      else (k', v') # setProperty k v ps)"

datatype frame = InArray "json list" | InObject obj | InProperty obj string

datatype mode = ExpectValue | ExpectElement | ExpectMember | ExpectKey | ExpectColon | Completed json

fun beginValue :: "frame list \<Rightarrow> token \<Rightarrow> (mode \<times> frame list) option" where
  "beginValue st TLBrack = Some (ExpectElement, InArray [] # st)"
| "beginValue st TLBrace = Some (ExpectMember, InObject [] # st)"
| "beginValue st TNull = Some (Completed JNull, st)"
| "beginValue st (TBool b) = Some (Completed (JBool b), st)"
| "beginValue st (TNum x) = Some (Completed (JNum x), st)"
| "beginValue st (TStr s) = Some (Completed (JStr s), st)"
| "beginValue st _ = None"

fun beginKey :: "frame list \<Rightarrow> token \<Rightarrow> (mode \<times> frame list) option" where
  "beginKey (InObject ps # st) (TStr k) = Some (ExpectColon, InProperty ps k # st)"
| "beginKey _ _ = None"

fun afterValue :: "json \<Rightarrow> frame list \<Rightarrow> token \<Rightarrow> (mode \<times> frame list) option" where
  "afterValue v (InArray vs # st) t =
     (if t = TComma then Some (ExpectValue, InArray (vs @ [v]) # st)
      else if t = TRBrack then Some (Completed (JArr (vs @ [v])), st) else None)"
| "afterValue v (InProperty ps k # st) t =
     (if t = TComma then Some (ExpectKey, InObject (setProperty k v ps) # st)
      else if t = TRBrace then Some (Completed (JObj (setProperty k v ps)), st) else None)"
| "afterValue v _ t = None"

fun parseStep :: "mode \<times> frame list \<Rightarrow> token \<Rightarrow> (mode \<times> frame list) option" where
  "parseStep (ExpectValue, st) t = beginValue st t"
| "parseStep (ExpectElement, st) t = (if t = TRBrack then Some (Completed (JArr []), tl st) else beginValue st t)"
| "parseStep (ExpectMember, st) t = (if t = TRBrace then Some (Completed (JObj []), tl st) else beginKey st t)"
| "parseStep (ExpectKey, st) t = beginKey st t"
| "parseStep (ExpectColon, st) t = (if t = TColon then Some (ExpectValue, st) else None)"
| "parseStep (Completed v, st) t = afterValue v st t"

fun parseTokens :: "mode \<times> frame list \<Rightarrow> token list \<Rightarrow> (mode \<times> frame list) option" where
  "parseTokens s [] = Some s"
| "parseTokens s (t # ts) = (case parseStep s t of None \<Rightarrow> None | Some s' \<Rightarrow> parseTokens s' ts)"

text \<open>\<open>None\<close> is the \<^verbatim>\<open>SyntaxError\<close>.\<close>

definition JSON_parse :: "string \<Rightarrow> json option" where
  "JSON_parse s =
     (case lexJson s of
        None \<Rightarrow> None
      | Some ts \<Rightarrow> (case parseTokens (ExpectValue, []) ts of Some (Completed v, []) \<Rightarrow> Some v | _ \<Rightarrow> None))"

text \<open>\<^verbatim>\<open>safeJsonParse\<close>: the value, or null when the text cannot be parsed.\<close>

definition safeJsonParse :: "string \<Rightarrow> json" where
  "safeJsonParse s = (case JSON_parse s of Some v \<Rightarrow> v | None \<Rightarrow> JNull)"

section \<open>Strings\<close>

lemma hexValue_hexDigit [simp]: "hexValue (hexDigit d) = Some (d mod 16)"
proof -
  have "list_all (\<lambda>d. hexValue (''0123456789abcdef'' ! d) = Some d) [0..<16]" by code_simp
  then have "hexValue (''0123456789abcdef'' ! (d mod 16)) = Some (d mod 16)" unfolding list_all_iff by simp
  then show ?thesis by (simp add: hexDigit_def)
qed

lemma hex4_Cons: "hex4 (a # b # c # d # t) = map_option (foldl (\<lambda>n d. n * 16 + d) 0) (allSome (map hexValue [a, b, c, d]))"
  "drop 4 (a # b # c # d # t) = t"
  by (simp_all add: hex4_def eval_nat_numeral)

lemma readString_escape: "readString (escapeChar c @ t) = map_option (apfst ((#) c)) (readString t)"
proof -
  let ?n = "of_char c :: nat"
  consider (named) "c \<in> set [CHR 0x22, CHR 0x5C, CHR 0x08, CHR 0x09, CHR 0x0A, CHR 0x0C, CHR 0x0D]"
    | (control) "c \<notin> set [CHR 0x22, CHR 0x5C, CHR 0x08, CHR 0x09, CHR 0x0A, CHR 0x0C, CHR 0x0D]" "?n < 32"
    | (plain) "c \<noteq> CHR 0x22" "c \<noteq> CHR 0x5C" "\<not> ?n < 32" by auto
  then show ?thesis
  proof cases
    case named
    then show ?thesis by (auto simp: escapeChar_def simpleEscape_def)
  next
    case control
    have "hexValue (CHR ''0'') = Some 0" by (simp add: hexValue_def)
    then have "hex4 (CHR ''0'' # CHR ''0'' # hexDigit (?n div 16) # hexDigit (?n mod 16) # t) = Some ?n"
      using control(2) by (simp add: hex4_Cons)
    moreover have "utf8 ?n = [c]" using control(2) by (simp add: utf8_def)
    moreover have "(@) [c] = (#) c" by auto
    ultimately show ?thesis using control by (simp add: escapeChar_def hex4_Cons(2))
  next
    case plain
    then show ?thesis by (auto simp: escapeChar_def)
  qed
qed

lemma readString_quoted: "readString (concat (map escapeChar s) @ CHR 0x22 # rest) = Some (s, rest)"
  by (induction s) (simp_all add: readString_escape del: readString.simps(2), simp)

section \<open>Numbers\<close>

definition delimited :: "string \<Rightarrow> bool" where
  "delimited s \<longleftrightarrow> s = [] \<or> hd s \<in> set '',]}'' \<or> jsonSpace (hd s)"

lemma delimited_facts:
  assumes "delimited s"
  shows "takeWhile isDigit s = []" "dropWhile isDigit s = s" "readFraction s = Some ([], s)" "readExponent s = Some (0, s)"
  using assms by (cases s; auto simp: delimited_def jsonSpace_def isDigit_def readFraction_def readExponent_def)+

lemma fixedDigits_facts:
  "length (fixedDigits k n) = k \<and> (\<forall>c \<in> set (fixedDigits k n). isDigit c) \<and>
   decimal (ds @ fixedDigits k n) = decimal ds * 10 ^ k + int (n mod 10 ^ k)"
proof (induction k arbitrary: n)
  case (Suc k)
  have "n mod (10 * 10 ^ k) = 10 * (n div 10 mod 10 ^ k) + n mod 10" by (simp add: mod_mult2_eq)
  with Suc show ?case by (simp add: decimal_snoc algebra_simps flip: append_assoc)
qed simp

lemma show_nat_zero: "hd (show_nat n) = CHR ''0'' \<Longrightarrow> n = 0"
proof (induction n rule: show_nat.induct)
  case (1 n)
  show ?case
  proof (cases "n < 10")
    case True
    have "list_all (\<lambda>d. digit_char d = CHR ''0'' \<longrightarrow> d = 0) [0..<10]" by code_simp
    with True 1(2) show ?thesis by (simp add: show_nat.simps [of n] list_all_iff)
  next
    case False
    then show ?thesis using 1 show_nat_facts [of "n div 10"] by (simp add: show_nat.simps [of n])
  qed
qed

text \<open>The digits of a decimal numeral are read back with its value.\<close>

lemma whole_part:
  assumes "r = [] \<or> \<not> isDigit (hd r)"
  shows "(if hd (show_nat n @ r) = CHR ''0'' then ''0'' else takeWhile isDigit (show_nat n @ r)) = show_nat n"
proof (cases "hd (show_nat n) = CHR ''0''")
  case True
  then have "n = 0" by (rule show_nat_zero)
  then show ?thesis by (simp add: show_nat.simps digit_char_def)
next
  case False
  then show ?thesis using digits_of_show [OF assms] show_nat_facts [of n] by simp
qed

lemma decimal_nonneg_value:
  assumes "x * 10 ^ k = of_int \<lfloor>x * 10 ^ k\<rfloor>"
  shows "(if x < 0 then - 1 else 1) * (of_int (int (nat \<bar>\<lfloor>x * 10 ^ k\<rfloor>\<bar>)) / 10 ^ k) = (x :: number)"
proof -
  have pos: "(0 :: number) < 10 ^ k" by simp
  have "\<lfloor>x * 10 ^ k\<rfloor> < 0 \<longleftrightarrow> x < 0"
    using assms pos by (metis (no_types, lifting) mult_less_0_iff not_less_iff_gr_or_eq of_int_less_0_iff)
  then have "(of_int (int (nat \<bar>\<lfloor>x * 10 ^ k\<rfloor>\<bar>)) :: number) = (if x < 0 then - (x * 10 ^ k) else x * 10 ^ k)"
    using assms by (auto simp: abs_if)
  with pos show ?thesis by auto
qed

lemma readNumber_parts:
  assumes w: "w \<noteq> []" "isDigit (hd w)" and whole: "(if hd (w @ r) = CHR ''0'' then ''0'' else takeWhile isDigit (w @ r)) = w"
    and parts: "readFraction r = Some (m, r1)" "readExponent r1 = Some (e, r2)"
  shows "readNumber ((if neg then ''-'' else []) @ w @ r) =
    Some ((if neg then - 1 else 1) * scaled (of_int (decimal (w @ m)) / 10 ^ length m) e, r2)"
proof -
  have minus: "hd w \<noteq> CHR ''-''" using w(2) by (auto simp: isDigit_def)
  show ?thesis
  proof (cases "hd w = CHR ''0''")
    case True
    with whole w(1) have "w = ''0''" by (metis hd_append2)
    with parts show ?thesis by (cases neg) (simp_all add: readNumber_def isDigit_def)
  next
    case False
    with whole w(1) have "takeWhile isDigit (w @ r) = w" by (metis hd_append2)
    with False w minus parts show ?thesis by (cases neg) (simp_all add: readNumber_def Let_def)
  qed
qed

lemma readNumber_show:
  assumes k: "decimals x = Some k" and rest: "delimited rest"
  shows "readNumber (showDecimal k x @ rest) = Some (x, rest)"
proof -
  have int: "x * 10 ^ k = of_int \<lfloor>x * 10 ^ k\<rfloor>" using k by (auto simp: decimals_def find_Some_iff)
  define n where "n = nat \<bar>\<lfloor>x * 10 ^ k\<rfloor>\<bar>"
  define m where "m = fixedDigits k (n mod 10 ^ k)"
  let ?w = "show_nat (n div 10 ^ k)" and ?r = "(if k = 0 then [] else ''.'' @ m) @ rest"
  have shown: "showDecimal k x @ rest = (if x < 0 then ''-'' else []) @ ?w @ ?r"
    by (simp add: showDecimal_def Let_def n_def m_def)
  have r: "?r = [] \<or> \<not> isDigit (hd ?r)"
    using rest by (cases rest) (auto simp: delimited_def jsonSpace_def isDigit_def)
  note w = show_nat_facts [of "n div 10 ^ k"] and fd = fixedDigits_facts [of k "n mod 10 ^ k"]
  have m: "length m = k" "\<forall>c \<in> set m. isDigit c" using fd by (simp_all add: m_def)
  have "decimal (?w @ m) = int (n div 10 ^ k * 10 ^ k + n mod 10 ^ k)" using fd [of ?w] w by (simp add: m_def)
  then have val: "decimal (?w @ m) = int n" by (simp only: div_mult_mod_eq)
  have frac: "readFraction ?r = Some (m, rest)"
  proof (cases "k = 0")
    case True
    then show ?thesis using delimited_facts(3) [OF rest] m(1) by simp
  next
    case False
    then have "m \<noteq> []" using m(1) by auto
    with False m(2) delimited_facts(1,2) [OF rest] show ?thesis
      by (simp add: readFraction_def takeWhile_append2 dropWhile_append2)
  qed
  have hd: "?w \<noteq> []" "isDigit (hd ?w)" "hd ?w \<noteq> CHR ''-''" using w by (auto simp: hd_in_set)
  have "readNumber (showDecimal k x @ rest) =
      Some ((if x < 0 then - 1 else 1) * scaled (of_int (decimal (?w @ m)) / 10 ^ length m) 0, rest)"
    unfolding shown by (rule readNumber_parts [OF hd(1,2) whole_part [OF r] frac delimited_facts(4) [OF rest]])
  then show ?thesis using decimal_nonneg_value [OF int, folded n_def] by (simp add: m(1) val scaled_def)
qed

section \<open>Tokens of a value\<close>

fun sepTokens :: "token list list \<Rightarrow> token list" where
  "sepTokens [] = []"
| "sepTokens [x] = x"
| "sepTokens (x # xs) = x @ TComma # sepTokens xs"

fun tokens :: "json \<Rightarrow> token list" where
  "tokens JNull = [TNull]"
| "tokens (JBool b) = [TBool b]"
| "tokens (JNum x) = [TNum x]"
| "tokens (JStr s) = [TStr s]"
| "tokens (JArr vs) = TLBrack # sepTokens (map tokens vs) @ [TRBrack]"
| "tokens (JObj ps) = TLBrace # sepTokens (map (\<lambda>(k, v). TStr k # TColon # tokens v) ps) @ [TRBrace]"

lemma lex_token:
  assumes "s \<noteq> []" "\<not> jsonSpace (hd s)" "readToken s = Some (t, r)"
  shows "lexJson s = map_option ((#) t) (lexJson r)"
  using assms by (simp add: lexJson.simps [of s])

lemma lex_punctuation:
  "lexJson (CHR ''{'' # r) = map_option ((#) TLBrace) (lexJson r)" "lexJson (CHR ''}'' # r) = map_option ((#) TRBrace) (lexJson r)"
  "lexJson (CHR ''['' # r) = map_option ((#) TLBrack) (lexJson r)" "lexJson (CHR '']'' # r) = map_option ((#) TRBrack) (lexJson r)"
  "lexJson (CHR '','' # r) = map_option ((#) TComma) (lexJson r)" "lexJson (CHR '':'' # r) = map_option ((#) TColon) (lexJson r)"
  by (rule lex_token; simp add: jsonSpace_def readToken_def punctuation_def)+

lemma lex_quoted: "lexJson (quoted s @ r) = map_option ((#) (TStr s)) (lexJson r)"
  by (rule lex_token) (simp_all add: quoted_def jsonSpace_def readToken_def punctuation_def readString_quoted)

lemma lex_words:
  "lexJson (''null'' @ r) = map_option ((#) TNull) (lexJson r)" "lexJson (''true'' @ r) = map_option ((#) (TBool True)) (lexJson r)"
  "lexJson (''false'' @ r) = map_option ((#) (TBool False)) (lexJson r)"
  by (rule lex_token; simp add: jsonSpace_def readToken_def punctuation_def numeral_eq_Suc)+

lemma show_nat_hd: "show_nat n \<noteq> []" "isDigit (hd (show_nat n))"
  using show_nat_facts [of n] hd_in_set by blast+

lemma lex_number:
  assumes "decimals x = Some k" "delimited r"
  shows "lexJson (showDecimal k x @ r) = map_option ((#) (TNum x)) (lexJson r)"
proof (rule lex_token)
  define c where "c = hd (showDecimal k x @ r)"
  have "showDecimal k x \<noteq> [] \<and> (isDigit (hd (showDecimal k x)) \<or> hd (showDecimal k x) = CHR ''-'')"
    by (simp add: showDecimal_def Let_def show_nat_hd)
  then have ne: "showDecimal k x \<noteq> []" and c: "isDigit c \<or> c = CHR ''-''" by (auto simp: c_def)
  then show "showDecimal k x @ r \<noteq> []" by simp
  from c show "\<not> jsonSpace (hd (showDecimal k x @ r))" by (fold c_def) (auto simp: jsonSpace_def isDigit_def)
  from c have "punctuation c = None" "c \<noteq> CHR 0x22" "c \<noteq> CHR ''n''" "c \<noteq> CHR ''t''" "c \<noteq> CHR ''f''"
    by (auto simp: punctuation_def isDigit_def)
  moreover have "hd (take n (showDecimal k x @ r)) = c" if "0 < n" for n
    using that by (simp add: c_def hd_take del: take_append)
  then have "take 4 (showDecimal k x @ r) \<noteq> ''null''" "take 4 (showDecimal k x @ r) \<noteq> ''true''"
    "take 5 (showDecimal k x @ r) \<noteq> ''false''"
    using calculation by (metis list.sel(1) zero_less_numeral)+
  ultimately show "readToken (showDecimal k x @ r) = Some (TNum x, r)"
    using readNumber_show [OF assms] by (simp add: readToken_def c_def)
qed

lemma allSome_Some: "allSome xs = Some ys \<longleftrightarrow> xs = map Some ys"
  by (induction xs arbitrary: ys rule: allSome.induct) auto

lemma lex_separated:
  assumes "\<And>i r. i < length ts \<Longrightarrow> delimited r \<Longrightarrow> lexJson (ts ! i @ r) = map_option ((@) (toks ! i)) (lexJson r)"
    and "length toks = length ts" "delimited r"
  shows "lexJson (commaSep ts @ r) = map_option ((@) (sepTokens toks)) (lexJson r)"
  using assms
proof (induction ts arbitrary: toks rule: commaSep.induct)
  case 1
  then show ?case by (simp add: option.map_id0 option.map_ident)
next
  case (2 t)
  then obtain tok where "toks = [tok]" by (cases toks) auto
  with "2.prems"(1) [of 0 r] "2.prems"(3) show ?case by simp
next
  case (3 t t' ts)
  then obtain tok tok' toks' where toks: "toks = tok # tok' # toks'" by (cases toks; cases "tl toks") auto
  have "lexJson (commaSep (t' # ts) @ r) = map_option ((@) (sepTokens (tok' # toks'))) (lexJson r)"
  proof (rule "3.IH")
    show "lexJson ((t' # ts) ! i @ r) = map_option ((@) ((tok' # toks') ! i)) (lexJson r)"
      if "i < length (t' # ts)" "delimited r" for i r
      using "3.prems"(1) [of "Suc i" r] that toks by simp
  qed (use "3.prems" toks in simp_all)
  moreover have "lexJson (t @ '','' @ u) = map_option ((@) tok) (lexJson ('','' @ u))" for u
    using "3.prems"(1) [of 0 "'','' @ u"] toks by (simp add: delimited_def)
  ultimately show ?case
    by (simp add: toks lex_punctuation option.map_comp comp_def)
qed

lemma append_single: "(@) [x] = (#) x"
  by auto

lemma lex_stringify:
  "stringify v = Some t \<Longrightarrow> delimited r \<Longrightarrow> lexJson (t @ r) = map_option ((@) (tokens v)) (lexJson r)"
proof (induction v arbitrary: t r)
  case (JArr vs)
  then obtain ts where ts: "map stringify vs = map Some ts" and t: "t = ''['' @ commaSep ts @ '']''"
    by (auto simp: allSome_Some)
  have len: "length ts = length vs" using ts by (metis length_map)
  have "lexJson (ts ! i @ u) = map_option ((@) (map tokens vs ! i)) (lexJson u)" if "i < length ts" "delimited u" for i u
    using JArr.IH [of "vs ! i"] ts that len by (metis nth_map nth_mem)
  from lex_separated [OF this, of "'']'' @ r"] len show ?case
    by (simp add: t lex_punctuation delimited_def option.map_comp comp_def)
next
  case (JObj ps)
  then obtain ts where ts: "map (\<lambda>(k, v). map_option (\<lambda>t. quoted k @ '':'' @ t) (stringify v)) ps = map Some ts"
    and t: "t = ''{'' @ commaSep ts @ ''}''" by (auto simp: allSome_Some)
  let ?toks = "map (\<lambda>(k, v). TStr k # TColon # tokens v) ps"
  have len: "length ts = length ps" using ts by (metis length_map)
  have "lexJson (ts ! i @ u) = map_option ((@) (?toks ! i)) (lexJson u)" if i: "i < length ts" "delimited u" for i u
  proof -
    obtain k v where p: "ps ! i = (k, v)" by fastforce
    then have "(k, v) \<in> set ps" using i len by (metis nth_mem)
    moreover have "map_option (\<lambda>t. quoted k @ '':'' @ t) (stringify v) = Some (ts ! i)"
      using arg_cong [OF ts, of "\<lambda>xs. xs ! i"] i len p by simp
    then obtain tv where tv: "stringify v = Some tv" "ts ! i = quoted k @ '':'' @ tv" by auto
    ultimately have "lexJson (tv @ u) = map_option ((@) (tokens v)) (lexJson u)" using JObj.IH i(2) by (metis snds.intros snd_conv)
    moreover have "(@) (TStr k # TColon # tokens v) = (\<lambda>x. TStr k # TColon # tokens v @ x)" by auto
    ultimately show ?thesis using i len p tv by (simp add: lex_quoted lex_punctuation option.map_comp comp_def)
  qed
  from lex_separated [OF this, of "''}'' @ r"] len show ?case
    by (simp add: t lex_punctuation delimited_def option.map_comp comp_def)
qed (auto simp: lex_words [simplified] lex_number lex_quoted append_single)

section \<open>Values of tokens\<close>

text \<open>The order in which an object lists its keys: array indices ascending, then the others; no key twice.\<close>

definition keysInOrder :: "string list \<Rightarrow> bool" where
  "keysInOrder ks = sorted_wrt (\<lambda>a b. a \<noteq> b \<and> \<not> precedes (arrayIndex b) (arrayIndex a)) ks"

fun objectsOk :: "json \<Rightarrow> bool" where
  "objectsOk (JArr vs) = list_all objectsOk vs"
| "objectsOk (JObj ps) = (keysInOrder (map fst ps) \<and> list_all (\<lambda>(k, v). objectsOk v) ps)"
| "objectsOk _ = True"

lemma setProperty_last:
  "keysInOrder (map fst ps @ [k]) \<Longrightarrow> setProperty k v ps = ps @ [(k, v)]"
  by (induction ps) (auto simp: keysInOrder_def)

lemma tokens_first: "tokens v \<noteq> []" "hd (tokens v) \<noteq> TRBrack" "hd (tokens v) \<noteq> TRBrace"
  by (cases v; simp)+

text \<open>The machine reads the elements of an array and the properties of an object one after the other.\<close>

lemma parse_elements:
  assumes "\<And>v st ts. v \<in> set (v0 # vs) \<Longrightarrow> parseTokens (ExpectValue, st) (tokens v @ ts) = parseTokens (Completed v, st) ts"
  shows "parseTokens (ExpectValue, InArray acc # st) (sepTokens (map tokens (v0 # vs)) @ TRBrack # ts) =
    parseTokens (Completed (JArr (acc @ v0 # vs)), st) ts"
  using assms by (induction vs arbitrary: v0 acc) simp_all

lemma parse_members:
  assumes "\<And>v st ts. v \<in> snd ` set (p # ps) \<Longrightarrow> parseTokens (ExpectValue, st) (tokens v @ ts) = parseTokens (Completed v, st) ts"
    and "keysInOrder (map fst (acc @ p # ps))" "m = ExpectKey \<or> m = ExpectMember"
  shows "parseTokens (m, InObject acc # st) (sepTokens (map (\<lambda>(k, v). TStr k # TColon # tokens v) (p # ps)) @ TRBrace # ts) =
    parseTokens (Completed (JObj (acc @ p # ps)), st) ts"
  using assms
proof (induction ps arbitrary: p acc m)
  case Nil
  then show ?case by (cases p) (auto simp: setProperty_last)
next
  case (Cons q ps)
  obtain k v where p: "p = (k, v)" by fastforce
  have "keysInOrder (map fst acc @ [k])" using Cons.prems(2) by (auto simp: p keysInOrder_def sorted_wrt_append)
  moreover note Cons.IH [of q "acc @ [p]" ExpectKey]
  ultimately show ?case using Cons.prems by (auto simp: p setProperty_last)
qed

lemma parse_tokens:
  "objectsOk v \<Longrightarrow> parseTokens (ExpectValue, st) (tokens v @ ts) = parseTokens (Completed v, st) ts"
proof (induction v arbitrary: st ts)
  case (JArr vs)
  show ?case
  proof (cases vs)
    case (Cons v0 rest)
    have "parseTokens (ExpectElement, s) (sepTokens (map tokens vs) @ us) = parseTokens (ExpectValue, s) (sepTokens (map tokens vs) @ us)" for s us
      using tokens_first(1,2) [of v0] by (cases "tokens v0"; cases "map tokens rest") (simp_all add: Cons)
    moreover have "parseTokens (ExpectValue, InArray [] # st) (sepTokens (map tokens (v0 # rest)) @ TRBrack # ts) =
        parseTokens (Completed (JArr ([] @ v0 # rest)), st) ts"
      by (rule parse_elements) (use JArr Cons in \<open>auto simp: list_all_iff\<close>)
    ultimately show ?thesis using Cons by simp
  qed simp
next
  case (JObj ps)
  show ?case
  proof (cases ps)
    case (Cons p rest)
    have "parseTokens (ExpectValue, st) (tokens v @ ts) = parseTokens (Completed v, st) ts" if "v \<in> snd ` set (p # rest)" for v st ts
      using that JObj Cons by (fastforce simp: list_all_iff)
    from parse_members [of p rest "[]" ExpectMember, OF this] JObj.prems Cons show ?thesis by simp
  qed simp
qed simp_all

section \<open>logger.ts\<close>

text \<open>
  The line \<^verbatim>\<open>devFormat\<close> prints. The fields beside level, message, time stamp and stack are the
  metadata; the level and the message come with the colours the formats before have added.
\<close>

definition devLine :: "string \<Rightarrow> string \<Rightarrow> string \<Rightarrow> string option \<Rightarrow> obj \<Rightarrow> string option" where
  "devLine level message ts stack meta =
     (case (if meta = [] then Some [] else map_option (\<lambda>t. '' '' @ t) (stringify (JObj meta))) of
        None \<Rightarrow> None
      | Some metaStr \<Rightarrow> Some (ts @ '' ['' @ level @ ''] '' @ message @ metaStr @
          (case stack of None \<Rightarrow> [] | Some st \<Rightarrow> if st = [] then [] else CHR 0x0A # st)))"

text \<open>The transports: the console, and two files unless in development. A level of \<open>None\<close> is the level of the logger.\<close>

record FileTransport =
  ft_filename :: string
  ft_level :: "string option"
  ft_maxsize :: int
  ft_maxFiles :: int
  ft_tailable :: bool

datatype transport = Console | File FileTransport

definition transports :: "bool \<Rightarrow> transport list" where
  "transports isDevelopment = Console # (if isDevelopment then [] else
     [File \<lparr>ft_filename = ''logs/error.log'', ft_level = Some ''error'', ft_maxsize = 10 * 1024 * 1024, ft_maxFiles = 5, ft_tailable = True\<rparr>,
      File \<lparr>ft_filename = ''logs/combined.log'', ft_level = None, ft_maxsize = 50 * 1024 * 1024, ft_maxFiles = 10, ft_tailable = True\<rparr>])"

text \<open>The metadata of an entry of \<^verbatim>\<open>createLogger(context)\<close>: the defaults of the logger, those of the child, and those of the call.\<close>

definition logMeta :: "string \<Rightarrow> obj \<Rightarrow> obj" where
  "logMeta context meta = fold (\<lambda>(k, v). setProperty k v) meta
     (setProperty ''context'' (JStr context) [(''service'', JStr ''task-orchestration'')])"

section \<open>Lemmas\<close>

text \<open>The text of a value has no control characters: they are escaped.\<close>

abbreviation printable :: "char \<Rightarrow> bool" where
  "printable c \<equiv> 32 \<le> (of_char c :: nat)"

lemma printable_hexDigit: "printable (hexDigit d)"
proof -
  have "list_all (\<lambda>d. printable (''0123456789abcdef'' ! d)) [0..<16]" by code_simp
  then show ?thesis unfolding hexDigit_def list_all_iff by simp
qed

lemma printable_escape: "list_all printable (escapeChar c)"
  by (simp add: escapeChar_def printable_hexDigit)

lemma printable_quoted: "c \<in> set (quoted s) \<Longrightarrow> printable c"
  using printable_escape by (auto simp: quoted_def list_all_iff)

lemma printable_digit: "isDigit c \<Longrightarrow> printable c"
  by (simp add: isDigit_def)

lemma printable_showDecimal: "c \<in> set (showDecimal k x) \<Longrightarrow> printable c"
proof -
  have "c \<in> set (show_nat m) \<Longrightarrow> printable c" for m using show_nat_facts [of m] printable_digit by blast
  moreover have "c \<in> set (fixedDigits k m) \<Longrightarrow> printable c" for m using fixedDigits_facts [of k m "[]"] printable_digit by blast
  ultimately show "c \<in> set (showDecimal k x) \<Longrightarrow> printable c" by (auto simp: showDecimal_def Let_def split: if_splits)
qed

lemma printable_commaSep: "\<forall>t \<in> set ts. \<forall>c \<in> set t. printable c \<Longrightarrow> c \<in> set (commaSep ts) \<Longrightarrow> printable c"
  by (induction ts rule: commaSep.induct) auto

lemma printable_stringify: "stringify v = Some t \<Longrightarrow> c \<in> set t \<Longrightarrow> printable c"
proof (induction v arbitrary: t c)
  case (JArr vs)
  then obtain ts where ts: "map stringify vs = map Some ts" and t: "t = ''['' @ commaSep ts @ '']''"
    by (auto simp: allSome_Some)
  have "\<forall>t \<in> set ts. \<forall>c \<in> set t. printable c"
  proof (intro ballI)
    fix t c assume "t \<in> set ts" "c \<in> set t"
    then have "Some t \<in> set (map stringify vs)" by (simp add: ts)
    then obtain v where "v \<in> set vs" "stringify v = Some t" by (metis (no_types, lifting) image_iff list.set_map)
    then show "printable c" using JArr.IH \<open>c \<in> set t\<close> by blast
  qed
  with JArr.prems t show ?case using printable_commaSep by auto
next
  case (JObj ps)
  then obtain ts where ts: "map (\<lambda>(k, v). map_option (\<lambda>t. quoted k @ '':'' @ t) (stringify v)) ps = map Some ts"
    and t: "t = ''{'' @ commaSep ts @ ''}''" by (auto simp: allSome_Some)
  have "\<forall>t \<in> set ts. \<forall>c \<in> set t. printable c"
  proof (intro ballI)
    fix t c assume "t \<in> set ts" and c: "c \<in> set t"
    then have "Some t \<in> set (map (\<lambda>(k, v). map_option (\<lambda>t. quoted k @ '':'' @ t) (stringify v)) ps)" unfolding ts by simp
    then obtain k v tv where "(k, v) \<in> set ps" "stringify v = Some tv" "t = quoted k @ '':'' @ tv"
      by (auto simp: eq_commute [of "Some t"])
    with JObj.IH c show "printable c" using printable_quoted by fastforce
  qed
  with JObj.prems t show ?case using printable_commaSep by auto
qed (auto simp: printable_quoted printable_showDecimal split: if_splits)

lemma allSome_defined: "allSome xs \<noteq> None \<longleftrightarrow> None \<notin> set xs"
  by (induction xs rule: allSome.induct) auto

lemma stringify_object: "stringify (JObj ps) \<noteq> None \<longleftrightarrow> (\<forall>v \<in> snd ` set ps. stringify v \<noteq> None)"
proof -
  have "stringify (JObj ps) \<noteq> None \<longleftrightarrow> allSome (map (\<lambda>(k, v). map_option (\<lambda>t. quoted k @ '':'' @ t) (stringify v)) ps) \<noteq> None"
    by simp
  then show ?thesis unfolding allSome_defined by force
qed

lemma decimals_int: "\<bar>i\<bar> < 10 ^ 15 \<Longrightarrow> decimals (of_int i) = Some 0"
proof -
  assume "\<bar>i\<bar> < 10 ^ 15"
  then have "\<bar>of_int i :: number\<bar> < 10 ^ 15"
    by (metis of_int_abs of_int_less_iff of_int_numeral of_int_power)
  then show ?thesis by (simp add: decimals_def upt_rec)
qed

section \<open>Properties\<close>



text \<open>
  Texts that are no JSON give null, the same as the text \<^verbatim>\<open>null\<close>; a repeated key keeps its last value.
\<close>

lemma safeJsonParse_examples:
  "safeJsonParse ''[1,]'' = JNull" "safeJsonParse ''{a:1}'' = JNull" "safeJsonParse ''01'' = JNull" "safeJsonParse [] = JNull"
  "safeJsonParse ''null'' = JNull" "safeJsonParse (''{'' @ quoted ''x'' @ '':1,'' @ quoted ''x'' @ '':2.50e1}'') = JObj [(''x'', JNum 25)]"
  by code_simp+

text \<open>
  What a node writes to the register is what another reads: the text of the record is
  parsed to the JSON value it stands for, provided the metadata can be printed and the
  process identifier has at most fifteen digits.
\<close>

theorem node_text_roundtrip:
  assumes "\<bar>ni_pid n\<bar> < 10 ^ 15" "stringify (JObj (ni_metadata n)) = Some m" "objectsOk (JObj (ni_metadata n))"
  shows "\<exists>t. stringify (nodeJson n) = Some t \<and> JSON_parse t = Some (nodeJson n)"
proof -
  have keys: "keysInOrder [''instanceId'', ''role'', ''hostname'', ''ipAddress'', ''pid'', ''version'', ''startedAt'',
      ''lastHeartbeatAt'', ''isLeader'', ''metadata'']" by code_simp
  obtain t where t: "stringify (nodeJson n) = Some t"
    using assms(2) decimals_int [OF assms(1)] stringify_object [of "js_entries (nodeJson n)"]
    by (auto simp: nodeJson_def simp del: stringify.simps(6))
  have "objectsOk (nodeJson n)" using keys assms(3) by (simp add: nodeJson_def)
  from lex_stringify [OF t, of "[]"] parse_tokens [OF this, of "[]" "[]"] t show ?thesis
    by (simp add: JSON_parse_def delimited_def lexJson.simps)
qed

text \<open>
  A log line without a stack trace is one line, whatever the metadata: line breaks inside of
  it are escaped.
\<close>

theorem devLine_single:
  assumes "devLine level message ts None meta = Some line" "CHR 0x0A \<notin> set (level @ message @ ts)"
  shows "CHR 0x0A \<notin> set line"
proof -
  obtain t where "line = ts @ '' ['' @ level @ ''] '' @ message @ t" "t = [] \<or> (\<exists>u. t = '' '' @ u \<and> stringify (JObj meta) = Some u)"
    using assms(1) by (auto simp: devLine_def split: option.splits if_splits)
  moreover have "CHR 0x0A \<notin> set u" if "stringify (JObj meta) = Some u" for u
    using printable_stringify [OF that, of "CHR 0x0A"] by auto
  ultimately show ?thesis using assms(2) by auto
qed

theorem devLine_single_witness:
  "\<exists>line. devLine ''info'' ''started'' ''12:00:00'' None (logMeta ''App'' [(''note'', JStr [CHR 0x0A])]) = Some line \<and> CHR 0x0A \<notin> set line"
proof -
  have "devLine ''info'' ''started'' ''12:00:00'' None (logMeta ''App'' [(''note'', JStr [CHR 0x0A])]) \<noteq> None" by code_simp
  then obtain line where line: "devLine ''info'' ''started'' ''12:00:00'' None (logMeta ''App'' [(''note'', JStr [CHR 0x0A])]) = Some line"
    by blast
  with devLine_single [OF line] show ?thesis by simp
qed

end
