(* ===== verification/Infrastructure.thy ===== *)
theory Infrastructure
  imports JsonText Routing Application Monitoring
begin

text \<open>
  How the components are wired to the world: the connections of the queues, the worker, the lock and
  the register to Redis, the pool of \<^verbatim>\<open>src/db/index.ts\<close>, the options of the rate limiters, all as functions of
  the settings, and the way of a request through the middleware of \<^verbatim>\<open>src/app.ts\<close> into \<open>serve\<close>.
  Connecting is done by ioredis and Knex; the outcome of their calls is an argument.
\<close>

section \<open>Redis\<close>

text \<open>\<^verbatim>\<open>maxRetriesPerRequest\<close> is left out, null, or a number.\<close>

record RedisOptions =
  ro_host :: string
  ro_port :: int
  ro_password :: "string option"
  ro_db :: int
  ro_keyPrefix :: "string option"
  ro_lazyConnect :: bool
  ro_maxRetriesPerRequest :: "int option option"

definition strSetting :: "Settings \<Rightarrow> string \<Rightarrow> string" where
  "strSetting S path = nullish (map_of (st_strings S) path) []"

definition intSetting :: "Settings \<Rightarrow> string \<Rightarrow> int" where
  "intSetting S path = nullish (map_of (st_ints S) path) 0"

definition redisPassword :: "Settings \<Rightarrow> string option" where
  "redisPassword S = (if strSetting S ''redis.password'' = [] then None else Some (strSetting S ''redis.password''))"

text \<open>The connection of \<^verbatim>\<open>JobQueue.ts\<close>, of \<^verbatim>\<open>DeadLetterQueue.ts\<close> and of \<^verbatim>\<open>WorkerNode.ts\<close>, each with its own literal.\<close>

definition jobQueueConnection :: "Settings \<Rightarrow> RedisOptions" where
  "jobQueueConnection S = \<lparr>ro_host = strSetting S ''redis.host'', ro_port = intSetting S ''redis.port'',
     ro_password = redisPassword S, ro_db = intSetting S ''redis.db'', ro_keyPrefix = Some (strSetting S ''redis.keyPrefix''),
     ro_lazyConnect = False, ro_maxRetriesPerRequest = Some None\<rparr>"

definition dlqConnection :: "Settings \<Rightarrow> RedisOptions" where
  "dlqConnection S = \<lparr>ro_host = strSetting S ''redis.host'', ro_port = intSetting S ''redis.port'',
     ro_password = redisPassword S, ro_db = intSetting S ''redis.db'', ro_keyPrefix = Some (strSetting S ''redis.keyPrefix''),
     ro_lazyConnect = False, ro_maxRetriesPerRequest = Some None\<rparr>"

definition workerConnection :: "Settings \<Rightarrow> RedisOptions" where
  "workerConnection S = \<lparr>ro_host = strSetting S ''redis.host'', ro_port = intSetting S ''redis.port'',
     ro_password = redisPassword S, ro_db = intSetting S ''redis.db'', ro_keyPrefix = Some (strSetting S ''redis.keyPrefix''),
     ro_lazyConnect = False, ro_maxRetriesPerRequest = Some None\<rparr>"

definition lockConnection :: "Settings \<Rightarrow> RedisOptions" where
  "lockConnection S = \<lparr>ro_host = strSetting S ''redis.host'', ro_port = intSetting S ''redis.port'',
     ro_password = redisPassword S, ro_db = intSetting S ''redis.db'', ro_keyPrefix = None,
     ro_lazyConnect = True, ro_maxRetriesPerRequest = Some (Some 3)\<rparr>"

definition registryConnection :: "Settings \<Rightarrow> RedisOptions" where
  "registryConnection S = \<lparr>ro_host = strSetting S ''redis.host'', ro_port = intSetting S ''redis.port'',
     ro_password = redisPassword S, ro_db = intSetting S ''redis.db'', ro_keyPrefix = None,
     ro_lazyConnect = True, ro_maxRetriesPerRequest = None\<rparr>"

text \<open>What the constructors make: a BullMQ object is known by its queue name and connection.\<close>

type_synonym bull_client = "string \<times> RedisOptions"

definition new_JobQueue :: "Settings \<Rightarrow> bull_client \<times> bull_client \<times> QueueDefaults" where
  "new_JobQueue S = ((strSetting S ''queue.name'', jobQueueConnection S), (strSetting S ''queue.name'', jobQueueConnection S),
     queueOptions (intSetting S ''worker.maxRetries'') (intSetting S ''worker.retryDelayMs''))"

definition new_DeadLetterQueue :: "Settings \<Rightarrow> bull_client" where
  "new_DeadLetterQueue S = (strSetting S ''queue.deadLetterQueueName'', dlqConnection S)"

definition new_BullWorker :: "Settings \<Rightarrow> bull_client \<times> BullWorkerOptions" where
  "new_BullWorker S = ((strSetting S ''queue.name'', workerConnection S),
     bullWorkerOptions (intSetting S ''worker.concurrency'') (intSetting S ''worker.jobTimeoutMs''))"

section \<open>PostgreSQL\<close>

record KnexOptions =
  ko_host :: string
  ko_port :: int
  ko_database :: string
  ko_user :: string
  ko_password :: string
  ko_ssl :: bool
  ko_rejectUnauthorized :: bool
  ko_poolMin :: int
  ko_poolMax :: int
  ko_afterCreate :: string
  ko_acquireConnectionTimeout :: int
  ko_debug :: bool

definition knexOptions :: "Settings \<Rightarrow> KnexOptions" where
  "knexOptions S = \<lparr>ko_host = strSetting S ''db.host'', ko_port = intSetting S ''db.port'', ko_database = strSetting S ''db.name'',
     ko_user = strSetting S ''db.user'', ko_password = strSetting S ''db.password'', ko_ssl = st_isProduction S,
     ko_rejectUnauthorized = False, ko_poolMin = intSetting S ''db.poolMin'', ko_poolMax = intSetting S ''db.poolMax'',
     ko_afterCreate = ''SET timezone = \"UTC\"'', ko_acquireConnectionTimeout = 10000, ko_debug = st_isDevelopment S\<rparr>"

text \<open>\<^verbatim>\<open>SELECT 1\<close> with its outcome: an error is logged and thrown again. Closing passes errors on.\<close>

definition connectDatabase :: "(string + unit) \<Rightarrow> string + unit" where
  "connectDatabase select1 = (case select1 of Inl err \<Rightarrow> Inl err | Inr _ \<Rightarrow> Inr ())"

definition disconnectDatabase :: "(string + unit) \<Rightarrow> string + unit" where
  "disconnectDatabase destroy = (case destroy of Inl err \<Rightarrow> Inl err | Inr _ \<Rightarrow> Inr ())"

definition TABLES :: "(string \<times> string) list" where
  "TABLES = [(''JOBS'', ''jobs''), (''WORKERS'', ''workers''), (''EXECUTION_LOGS'', ''execution_logs''),
     (''SCHEDULES'', ''schedules''), (''ORGANIZATIONS'', ''organizations''), (''USERS'', ''users''), (''API_KEYS'', ''api_keys'')]"

section \<open>Rate limits, filters, schedules\<close>

record RateLimitOptions =
  rl_windowMs :: int
  rl_max :: int
  rl_standardHeaders :: "bool option"
  rl_legacyHeaders :: "bool option"

definition apiRateLimit :: "Settings \<Rightarrow> RateLimitOptions" where
  "apiRateLimit S = \<lparr>rl_windowMs = intSetting S ''rateLimit.windowMs'', rl_max = intSetting S ''rateLimit.maxRequests'',
     rl_standardHeaders = Some True, rl_legacyHeaders = Some False\<rparr>"

definition bulkRateLimit :: RateLimitOptions where
  "bulkRateLimit = \<lparr>rl_windowMs = 60000, rl_max = 10, rl_standardHeaders = None, rl_legacyHeaders = None\<rparr>"

record WorkerFilter =
  wf_status :: "WorkerStatus list option"
  wf_region :: "string option"
  wf_jobType :: "string option"
  wf_page :: "int option"
  wf_limit :: "int option"

text \<open>\<^verbatim>\<open>findAll(filter)\<close> looks at the status only.\<close>

definition findAllWorkers :: "WorkerFilter \<Rightarrow> workers \<Rightarrow> WorkerNode list" where
  "findAllWorkers flt ws = findAll (wf_status flt) ws"

definition getNextCronRun :: "cron \<Rightarrow> string \<Rightarrow> string option \<Rightarrow> time \<Rightarrow> string + time" where
  "getNextCronRun cronParser expression tz now = cronParser expression (nullish tz ''UTC'') now"

text \<open>\<^verbatim>\<open>createTimeoutPromise\<close>: the delay after which the promise rejects, and the message of its \<^verbatim>\<open>TimeoutError\<close>.\<close>

definition createTimeoutPromise :: "int \<Rightarrow> id \<Rightarrow> int \<times> string" where
  "createTimeoutPromise timeoutMs jobId =
     (timeoutMs, ''Job '' @ jobId @ '' timed out after '' @ show_int timeoutMs @ ''ms'')"

section \<open>A request\<close>

text \<open>
  The middleware in front of the routes, in its order: the body parser of Express (a parameter, from
  content type and text to the error or the body), then the request metrics. An error goes to the error handler,
  whatever its status. The handlers read the body as \<open>input\<close> does.
\<close>

datatype entry_answer = Answered app_response | Refused "nat \<times> string"

definition errorHandler :: "string \<Rightarrow> entry_answer" where
  "errorHandler err = Refused (500, ''Internal server error'')"

definition withMetrics :: "(metrics \<Rightarrow> metrics) \<Rightarrow> ('q, 'd) app_state \<Rightarrow> ('q, 'd) app_state" where
  "withMetrics f s = s\<lparr>as_world := (as_world s)\<lparr>s_metrics := f (s_metrics (as_world s))\<rparr>\<rparr>"

definition handleRequest ::
  "('q, 'd) Deps \<Rightarrow> app_env \<Rightarrow> (string option \<Rightarrow> string \<Rightarrow> string + json option) \<Rightarrow> (json option \<Rightarrow> http_input) \<Rightarrow>
   (app_response \<Rightarrow> nat) \<Rightarrow> string \<Rightarrow> string \<Rightarrow> string option \<Rightarrow> time \<Rightarrow> time \<Rightarrow> string option \<Rightarrow> string \<Rightarrow>
   ('q, 'd) app_state \<Rightarrow> entry_answer \<times> ('q, 'd) app_state" where
  "handleRequest P E bodyParser input statusOf meth path routePath start finish contentType text s =
     (case bodyParser contentType text of
        Inl err \<Rightarrow> (errorHandler err, s)
      | Inr body \<Rightarrow>
          (let req = fst (requestStarted meth path start []);
               (resp, s') = serve P E (input body) (withMetrics incrementHttpInFlight s)
           in (Answered resp, withMetrics (responseFinished req routePath (statusOf resp) finish) s')))"

text \<open>What the program relies on: a JSON body that cannot be parsed is an error, as body-parser documents.\<close>

definition body_parser_ok :: "(string option \<Rightarrow> string \<Rightarrow> string + json option) \<Rightarrow> bool" where
  "body_parser_ok bp \<longleftrightarrow> (\<forall>text. text \<noteq> [] \<and> JSON_parse text = None \<longrightarrow> (\<exists>err. bp (Some ''application/json'') text = Inl err))"

definition plainParser :: "string option \<Rightarrow> string \<Rightarrow> string + json option" where
  "plainParser ctype text = (if ctype \<noteq> Some ''application/json'' \<or> text = [] then Inr None
     else case JSON_parse text of None \<Rightarrow> Inl ''Unexpected token'' | Some v \<Rightarrow> Inr (Some v))"

lemma plainParser_ok: "body_parser_ok plainParser"
  by (simp add: body_parser_ok_def plainParser_def)

section \<open>Properties\<close>

text \<open>
  A body that is no JSON is answered with 500 by the error handler, not with 400; nothing changes, and
  the request is not even counted by the request metrics, which come after the body parser.
\<close>

theorem malformed_body:
  assumes "body_parser_ok bp" "text \<noteq> []" "JSON_parse text = None"
  shows "handleRequest P E bp input statusOf meth path routePath start finish (Some ''application/json'') text s =
    (Refused (500, ''Internal server error''), s)"
proof -
  obtain err where "bp (Some ''application/json'') text = Inl err" using assms by (auto simp: body_parser_ok_def)
  then show ?thesis by (simp add: handleRequest_def errorHandler_def)
qed

theorem malformed_body_witness:
  "handleRequest sample_deps sample_env plainParser (\<lambda>_. sample_input GET [] None) (\<lambda>_. 200) ''POST'' ''/api/v1/jobs'' None 0 1
      (Some ''application/json'') ''{oops}'' sample_app = (Refused (500, ''Internal server error''), sample_app)"
proof -
  have "JSON_parse ''{oops}'' = None" by code_simp
  then show ?thesis by (intro malformed_body [OF plainParser_ok]) simp_all
qed

text \<open>
  The default settings fit together: the workers take their entries from the server and the queue the
  scheduler fills, which is not the dead letter queue; the pool of connections is not empty; a heartbeat
  every five seconds leaves twenty-five for lateness and delays before a worker counts as lost; the lock of a
  leader outlives the time to its renewal; and the lock BullMQ keeps on an entry outlives the timeout of a job.
\<close>

theorem default_settings_fit:
  "\<exists>S. loadConfig Map.empty = Inr S \<and> fst (new_JobQueue S) = fst (new_BullWorker S) \<and> new_DeadLetterQueue S \<noteq> fst (new_JobQueue S) \<and>
    0 \<le> ko_poolMin (knexOptions S) \<and> ko_poolMin (knexOptions S) < ko_poolMax (knexOptions S) \<and>
    intSetting S ''worker.heartbeatIntervalMs'' + 5000 + 2 * 10000 \<le> 30000 \<and>
    renewalMs (DEFAULT_CONFIG (intSetting S ''scheduler.pollIntervalMs'') (intSetting S ''scheduler.lockTtlMs'')) <
      intSetting S ''scheduler.lockTtlMs'' \<and>
    intSetting S ''worker.jobTimeoutMs'' < bw_lockDuration (snd (new_BullWorker S))"
proof -
  have "case loadConfig Map.empty of Inl _ \<Rightarrow> False | Inr S \<Rightarrow> fst (new_JobQueue S) = fst (new_BullWorker S) \<and> new_DeadLetterQueue S \<noteq> fst (new_JobQueue S) \<and>
    0 \<le> ko_poolMin (knexOptions S) \<and> ko_poolMin (knexOptions S) < ko_poolMax (knexOptions S) \<and>
    intSetting S ''worker.heartbeatIntervalMs'' + 5000 + 2 * 10000 \<le> 30000 \<and>
    renewalMs (DEFAULT_CONFIG (intSetting S ''scheduler.pollIntervalMs'') (intSetting S ''scheduler.lockTtlMs'')) <
      intSetting S ''scheduler.lockTtlMs'' \<and>
    intSetting S ''worker.jobTimeoutMs'' < bw_lockDuration (snd (new_BullWorker S))" by code_simp
  then show ?thesis by (cases "loadConfig Map.empty") auto
qed

text \<open>For every environment the producers and the consumers of the queue meet.\<close>

lemma queue_meets_worker: "fst (new_JobQueue S) = fst (new_BullWorker S)"
  by (simp add: new_JobQueue_def new_BullWorker_def jobQueueConnection_def workerConnection_def)

text \<open>The filters of a listing of workers beside the status have no effect.\<close>

lemma findAllWorkers_ignores:
  "findAllWorkers (flt\<lparr>wf_region := r, wf_jobType := t, wf_page := p, wf_limit := l\<rparr>) ws = findAllWorkers flt ws"
  by (simp add: findAllWorkers_def)

text \<open>An execution that is not done when the promise of the timeout rejects has the outcome of a timeout, whatever it returns later.\<close>

lemma execute_times_out:
  assumes "case takes of None \<Rightarrow> True | Some d \<Rightarrow> fst (createTimeoutPromise (j_timeoutMs job) (j_id job)) \<le> d"
  shows "execute E stack takes durationMs job =
    (failedWith (''Job exceeded timeout of '' @ show_int (j_timeoutMs job) @ ''ms'') ''JOB_TIMEOUT'')\<lparr>xr_durationMs := durationMs\<rparr>"
  using assms by (auto simp: execute_def createTimeoutPromise_def split: option.splits)

end
