(* ===== verification/Spec2Isabelle.thy ===== *)
theory Spec2Isabelle
  imports PriorityQueue Helpers LoadBalancer EndToEnd Autoscaling Election NodeRegister Config
    Application Migrations JobRows WorkerLogRows Validation Routing CronOverlap WorkerLiveness Infrastructure
begin

text \<open>
  Verification of the task orchestration system: a service that accepts jobs over HTTP, keeps
  them in PostgreSQL, hands them through BullMQ (Redis) to worker processes and follows them
  until they have completed, failed or been cancelled.

  \<^bold>\<open>The program and its model.\<close> Paths are relative to \<^verbatim>\<open>src/src/\<close>.

  \<^item> \<open>Prelude\<close>: JavaScript values and the standard library the sources use; the contract of a
    comparison function (locale \<open>comparison\<close>), interpreted below for every comparator, and of a
    table with a primary key (locale \<open>keyed_table\<close>), interpreted for the four tables.
  \<^item> \<open>Models\<close> (\<^verbatim>\<open>models/\<close>): jobs, workers, execution logs, filters.
  \<^item> \<open>Helpers\<close> (\<^verbatim>\<open>utils/helpers.ts\<close>) and \<open>Config\<close> (\<^verbatim>\<open>utils/config.ts\<close>).
  \<^item> \<open>PriorityQueue\<close>, \<open>DependencyResolver\<close>, \<open>LoadBalancer\<close> (\<^verbatim>\<open>scheduler/\<close>): the in-memory
    structures, method by method. The locale \<open>min_queue\<close> is what a client of the heap relies on.
  \<^item> \<open>JobRepository\<close>, \<open>WorkerRepository\<close>, \<open>ExecutionRepository\<close> (\<^verbatim>\<open>db/repositories/\<close>): one
    definition per statement, on a table that is a list of rows. The locale \<open>job_store\<close> is
    what the services rely on. \<open>JobRows\<close> has the columns behind the job records: \<^verbatim>\<open>toRow\<close>, \<^verbatim>\<open>fromRow\<close>, the
    inserted row and the defaults of \<^verbatim>\<open>002_create_jobs.sql\<close>; \<open>WorkerLogRows\<close> those behind workers and
    logs. Both rest on \<open>Rows\<close>, whose locale \<open>row_table\<close> is the reading of rows as records.
  \<^item> \<open>Metrics\<close> (\<^verbatim>\<open>monitoring/MetricsService.ts\<close>) and \<open>Queues\<close> (\<^verbatim>\<open>queue/\<close>): main queue, dead letter
    queue and facade.
  \<^item> \<open>DistributedLock\<close>, \<open>Election\<close>, \<open>NodeRegister\<close> (\<^verbatim>\<open>distributed/\<close>): lock, leader election and
    register of nodes, each with its step relation over a shared Redis server.
  \<^item> \<open>JobScheduler\<close> and \<open>CronScheduler\<close> (\<^verbatim>\<open>scheduler/\<close>, \<^verbatim>\<open>api/routes/schedules.ts\<close>): claiming,
    enqueueing, recovery, release of dependents, leadership; schedules and their triggers.
    \<open>CronOverlap\<close> has the steps of ticks that overlap. The record \<open>world\<close> of \<open>JobScheduler\<close> is the state that scheduler, workers and services share.
  \<^item> \<open>JobExecutor\<close>, \<open>WorkerProcess\<close>, \<open>Autoscaling\<close> (\<^verbatim>\<open>workers/\<close>): running a job, what a worker does
    with the outcome, the pool of workers. \<open>WorkerLiveness\<close> is the worker process in time: heartbeats and
    updates in flight, signals, the shutdown, and the health check that judges it.
  \<^item> \<open>JobService\<close> (\<^verbatim>\<open>services/JobService.ts\<close>, \<^verbatim>\<open>services/RetryService.ts\<close>) and \<open>Monitoring\<close>
    (\<^verbatim>\<open>services/NotificationService.ts\<close>, \<^verbatim>\<open>services/WorkerService.ts\<close>, \<^verbatim>\<open>monitoring/\<close>).
  \<^item> \<open>Auth\<close>, \<open>Api\<close>, \<open>GraphQL\<close>, \<open>Validation\<close>, \<open>Routing\<close> (\<^verbatim>\<open>api/\<close>): authentication; the job, worker and health
    routes with their middleware chains; the GraphQL schema as data and the resolvers; the Joi schemas as
    data; the routers, their mount points in \<^verbatim>\<open>app.ts\<close>, the schedule routes, and \<open>serve\<close>, which takes
    any request to its handler.
  \<^item> \<open>Application\<close> (\<^verbatim>\<open>app.ts\<close>) and \<open>Migrations\<close> (\<^verbatim>\<open>db/migrate.ts\<close>): start-up, request metrics, shutdown; the
    runner of the database migrations.
  \<^item> \<open>JsonText\<close> (\<^verbatim>\<open>safeJsonParse\<close> of \<^verbatim>\<open>utils/helpers.ts\<close>, \<^verbatim>\<open>utils/logger.ts\<close>): the text of JSON, printed and parsed, and the
    log line. \<open>Infrastructure\<close> (\<^verbatim>\<open>db/index.ts\<close>, \<^verbatim>\<open>api/middleware/rateLimit.ts\<close>, the constructors of the queues and of the
    clients of Redis, the middleware of \<^verbatim>\<open>app.ts\<close>): how the components are wired, as functions of the settings.
  \<^item> \<open>Lifecycle\<close>: the composition. A step of the system is a poll of a scheduler, the first or
    the last part of a run on some worker, a tick of the cron scheduler, a submission or a request of
    a user, or anything that leaves the job table alone. \<open>EndToEnd\<close>: the way of one job through all of them.

  \<^bold>\<open>How they interact.\<close> \<open>createJob\<close> inserts a PENDING row and registers its dependencies;
  \<open>scheduleReadyJobs\<close> claims PENDING rows that are due and adds them to the queue;
  \<open>beginJob\<close> and \<open>finishJob\<close> take an entry to RUNNING and then to its outcome, write the
  execution log, and either retry or fill the dead letter queue; \<open>onJobCompleted\<close> releases
  dependents; \<open>recoverStalledJobs\<close> takes RUNNING rows that are overdue back to PENDING or to
  FAILED. Only a leader polls, and leadership is a lock.

  \<^bold>\<open>What is shown.\<close>
  \<^item> Claims: the claimed rows are the best due ones up to the limit, and no two claims overlap,
    whatever the order and however the row locks fall.
  \<^item> Life cycle: every step moves a row along the edges of the job's life cycle only, and the
    rows are well formed in every reachable state; polls drain a backlog, and a submitted job that can run
    ends COMPLETED with the result of its run; the outcome of a run, a scheduling round and a
    recovery is described completely, error branches included.
  \<^item> Locks: mutual exclusion across processes up to the delay of a reply, release and renewal by
    the holder only, a free lock is obtained; an election that runs is never stuck.
  \<^item> Access: authentication lets through only valid credentials with all scopes; over the whole
    interface answers and changes stay within the organization of the credentials, and a request without
    valid ones changes nothing; an error answer changes nothing; every job endpoint is reached by its path.
  \<^item> Data at the borders: a submission that passes the schemas becomes a row within their bounds; every GraphQL
    answer has the type its field declares; the records of jobs, workers and logs are what the rows of the database stand for.
  \<^item> Operation: a signal ends the process within thirty seconds; a worker that meets its deadlines is never
    declared lost, and an orderly shutdown leaves it OFFLINE; JSON text is read back as it was written; the default settings fit together; migrations are applied in
    order, and an interrupted run is resumed.
  \<^item> Services: bulk cancellation and alerts refine abstract specifications; replaying the dead
    letter queue loses nothing; a tick triggers each due schedule once, and overlapping ticks
    leave no trigger uncounted; health check, pool size.
  \<^item> Data structures: the heap sorts and agrees with \<open>toArray\<close>; cycle detection and topological
    order are correct; the invariant of the graph; selection of workers; fairness of round robin.
  \<^item> Some theorems record what the code does where its comments promise something else:
    \<open>onJobCompleted_releases\<close>, \<open>released_by_first_dependency\<close>, \<open>leader_iff_lock\<close>, \<open>cron_overlap_duplicates\<close>,
    \<open>gql_limit_zero\<close>, \<open>paused_forever\<close>, \<open>http_gauge\<close>, \<open>cancel_lost_when_running\<close>,
    \<open>requeue_keeps_old_entry\<close>, \<open>cron_error_blocks\<close>, \<open>election_stop_race\<close>,
    \<open>worker_ignores_retry_policy\<close>, \<open>retrying_never_scheduled\<close>, \<open>healthy_run_recovered\<close>, \<open>late_heartbeat_race\<close>,
    \<open>double_signal_race\<close>, \<open>malformed_body\<close>.

  \<^bold>\<open>Conventions.\<close> Finite numbers are exact rationals or integers; instants are integers in
  milliseconds. The clock, random numbers and generated identifiers are arguments. An
  exception or a rejected promise is an \<open>Inl\<close> or an error component of the result; what was
  written before it stays written. Timers are explicit steps. Code between two awaits is one
  step where other processes can act in between and the outcome depends on it (worker runs,
  heartbeats and shutdown of a worker, election, ticks of the cron scheduler); calls that the source starts together run in the order it starts them.
  Rows of a table come in an arbitrary order.

  \<^bold>\<open>Parameters.\<close> Third-party code is an argument, with its documented behaviour as a named
  predicate where a theorem needs it: BullMQ (\<open>BullQueue\<close>, \<open>bull_ok\<close>), Redis (\<open>Redis\<close>,
  \<open>redis_ok\<close>, and the commands of the node register), the JWT library and bcrypt, cron-parser,
  Joi (\<open>joi_sound\<close>), the body parser of Express (\<open>body_parser_ok\<close>), express-rate-limit, axios, the shell and the registered job handlers (\<open>Env\<close>). The
  witnesses instantiate them with concrete functions.

  \<^bold>\<open>Bounds and fuel.\<close> No definition has fuel. The loop of \<open>chunkArray\<close>, which does not end for a
  size of zero, is a partial function into \<open>option\<close>; that it returns for positive sizes is
  proved. The two searches of the dependency graph and the loops of the heap have
  termination proofs (unvisited identifiers, index), and so has the lexer of JSON (length of the text).
  The text of a number is defined for at most six decimals and fifteen digits, where the language prints
  plain decimal notation.

  \<^bold>\<open>Not modelled.\<close> The connections themselves (input and output of Knex, ioredis and BullMQ), the middleware of helmet,
  cors and compression, the formats of winston beside the line of the development format and the writing of log
  files, the parsing of GraphQL documents by Apollo, the counters of the rate limiter (evaluated by that package), the order
  JSONB gives to the properties of an object, the rendering of metrics by prom-client, and the retry behaviour of BullMQ
  itself: none of it is code of the repository.
\<close>

end
